(* ===== verification/Prelude.thy ===== *)
theory Prelude
  imports Main "HOL-Library.Word"
begin

text \<open>
  Shared vocabulary of the development: the machine integers the Rust code uses,
  the saturating operations of its standard library, the ordered containers
  (\<open>BTreeMap\<close> as a key-sorted association list, \<open>BTreeSet\<close> over the finite
  identifier types as a set), and the list and counting lemmas that the component
  theories share.

  Offsets are Rust's \<open>i64\<close>. The code compares and takes minima of them and adds
  small constants behind explicit guards, so they are \<open>int\<close> here, and a theorem
  that depends on the width says so with \<open>i64_range\<close>.
\<close>

named_theorems kernel_defs \<open>definitions of the pure decision kernels\<close>
named_theorems machine_defs \<open>definitions of the handlers of the quorum state machine\<close>
named_theorems step_frame \<open>fields that an operation leaves alone\<close>

section \<open>Machine integers\<close>

type_synonym u16 = "16 word"
type_synonym u32 = "32 word"
type_synonym u64 = "64 word"

definition i64_min :: int where "i64_min = - (2 ^ 63)"
definition i64_max :: int where "i64_max = 2 ^ 63 - 1"
definition i32_min :: int where "i32_min = - (2 ^ 31)"
definition i32_max :: int where "i32_max = 2 ^ 31 - 1"
definition usize_max :: int where "usize_max = 2 ^ 64 - 1"

definition i64_range :: "int \<Rightarrow> bool" where
  "i64_range x \<longleftrightarrow> i64_min \<le> x \<and> x \<le> i64_max"

text \<open>Rust's \<open>saturating_add\<close>, \<open>saturating_sub\<close> and \<open>saturating_mul\<close> on unsigned words.\<close>

definition saturating_add :: "'a::len word \<Rightarrow> 'a word \<Rightarrow> 'a word" where
  "saturating_add a b = (if unat a + unat b < 2 ^ LENGTH('a) then a + b else - 1)"

definition saturating_sub :: "'a::len word \<Rightarrow> 'a word \<Rightarrow> 'a word" where
  "saturating_sub a b = (if b \<le> a then a - b else 0)"

definition saturating_mul :: "'a::len word \<Rightarrow> 'a word \<Rightarrow> 'a word" where
  "saturating_mul a b = (if unat a * unat b < 2 ^ LENGTH('a) then a * b else - 1)"

lemma le_saturating_add: "(a :: 'a::len word) \<le> saturating_add a b"
proof (cases "unat a + unat b < 2 ^ LENGTH('a)")
  case True
  then show ?thesis by (simp add: saturating_add_def word_le_nat_alt unat_word_ariths)
next
  case False
  then show ?thesis by (simp add: saturating_add_def)
qed

lemma saturating_add_one_less:
  assumes "(e :: 'a::len word) \<noteq> - 1"
  shows "e < saturating_add e 1"
proof -
  have "e < - 1" using assms by (simp add: word_order.not_eq_extremum)
  then have "Suc (unat e) \<le> unat (- 1 :: 'a word)"
    by (simp add: word_less_nat_alt)
  then have "Suc (unat e) < 2 ^ LENGTH('a)"
    using unsigned_less [of "- 1 :: 'a word", where ?'a = nat] by linarith
  then show ?thesis
    by (auto simp: saturating_add_def word_less_nat_alt unat_word_ariths)
qed

lemma saturating_add_max [simp]: "saturating_add (- 1) b = (- 1 :: 'a::len word)"
  using le_saturating_add [of "- 1 :: 'a word" b] by (simp add: word_order.extremum_unique)

lemma saturating_sub_le: "saturating_sub a b \<le> a"
  by (auto simp: saturating_sub_def word_le_nat_alt unat_sub)

section \<open>Counting members of a set\<close>

text \<open>
  \<open>set.iter().filter(p).count()\<close> over a \<open>BTreeSet\<close>. Node identifiers are 64-bit
  words, so every set of them is finite.
\<close>

definition count_where :: "('a \<Rightarrow> bool) \<Rightarrow> 'a set \<Rightarrow> nat" where
  "count_where P S = card {x \<in> S. P x}"

lemma count_where_empty [simp]: "count_where P {} = 0"
  by (simp add: count_where_def)

lemma count_where_insert [simp]:
  assumes "finite S"
  shows "count_where P (insert a S) =
    (if P a \<and> a \<notin> S then Suc (count_where P S) else count_where P S)"
proof -
  have "{x \<in> insert a S. P x} = (if P a then insert a {x \<in> S. P x} else {x \<in> S. P x})"
    by auto
  then show ?thesis using assms by (auto simp: count_where_def insert_absorb)
qed

lemma count_where_eq_card_Int: "count_where (\<lambda>x. x \<in> A) S = card (A \<inter> S)"
  by (simp add: count_where_def Int_def conj_commute)

text \<open>Two majorities of one finite set of voters share a voter.\<close>

lemma majorities_meet:
  assumes "finite W" "A \<subseteq> W" "B \<subseteq> W"
    and "card W div 2 + 1 \<le> card A" "card W div 2 + 1 \<le> card B"
  shows "A \<inter> B \<noteq> {}"
proof
  assume "A \<inter> B = {}"
  then have "card (A \<union> B) = card A + card B"
    using assms(1-3) by (meson card_Un_disjoint finite_subset)
  moreover have "card (A \<union> B) \<le> card W"
    using assms(1-3) by (simp add: card_mono)
  ultimately show False using assms(4,5) by linarith
qed

section \<open>Ordered maps\<close>

text \<open>
  A \<open>BTreeMap\<close> is a list of entries in strictly increasing key order.
  \<open>bt_insert\<close> overwrites or inserts in place, \<open>bt_or_insert\<close> is
  \<open>entry(k).or_insert(v)\<close>, \<open>bt_modify\<close> applies a function behind \<open>get_mut\<close>.
\<close>

type_synonym ('k, 'v) btree_map = "('k \<times> 'v) list"

fun bt_insert :: "'k::linorder \<Rightarrow> 'v \<Rightarrow> ('k, 'v) btree_map \<Rightarrow> ('k, 'v) btree_map" where
  "bt_insert k v [] = [(k, v)]"
| "bt_insert k v ((k', v') # m) =
     (if k < k' then (k, v) # (k', v') # m
      else if k = k' then (k, v) # m
      else (k', v') # bt_insert k v m)"

definition bt_get :: "('k, 'v) btree_map \<Rightarrow> 'k \<Rightarrow> 'v option" where
  "bt_get m k = map_of m k"

definition bt_or_insert :: "'k::linorder \<Rightarrow> 'v \<Rightarrow> ('k, 'v) btree_map \<Rightarrow> ('k, 'v) btree_map" where
  "bt_or_insert k v m = (case bt_get m k of Some _ \<Rightarrow> m | None \<Rightarrow> bt_insert k v m)"

definition bt_modify :: "'k \<Rightarrow> ('v \<Rightarrow> 'v) \<Rightarrow> ('k, 'v) btree_map \<Rightarrow> ('k, 'v) btree_map" where
  "bt_modify k f m = map (\<lambda>(k', v). (k', if k' = k then f v else v)) m"

definition bt_retain :: "('k \<Rightarrow> bool) \<Rightarrow> ('k, 'v) btree_map \<Rightarrow> ('k, 'v) btree_map" where
  "bt_retain P m = filter (\<lambda>(k, _). P k) m"

definition bt_values :: "('k, 'v) btree_map \<Rightarrow> 'v list" where
  "bt_values m = map snd m"

definition bt_keys :: "('k, 'v) btree_map \<Rightarrow> 'k set" where
  "bt_keys m = fst ` set m"

abbreviation bt_ordered :: "('k::linorder, 'v) btree_map \<Rightarrow> bool" where
  "bt_ordered m \<equiv> sorted_wrt (<) (map fst m)"

lemma bt_get_insert [simp]:
  "bt_get (bt_insert k v m) x = (if x = k then Some v else bt_get m x)"
  by (induction m) (auto simp: bt_get_def)

lemma bt_keys_Nil [simp]: "bt_keys [] = {}"
  by (simp add: bt_keys_def)

lemma bt_keys_Cons [simp]: "bt_keys (e # m) = insert (fst e) (bt_keys m)"
  by (simp add: bt_keys_def)

lemma bt_keys_insert [simp]: "bt_keys (bt_insert k v m) = insert k (bt_keys m)"
proof (induction m)
  case Nil
  show ?case by simp
next
  case (Cons e m)
  then show ?case by (cases e) (simp add: insert_commute)
qed

lemma bt_keys_modify [simp]: "bt_keys (bt_modify k f m) = bt_keys m"
  by (simp add: bt_keys_def bt_modify_def image_image case_prod_beta)

lemma bt_keys_retain [simp]: "bt_keys (bt_retain P m) = {k \<in> bt_keys m. P k}"
  unfolding bt_keys_def bt_retain_def by (auto simp: image_iff)

lemma bt_get_None_iff: "bt_get m k = None \<longleftrightarrow> k \<notin> bt_keys m"
  by (auto simp: bt_get_def bt_keys_def map_of_eq_None_iff)

lemma bt_keys_or_insert [simp]: "bt_keys (bt_or_insert k v m) = insert k (bt_keys m)"
  using bt_get_None_iff [of m k] by (auto simp: bt_or_insert_def split: option.splits)

lemma bt_ordered_insert [simp]: "bt_ordered m \<Longrightarrow> bt_ordered (bt_insert k v m)"
proof (induction m)
  case Nil
  then show ?case by simp
next
  case (Cons e m)
  obtain k' v' where e: "e = (k', v')" by (cases e)
  have "set (map fst (bt_insert k v m)) = insert k (set (map fst m))"
    using bt_keys_insert [of k v m] by (simp add: bt_keys_def)
  then show ?case using Cons by (auto simp: e)
qed

lemma map_fst_bt_modify [simp]: "map fst (bt_modify k f m) = map fst m"
  by (induction m) (auto simp: bt_modify_def)

lemma bt_ordered_retain [simp]: "bt_ordered m \<Longrightarrow> bt_ordered (bt_retain P m)"
  by (induction m) (auto simp: bt_retain_def)

lemma bt_ordered_or_insert [simp]: "bt_ordered m \<Longrightarrow> bt_ordered (bt_or_insert k v m)"
  by (auto simp: bt_or_insert_def split: option.splits)

lemma bt_ordered_distinct: "bt_ordered m \<Longrightarrow> distinct (map fst m)"
  by (simp add: strict_sorted_iff)

lemma length_bt_values [simp]: "length (bt_values m) = length m"
  by (simp add: bt_values_def)

lemma bt_ordered_length: "bt_ordered m \<Longrightarrow> length m = card (bt_keys m)"
  using distinct_card [OF bt_ordered_distinct, of m] by (simp add: bt_keys_def)

lemma bt_insert_fold_keys:
  "bt_keys (fold (\<lambda>k. bt_insert k (f k)) ks m) = set ks \<union> bt_keys m"
  by (induction ks arbitrary: m) auto

lemma bt_or_insert_fold_keys:
  "bt_keys (fold (\<lambda>k. bt_or_insert k v) ks m) = set ks \<union> bt_keys m"
  by (induction ks arbitrary: m) auto

lemma bt_insert_fold_ordered:
  "bt_ordered m \<Longrightarrow> bt_ordered (fold (\<lambda>k. bt_insert k (f k)) ks m)"
  by (induction ks arbitrary: m) auto

lemma bt_or_insert_fold_ordered:
  "bt_ordered m \<Longrightarrow> bt_ordered (fold (\<lambda>k. bt_or_insert k v) ks m)"
  by (induction ks arbitrary: m) auto

section \<open>Sorting by a comparator\<close>

text \<open>\<open>Vec::sort_by\<close>: a stable insertion into the order of the comparator.\<close>

fun insert_by :: "('a \<Rightarrow> 'a \<Rightarrow> bool) \<Rightarrow> 'a \<Rightarrow> 'a list \<Rightarrow> 'a list" where
  "insert_by le x [] = [x]"
| "insert_by le x (y # ys) = (if le x y then x # y # ys else y # insert_by le x ys)"

definition sort_by :: "('a \<Rightarrow> 'a \<Rightarrow> bool) \<Rightarrow> 'a list \<Rightarrow> 'a list" where
  "sort_by le xs = foldr (insert_by le) xs []"

lemma set_insert_by [simp]: "set (insert_by le x ys) = insert x (set ys)"
  by (induction ys) auto

lemma set_sort_by [simp]: "set (sort_by le xs) = set xs"
  by (induction xs) (auto simp: sort_by_def)

lemma distinct_insert_by [simp]: "distinct (insert_by le x ys) \<longleftrightarrow> distinct (x # ys)"
  by (induction ys) auto

lemma distinct_sort_by [simp]: "distinct (sort_by le xs) \<longleftrightarrow> distinct xs"
proof (induction xs)
  case (Cons x xs)
  have "set (foldr (insert_by le) xs []) = set xs"
    using set_sort_by[of le xs] by (simp add: sort_by_def)
  with Cons show ?case by (simp add: sort_by_def)
qed (simp add: sort_by_def)

lemma sorted_insert_by:
  assumes "\<And>a b. le a b \<or> le b a" "\<And>a b c. le a b \<Longrightarrow> le b c \<Longrightarrow> le a c"
  shows "sorted_wrt le ys \<Longrightarrow> sorted_wrt le (insert_by le x ys)"
proof (induction ys)
  case (Cons y ys)
  show ?case
  proof (cases "le x y")
    case True
    then show ?thesis using Cons.prems assms(2) by auto
  next
    case False
    then have "le y x" using assms(1) by blast
    then show ?thesis using False Cons by auto
  qed
qed simp

lemma sorted_sort_by:
  assumes "\<And>a b. le a b \<or> le b a" "\<And>a b c. le a b \<Longrightarrow> le b c \<Longrightarrow> le a c"
  shows "sorted_wrt le (sort_by le xs)"
  by (induction xs) (auto simp: sort_by_def intro: sorted_insert_by[OF assms])

end
