(* ===== verification/Consensus_Kernels.thy ===== *)
theory Consensus_Kernels
  imports Prelude
begin

text \<open>
  The pure consensus kernels of \<open>crates/verified/src/consensus\<close> and
  \<open>crates/verified/src/vote.rs\<close>: majority sizes, the election tally, log recency,
  the election jitter, the high-watermark computation, vote admission, and the
  failover decisions. The loops over slices are recursions over lists that keep
  the source's accumulators.

  Shown here: the watermark kernel equals the majority-th largest acknowledged
  offset of a sorted reference, is monotone and bounded; the failover ladder; the
  recovery candidate that is picked is maximal; the jitter stays below its base.
\<close>

unbundle bit_operations_syntax

section \<open>Majorities and the election tally (\<open>consensus/failover.rs\<close>)\<close>

definition majority_size :: "nat \<Rightarrow> nat" where
  [kernel_defs]: "majority_size voter_count = voter_count div 2 + 1"

definition election_has_quorum :: "nat \<Rightarrow> nat \<Rightarrow> bool" where
  [kernel_defs]: "election_has_quorum voter_count current_grants \<longleftrightarrow>
     current_grants \<ge> majority_size voter_count"

section \<open>Log recency and jitter (\<open>consensus/log_is_up_to_date.rs\<close>)\<close>

definition log_is_up_to_date :: "u32 \<Rightarrow> int \<Rightarrow> u32 \<Rightarrow> int \<Rightarrow> bool" where
  [kernel_defs]: "log_is_up_to_date my_epoch my_end cand_epoch cand_offset \<longleftrightarrow>
     cand_epoch > my_epoch \<or> (cand_epoch = my_epoch \<and> cand_offset \<ge> my_end)"

definition election_jitter_ms :: "u64 \<Rightarrow> u32 \<Rightarrow> u64 \<Rightarrow> u64" where
  "election_jitter_ms me epoch base_ms =
     (if base_ms = 0 then 0
      else (me * 0x9E3779B97F4A7C15 XOR ucast epoch * 0xD1B54A32D192ED03) mod base_ms)"

section \<open>The high watermark (\<open>consensus/watermark.rs\<close>)\<close>

text \<open>
  The counting loop of \<open>candidate_has_majority\<close>: one step per follower, with a
  count that stops at the majority.
\<close>

fun count_up_to :: "int \<Rightarrow> nat \<Rightarrow> nat \<Rightarrow> int list \<Rightarrow> nat" where
  "count_up_to cand majority count [] = count"
| "count_up_to cand majority count (x # xs) =
     count_up_to cand majority
       (if x \<ge> cand \<and> count < majority then count + 1 else count) xs"

definition candidate_has_majority :: "int \<Rightarrow> int list \<Rightarrow> int \<Rightarrow> nat \<Rightarrow> bool \<Rightarrow> bool" where
  "candidate_has_majority log_end follower_offsets cand majority leader_counts =
     (let count = (if leader_counts \<and> log_end \<ge> cand \<and> 0 < majority then 1 else 0)
      in count_up_to cand majority count follower_offsets \<ge> majority)"

fun majority_scan :: "int \<Rightarrow> int list \<Rightarrow> nat \<Rightarrow> bool \<Rightarrow> int \<Rightarrow> int list \<Rightarrow> int" where
  "majority_scan log_end offs majority leader_counts best [] = best"
| "majority_scan log_end offs majority leader_counts best (cand # cands) =
     majority_scan log_end offs majority leader_counts
       (if cand > best \<and> candidate_has_majority log_end offs cand majority leader_counts
        then cand else best) cands"

definition majority_offset :: "int \<Rightarrow> int list \<Rightarrow> nat \<Rightarrow> bool \<Rightarrow> int" where
  "majority_offset log_end offs majority leader_counts =
     majority_scan log_end offs majority leader_counts
       (if candidate_has_majority log_end offs log_end majority leader_counts
        then log_end else i64_min) offs"

definition recompute_high_watermark ::
    "int \<Rightarrow> int list \<Rightarrow> nat \<Rightarrow> int \<Rightarrow> int \<Rightarrow> bool \<Rightarrow> int" where
  "recompute_high_watermark log_end offs majority epoch_start_offset current_hwm leader_counts =
     (let m = majority_offset log_end offs majority leader_counts;
          gated = (if m > epoch_start_offset then m else current_hwm)
      in max gated current_hwm)"

definition majority_watermark :: "int \<Rightarrow> int list \<Rightarrow> nat \<Rightarrow> int \<Rightarrow> int" where
  "majority_watermark log_end offs majority current =
     recompute_high_watermark log_end offs majority current current True"

section \<open>Vote wire and membership admission (\<open>vote.rs\<close>)\<close>

datatype vote_wire_decision = WireReject | WireAccept

datatype vote_encode_decision = EncodeReject | EncodeAccept

definition vote_encode_decision :: "u64 \<Rightarrow> u64 \<Rightarrow> u32 \<Rightarrow> u32 \<Rightarrow> vote_encode_decision" where
  "vote_encode_decision voter_id candidate_id candidate_epoch last_epoch =
     (if voter_id > 2147483647 \<or> candidate_id > 2147483647
         \<or> candidate_epoch > 2147483647 \<or> last_epoch > 2147483647
      then EncodeReject else EncodeAccept)"

definition vote_wire_decision :: "int \<Rightarrow> int \<Rightarrow> int \<Rightarrow> int \<Rightarrow> vote_wire_decision" where
  "vote_wire_decision voter_id candidate_id candidate_epoch last_epoch =
     (if voter_id < 0 \<or> candidate_id < 0 \<or> candidate_epoch < 0 \<or> last_epoch < 0
      then WireReject else WireAccept)"

datatype vote_admission_decision = IgnoreWrongTarget | Deny | Consider

record vote_target =
  vt_voter_id :: u64
  vt_local_id :: u64
  directory_matches :: bool

record vote_membership =
  cluster_matches :: bool
  local_is_voter :: bool
  candidate_is_voter :: bool

definition vote_admission_decision ::
    "vote_target \<Rightarrow> vote_membership \<Rightarrow> vote_admission_decision" where
  [kernel_defs]: "vote_admission_decision target membership =
     (if vt_voter_id target \<noteq> vt_local_id target \<or> \<not> directory_matches target
      then IgnoreWrongTarget
      else if \<not> cluster_matches membership \<or> \<not> local_is_voter membership
              \<or> \<not> candidate_is_voter membership
      then Deny else Consider)"

section \<open>Failover (\<open>consensus.rs\<close>, \<open>consensus/failover.rs\<close>)\<close>

datatype failover_recovery = NoRecovery | Balanced | Aggressive

datatype failover_action_kind =
    ElectClean | ElectFromElr | ElectLastKnown | Recover failover_recovery
  | ElectUnclean | Unavailable | ShrinkIsr | NoChange

datatype live_isr_kind = LiveIsrEmpty | WitnessesOnly | Electable

record out_of_isr_facts =
  has_electable_elr :: bool
  last_known_leader_electable :: bool
  recovery :: failover_recovery
  unclean_election_available :: bool

record failover_facts =
  leader_dead :: bool
  isr_shrunk :: bool
  live_isr :: live_isr_kind
  out_of_isr :: out_of_isr_facts

definition failover_action :: "failover_facts \<Rightarrow> failover_action_kind" where
  "failover_action facts =
     (if \<not> leader_dead facts then (if isr_shrunk facts then ShrinkIsr else NoChange)
      else case live_isr facts of
        Electable \<Rightarrow> ElectClean
      | WitnessesOnly \<Rightarrow> Unavailable
      | LiveIsrEmpty \<Rightarrow>
          (let out = out_of_isr facts in
           if has_electable_elr out then ElectFromElr
           else if last_known_leader_electable out then ElectLastKnown
           else case recovery out of
             Balanced \<Rightarrow> Recover (recovery out)
           | Aggressive \<Rightarrow> Recover (recovery out)
           | NoRecovery \<Rightarrow>
               if unclean_election_available out then ElectUnclean else Unavailable))"

record recovery_candidate =
  rc_last_epoch :: int
  rc_log_end_offset :: int
  rc_broker_id :: u64

definition beats :: "recovery_candidate \<Rightarrow> recovery_candidate \<Rightarrow> bool" where
  "beats c d \<longleftrightarrow>
     rc_last_epoch c > rc_last_epoch d
     \<or> (rc_last_epoch c = rc_last_epoch d \<and> rc_log_end_offset c > rc_log_end_offset d)
     \<or> (rc_last_epoch c = rc_last_epoch d \<and> rc_log_end_offset c = rc_log_end_offset d
         \<and> rc_broker_id c < rc_broker_id d)"

function best_replica_from :: "recovery_candidate list \<Rightarrow> nat \<Rightarrow> nat \<Rightarrow> nat" where
  "best_replica_from cs best i =
     (if i < length cs
      then best_replica_from cs (if beats (cs ! i) (cs ! best) then i else best) (i + 1)
      else best)"
  by pat_completeness auto
termination by (relation "measure (\<lambda>(cs, best, i). length cs - i)") auto

declare best_replica_from.simps [simp del]

definition select_best_recovery_replica :: "recovery_candidate list \<Rightarrow> nat option" where
  "select_best_recovery_replica cs =
     (if length cs = 0 then None else Some (best_replica_from cs 0 1))"

section \<open>Properties of the watermark kernel\<close>

text \<open>
  The number of counted logs that reach \<open>v\<close>: the leader's own log when it counts,
  and every follower's acknowledged offset.
\<close>

definition counted_logs :: "int \<Rightarrow> int list \<Rightarrow> bool \<Rightarrow> int list" where
  "counted_logs log_end offs leader_counts = (if leader_counts then log_end # offs else offs)"

definition reach :: "int \<Rightarrow> int list \<Rightarrow> bool \<Rightarrow> int \<Rightarrow> nat" where
  "reach log_end offs leader_counts v =
     length (filter (\<lambda>x. v \<le> x) (counted_logs log_end offs leader_counts))"

lemma count_up_to_eq:
  "count \<le> majority \<Longrightarrow>
   count_up_to cand majority count xs = min majority (count + length (filter (\<lambda>x. cand \<le> x) xs))"
  by (induction xs arbitrary: count) (auto simp: min_def)

lemma candidate_has_majority_iff:
  "1 \<le> majority \<Longrightarrow>
   candidate_has_majority log_end offs cand majority leader_counts
     \<longleftrightarrow> majority \<le> reach log_end offs leader_counts cand"
  by (auto simp: candidate_has_majority_def count_up_to_eq reach_def counted_logs_def Let_def)

lemma majority_scan_best:
  fixes log_end offs majority lc
  defines "P \<equiv> \<lambda>c. candidate_has_majority log_end offs c majority lc"
  shows "best \<le> majority_scan log_end offs majority lc best cands"
    and "majority_scan log_end offs majority lc best cands = best
         \<or> majority_scan log_end offs majority lc best cands \<in> set cands
           \<and> P (majority_scan log_end offs majority lc best cands)"
    and "c \<in> set cands \<Longrightarrow> P c \<Longrightarrow> c \<le> majority_scan log_end offs majority lc best cands"
proof (induction cands arbitrary: best)
  case (Cons d cands)
  { case 1
    show ?case using Cons.IH(1)[of "if d > best \<and> P d then d else best"]
      by (auto simp: P_def split: if_splits)
  next
    case 2
    show ?case using Cons.IH(2)[of "if d > best \<and> P d then d else best"]
      by (auto simp: P_def split: if_splits)
  next
    case 3
    show ?case
      using 3 Cons.IH(1)[of "if d > best \<and> P d then d else best"]
        Cons.IH(3)[of "if d > best \<and> P d then d else best"]
      by (auto simp: P_def split: if_splits)
  }
qed auto

text \<open>In a descending list, more than \<open>k\<close> elements reach \<open>v\<close> exactly when the \<open>k\<close>-th does.\<close>

lemma filter_ge_descending:
  fixes xs :: "'a::linorder list"
  assumes "sorted_wrt (\<ge>) xs" "k < length xs"
  shows "k < length (filter (\<lambda>x. v \<le> x) xs) \<longleftrightarrow> v \<le> xs ! k"
  using assms
proof (induction xs arbitrary: k)
  case (Cons x xs)
  show ?case
  proof (cases k)
    case 0
    have "v \<le> x" if "y \<in> set xs" "v \<le> y" for y
      using that Cons.prems(1) by fastforce
    then show ?thesis using 0 by (auto simp: filter_empty_conv)
  next
    case (Suc j)
    have "xs ! j \<in> set xs" using Cons.prems(2) Suc by simp
    then have "v \<le> x" if "v \<le> xs ! j"
      using that Cons.prems(1) by (meson order_trans sorted_wrt.simps(2))
    then show ?thesis
      using Cons.IH[of j] Cons.prems Suc by (cases "v \<le> x") (auto simp: less_Suc_eq_le dest: Suc_lessD)
  qed
qed simp

lemma sorted_wrt_ge_rev_sort: "sorted_wrt (\<ge>) (rev (sort xs))"
  by (simp add: sorted_wrt_rev)

lemma reach_ge_iff_kth_largest:
  assumes "1 \<le> k" "k \<le> length xs"
  shows "k \<le> length (filter (\<lambda>x. v \<le> x) xs) \<longleftrightarrow> v \<le> rev (sort xs) ! (k - 1)"
proof -
  have "length (filter (\<lambda>x. v \<le> x) (rev (sort xs))) = length (filter (\<lambda>x. v \<le> x) xs)"
    by (simp add: filter_sort flip: rev_filter)
  moreover obtain j where "k = Suc j" using assms(1) by (cases k) auto
  ultimately show ?thesis
    using filter_ge_descending[OF sorted_wrt_ge_rev_sort, of j xs v] assms(2)
    by (simp add: less_eq_Suc_le)
qed

lemma majority_offset_cases:
  "majority_offset log_end offs majority lc = i64_min
   \<or> candidate_has_majority log_end offs (majority_offset log_end offs majority lc) majority lc
     \<and> majority_offset log_end offs majority lc \<in> insert log_end (set offs)"
proof (cases "candidate_has_majority log_end offs log_end majority lc")
  case True
  then show ?thesis
    using majority_scan_best(2)[of log_end offs majority lc log_end offs]
    by (auto simp: majority_offset_def)
next
  case False
  then show ?thesis
    using majority_scan_best(2)[of log_end offs majority lc i64_min offs]
    by (auto simp: majority_offset_def)
qed

lemma majority_offset_eq_kth_largest:
  assumes "1 \<le> majority" "majority \<le> length (counted_logs log_end offs lc)"
    and bound: "\<And>x. x \<in> set offs \<Longrightarrow> i64_min \<le> x" "i64_min \<le> log_end"
  shows "majority_offset log_end offs majority lc =
    rev (sort (counted_logs log_end offs lc)) ! (majority - 1)" (is "?M = ?m")
proof (rule antisym)
  let ?L = "counted_logs log_end offs lc"
  have iff: "candidate_has_majority log_end offs v majority lc \<longleftrightarrow> v \<le> ?m" for v
    using candidate_has_majority_iff[OF assms(1)] reach_ge_iff_kth_largest[OF assms(1,2)]
    by (simp add: reach_def)
  have "?m \<in> set ?L"
  proof -
    have "?m \<in> set (rev (sort ?L))" using assms(1,2) by (intro nth_mem) simp
    then show ?thesis by simp
  qed
  then have mem: "?m = log_end \<or> ?m \<in> set offs" and low: "i64_min \<le> ?m"
    using bound by (auto simp: counted_logs_def split: if_splits)
  show "?m \<le> ?M"
    using mem
  proof
    assume "?m = log_end"
    then show ?thesis
      using iff[of log_end] majority_scan_best(1)[of log_end log_end offs majority lc offs]
      by (simp add: majority_offset_def)
  next
    assume "?m \<in> set offs"
    then show ?thesis
      unfolding majority_offset_def using iff[of ?m] majority_scan_best(3) by blast
  qed
  show "?M \<le> ?m"
    using majority_offset_cases[of log_end offs majority lc] iff[of ?M] low by linarith
qed


lemma le_recompute_high_watermark:
  "current \<le> recompute_high_watermark log_end offs majority start current lc"
  by (simp add: recompute_high_watermark_def Let_def)

lemma majority_offset_le:
  assumes "i64_min \<le> log_end" "\<And>x. x \<in> set offs \<Longrightarrow> x \<le> log_end"
  shows "majority_offset log_end offs majority lc \<le> log_end"
  using majority_offset_cases[of log_end offs majority lc] assms by auto

lemma recompute_high_watermark_le:
  assumes "i64_min \<le> log_end" "\<And>x. x \<in> set offs \<Longrightarrow> x \<le> log_end" "current \<le> log_end"
  shows "recompute_high_watermark log_end offs majority start current lc \<le> log_end"
  using majority_offset_le[OF assms(1,2)] assms(3)
  by (simp add: recompute_high_watermark_def Let_def)

text \<open>An advance is backed by a majority of counted logs and passes the epoch start.\<close>

lemma recompute_high_watermark_advance:
  assumes "1 \<le> majority" "i64_min \<le> start"
    and adv: "current < recompute_high_watermark log_end offs majority start current lc"
  shows "start < recompute_high_watermark log_end offs majority start current lc"
    and "majority \<le> reach log_end offs lc (recompute_high_watermark log_end offs majority start current lc)"
proof -
  let ?M = "majority_offset log_end offs majority lc"
  from adv have eq: "recompute_high_watermark log_end offs majority start current lc = ?M"
    and gt: "start < ?M"
    by (auto simp: recompute_high_watermark_def Let_def split: if_splits)
  from gt eq show "start < recompute_high_watermark log_end offs majority start current lc" by simp
  have "?M \<noteq> i64_min" using gt assms(2) by simp
  then have "candidate_has_majority log_end offs ?M majority lc"
    using majority_offset_cases[of log_end offs majority lc] by simp
  then show "majority \<le> reach log_end offs lc
      (recompute_high_watermark log_end offs majority start current lc)"
    using candidate_has_majority_iff[OF assms(1)] eq by simp
qed

section \<open>Properties of the failover kernels\<close>

definition ranks_ge :: "recovery_candidate \<Rightarrow> recovery_candidate \<Rightarrow> bool" where
  "ranks_ge a b \<longleftrightarrow>
     rc_last_epoch a > rc_last_epoch b
     \<or> (rc_last_epoch a = rc_last_epoch b
         \<and> (rc_log_end_offset a > rc_log_end_offset b
             \<or> (rc_log_end_offset a = rc_log_end_offset b \<and> rc_broker_id a \<le> rc_broker_id b)))"

lemma ranks_ge_refl: "ranks_ge a a"
  by (simp add: ranks_ge_def)

lemma ranks_ge_trans: "ranks_ge a b \<Longrightarrow> ranks_ge b c \<Longrightarrow> ranks_ge a c"
  by (auto simp: ranks_ge_def)

lemma beats_iff: "beats c d \<longleftrightarrow> \<not> ranks_ge d c"
  by (auto simp: beats_def ranks_ge_def)

lemma ranks_ge_total: "ranks_ge a b \<or> ranks_ge b a"
  by (auto simp: ranks_ge_def)

lemma best_replica_from_max:
  assumes "best < length cs" "best < i" "\<And>j. j < i \<Longrightarrow> j < length cs \<Longrightarrow> ranks_ge (cs ! best) (cs ! j)"
  shows "best_replica_from cs best i < length cs \<and>
    (\<forall>j < length cs. ranks_ge (cs ! best_replica_from cs best i) (cs ! j))"
  using assms
proof (induction cs best i rule: best_replica_from.induct)
  case (1 cs best i)
  show ?case
  proof (cases "i < length cs")
    case False
    then show ?thesis using "1.prems" by (auto simp: best_replica_from.simps[of cs best i])
  next
    case True
    let ?b = "if beats (cs ! i) (cs ! best) then i else best"
    have "ranks_ge (cs ! ?b) (cs ! j)" if "j < i + 1" "j < length cs" for j
    proof (cases "j = i")
      case True
      then show ?thesis using ranks_ge_refl by (simp add: beats_iff)
    next
      case False
      then have "ranks_ge (cs ! best) (cs ! j)" using that "1.prems"(3) by simp
      moreover have "ranks_ge (cs ! ?b) (cs ! best)"
        using ranks_ge_total ranks_ge_refl by (auto simp: beats_iff)
      ultimately show ?thesis by (rule ranks_ge_trans[rotated])
    qed
    then have "best_replica_from cs ?b (i + 1) < length cs \<and>
        (\<forall>j < length cs. ranks_ge (cs ! best_replica_from cs ?b (i + 1)) (cs ! j))"
      using "1.IH"[OF True] "1.prems" True by auto
    then show ?thesis using True by (simp add: best_replica_from.simps[of cs best i])
  qed
qed

section \<open>Properties\<close>

text \<open>
  C29: the high watermark kernel computes, in one pass without sorting, the
  majority-th largest of the counted log ends, adopted only past the start of the
  epoch and never below the current watermark.
\<close>

theorem recompute_high_watermark_is_kth_largest:
  assumes "1 \<le> majority" "majority \<le> length (counted_logs log_end offs lc)"
    and "i64_range log_end" "\<forall>x \<in> set offs. i64_range x"
  shows "recompute_high_watermark log_end offs majority start current lc =
    (let k = rev (sort (counted_logs log_end offs lc)) ! (majority - 1)
     in if start < k then max current k else current)"
proof -
  have "majority_offset log_end offs majority lc = rev (sort (counted_logs log_end offs lc)) ! (majority - 1)"
    by (rule majority_offset_eq_kth_largest[OF assms(1,2)]) (use assms(3,4) in \<open>auto simp: i64_range_def\<close>)
  then show ?thesis by (simp add: recompute_high_watermark_def Let_def max.commute)
qed

theorem recompute_high_watermark_is_kth_largest_witness:
  "recompute_high_watermark 9 [4, 7] 2 1 3 True =
    (let k = rev (sort (counted_logs 9 [4, 7] True)) ! (2 - 1) in if 1 < k then max 3 k else 3)"
  by (rule recompute_high_watermark_is_kth_largest)
    (simp_all add: counted_logs_def i64_range_def i64_min_def i64_max_def)

text \<open>
  The replica chosen for an unclean recovery ranks at least as high as every
  candidate, by last epoch, then log end, then the smaller identifier, and one is
  chosen whenever there is a candidate.
\<close>

theorem best_recovery_replica_maximal:
  assumes "cs \<noteq> []"
  shows "\<exists>i. select_best_recovery_replica cs = Some i \<and> i < length cs
    \<and> (\<forall>j < length cs. ranks_ge (cs ! i) (cs ! j))"
proof -
  have "best_replica_from cs 0 1 < length cs \<and> (\<forall>j < length cs. ranks_ge (cs ! best_replica_from cs 0 1) (cs ! j))"
    by (rule best_replica_from_max) (use assms ranks_ge_refl in \<open>auto simp: less_Suc_eq\<close>)
  with assms show ?thesis by (simp add: select_best_recovery_replica_def)
qed

theorem best_recovery_replica_maximal_witness:
  "\<exists>i. select_best_recovery_replica
      [\<lparr>rc_last_epoch = 1, rc_log_end_offset = 5, rc_broker_id = 1\<rparr>,
       \<lparr>rc_last_epoch = 2, rc_log_end_offset = 3, rc_broker_id = 2\<rparr>] = Some i \<and> i < 2"
  using best_recovery_replica_maximal[of "[\<lparr>rc_last_epoch = 1, rc_log_end_offset = 5, rc_broker_id = 1\<rparr>,
       \<lparr>rc_last_epoch = 2, rc_log_end_offset = 3, rc_broker_id = 2\<rparr>]"]
  by (auto simp: numeral_2_eq_2)

text \<open>
  An unclean leader is elected exactly when the leader is dead, no replica of the
  ISR lives, no eligible leader replica and no last known leader can be elected, no
  recovery is configured and the partition allows it.
\<close>

theorem unclean_election_is_the_last_resort:
  "failover_action facts = ElectUnclean \<longleftrightarrow>
     leader_dead facts \<and> live_isr facts = LiveIsrEmpty \<and> \<not> has_electable_elr (out_of_isr facts)
     \<and> \<not> last_known_leader_electable (out_of_isr facts) \<and> recovery (out_of_isr facts) = NoRecovery
     \<and> unclean_election_available (out_of_isr facts)"
  by (auto simp: failover_action_def Let_def split: live_isr_kind.splits failover_recovery.splits)

text \<open>
  The jitter added to an election timeout is below the timeout, so a deadline is
  at most twice the timeout away.
\<close>

theorem election_jitter_below_base:
  assumes "0 < base"
  shows "election_jitter_ms n e base < base"
  using assms by (simp add: election_jitter_ms_def Let_def word_mod_less_divisor)

theorem election_jitter_below_base_witness: "election_jitter_ms 3 7 1000 < 1000"
  by (rule election_jitter_below_base) simp

end
