(* ===== verification/Quorum_Types.thy ===== *)
theory Quorum_Types
  imports Consensus_Kernels
begin

text \<open>
  The data of the KRaft consensus core: \<open>crates/kraft-core/src/types.rs\<close>,
  \<open>role.rs\<close>, \<open>event.rs\<close> and \<open>action.rs\<close>. The state machine reads the log only
  through the trait \<open>LogView\<close>, here the record \<open>log_view\<close>; its contract is the
  locale \<open>log_contract\<close>, interpreted on the in-memory log of
  \<open>crates/kraft-core/src/sim/log.rs\<close>.

  \<open>VoterSet\<close> and \<open>Voter\<close> come from the crate \<open>krabka-voters\<close> of another
  repository. They are type parameters, and the record \<open>voter_ops\<close> holds the
  operations the core calls on them; every definition that uses a voter set takes
  it as its first argument. The locale \<open>voter_contract\<close> states what the core
  relies on: \<open>contains\<close>, \<open>get\<close>, \<open>ids\<close>, \<open>len\<close> and \<open>is_empty\<close> are views
  of one finite collection that holds an identifier at most once.
\<close>

section \<open>Identifiers, instants, positions (\<open>types.rs\<close>)\<close>

type_synonym node_id = u64
type_synonym epoch = u32
type_synonym sim_instant = u64
type_synonym uuid = "128 word"

definition saturating_add_ms :: "sim_instant \<Rightarrow> u64 \<Rightarrow> sim_instant" where
  "saturating_add_ms t ms = saturating_add t ms"

record replica_key =
  rk_id :: node_id
  rk_directory_id :: uuid

record log_offset_metadata =
  lom_offset :: int
  lom_epoch :: epoch

record log_view =
  end_offset :: int
  last_epoch :: epoch
  end_offset_for_epoch :: "epoch \<Rightarrow> log_offset_metadata"

text \<open>
  \<open>LogOffsetMetadata::end_of_epoch_in\<close>: \<open>epochs[i]\<close> is the leader epoch of
  offset \<open>i\<close>. A vector never holds more than \<open>i64::MAX\<close> elements on the 64-bit
  targets, so its length converts to an offset exactly.
\<close>

fun position_above :: "epoch \<Rightarrow> epoch list \<Rightarrow> nat option" where
  "position_above e [] = None"
| "position_above e (x # xs) = (if x > e then Some 0 else map_option Suc (position_above e xs))"

definition last_epoch_in :: "epoch list \<Rightarrow> epoch" where
  "last_epoch_in epochs = (if epochs = [] then 0 else last epochs)"

definition end_of_epoch_in :: "epoch list \<Rightarrow> epoch \<Rightarrow> log_offset_metadata" where
  "end_of_epoch_in epochs e =
     (let end = int (length epochs); last_e = last_epoch_in epochs in
      if e > last_e then \<lparr>lom_offset = end, lom_epoch = last_e\<rparr>
      else
        let off = (case position_above e epochs of None \<Rightarrow> end | Some i \<Rightarrow> int i);
            older = filter (\<lambda>x. x \<le> e) epochs;
            found = (if older = [] then e else Max (set older))
        in \<lparr>lom_offset = off, lom_epoch = found\<rparr>)"

definition follower_truncation_offset :: "log_offset_metadata \<Rightarrow> log_view \<Rightarrow> int" where
  "follower_truncation_offset point log =
     (if lom_epoch point = 0 then min (lom_offset point) (end_offset log)
      else
        let here = end_offset_for_epoch log (lom_epoch point) in
        if lom_epoch here = lom_epoch point
        then min (lom_offset here) (lom_offset point)
        else lom_offset here)"

section \<open>Voter sets (crate \<open>krabka-voters\<close>, a parameter)\<close>

record ('vs, 'vt) voter_ops =
  vs_contains :: "'vs \<Rightarrow> node_id \<Rightarrow> bool"
  vs_get :: "'vs \<Rightarrow> node_id \<Rightarrow> 'vt option"
  vs_ids :: "'vs \<Rightarrow> node_id list"
  vs_len :: "'vs \<Rightarrow> nat"
  vs_is_empty :: "'vs \<Rightarrow> bool"
  vt_directory_id :: "'vt \<Rightarrow> uuid"

locale voter_contract =
  fixes V :: "('vs, 'vt) voter_ops"
  assumes contains_iff_get: "vs_contains V vs n \<longleftrightarrow> vs_get V vs n \<noteq> None"
    and ids_members: "n \<in> set (vs_ids V vs) \<longleftrightarrow> vs_contains V vs n"
    and ids_distinct: "distinct (vs_ids V vs)"
    and len_ids: "vs_len V vs = length (vs_ids V vs)"
    and empty_iff_len: "vs_is_empty V vs \<longleftrightarrow> vs_len V vs = 0"
begin

lemma len_card: "vs_len V vs = card {n. vs_contains V vs n}"
proof -
  have "{n. vs_contains V vs n} = set (vs_ids V vs)" using ids_members by auto
  then show ?thesis using ids_distinct by (simp add: len_ids distinct_card)
qed

text \<open>Two sets of grants that each reach a majority of the voters share a voter.\<close>

lemma quorums_intersect:
  assumes "election_has_quorum (vs_len V vs) (count_where (vs_contains V vs) A)"
    and "election_has_quorum (vs_len V vs) (count_where (vs_contains V vs) B)"
  shows "\<exists>v. v \<in> A \<and> v \<in> B \<and> vs_contains V vs v"
proof -
  let ?W = "{n. vs_contains V vs n}"
  have "{x \<in> A. vs_contains V vs x} \<inter> {x \<in> B. vs_contains V vs x} \<noteq> {}"
    by (rule majorities_meet[of ?W])
      (use assms in \<open>auto simp: election_has_quorum_def majority_size_def count_where_def len_card\<close>)
  then show ?thesis by blast
qed

lemma quorum_nonempty:
  assumes "election_has_quorum (vs_len V vs) (count_where (vs_contains V vs) A)"
  shows "\<exists>v \<in> A. vs_contains V vs v"
  using quorums_intersect[OF assms assms] by blast

end

section \<open>The durable quorum state (\<open>types.rs\<close>)\<close>

record 'vs quorum_state =
  cluster_id :: uuid
  kraft_version :: u16
  leader_epoch :: epoch
  leader_id :: "node_id option"
  voted_key :: "replica_key option"
  voters :: 'vs

definition bootstrap :: "uuid \<Rightarrow> 'vs \<Rightarrow> 'vs quorum_state" where
  "bootstrap c vs = \<lparr>cluster_id = c, kraft_version = 0, leader_epoch = 0, leader_id = None,
     voted_key = None, voters = vs\<rparr>"

definition majority :: "('vs, 'vt) voter_ops \<Rightarrow> 'vs quorum_state \<Rightarrow> nat" where
  "majority V qs = majority_size (vs_len V (voters qs))"

section \<open>Roles and replica progress (\<open>role.rs\<close>)\<close>

definition CAUGHT_UP_FETCH_WINDOW_MS :: u64 where
  "CAUGHT_UP_FETCH_WINDOW_MS = 3600000"

record replica_progress =
  fetch_offset :: int
  last_fetch :: sim_instant
  last_caught_up :: sim_instant
  last_fetch_leader_log_end :: int

definition default_progress :: replica_progress where
  "default_progress = \<lparr>fetch_offset = 0, last_fetch = 0, last_caught_up = 0,
     last_fetch_leader_log_end = 0\<rparr>"

definition record_fetch ::
    "sim_instant \<Rightarrow> int \<Rightarrow> int \<Rightarrow> replica_progress \<Rightarrow> replica_progress" where
  "record_fetch now off leader_log_end p =
     (let caught =
            (if off \<ge> leader_log_end then max (last_caught_up p) now
             else if last_fetch_leader_log_end p > 0 \<and> off \<ge> last_fetch_leader_log_end p
             then max (last_caught_up p) (last_fetch p)
             else last_caught_up p)
      in \<lparr>fetch_offset = off, last_fetch = max (last_fetch p) now, last_caught_up = caught,
          last_fetch_leader_log_end = leader_log_end\<rparr>)"

definition fetched_within_caught_up_window :: "replica_progress \<Rightarrow> sim_instant \<Rightarrow> bool" where
  "fetched_within_caught_up_window p now \<longleftrightarrow>
     last_fetch p > 0 \<and> last_fetch p > saturating_sub now CAUGHT_UP_FETCH_WINDOW_MS"

definition is_caught_up :: "replica_progress \<Rightarrow> sim_instant \<Rightarrow> bool" where
  "is_caught_up p now \<longleftrightarrow> last_caught_up p > 0 \<and> fetched_within_caught_up_window p now"

text \<open>
  The arguments follow the source's fields: deadlines; the followed leader, the
  fetch deadline and \<open>has_fetched_from_leader\<close>; granted, rejected, election
  deadline and abandoned leader; replicas, fetched voters, high watermark and
  epoch start offset.
\<close>

datatype role =
    Unattached sim_instant
  | Voted sim_instant
  | Follower node_id sim_instant bool
  | Prospective "node_id set" "node_id set" sim_instant "node_id option"
  | Candidate "node_id set" sim_instant
  | Leader "(node_id, replica_progress) btree_map" "node_id set" int int
  | Resigned
  | Observer "node_id option" sim_instant

fun role_name :: "role \<Rightarrow> string" where
  "role_name (Unattached _) = ''Unattached''"
| "role_name (Voted _) = ''Voted''"
| "role_name (Follower _ _ _) = ''Follower''"
| "role_name (Prospective _ _ _ _) = ''Prospective''"
| "role_name (Candidate _ _) = ''Candidate''"
| "role_name (Leader _ _ _ _) = ''Leader''"
| "role_name Resigned = ''Resigned''"
| "role_name (Observer _ _) = ''Observer''"

definition default_role :: role where
  "default_role = Unattached 0"

fun is_leader :: "role \<Rightarrow> bool" where
  "is_leader (Leader _ _ _ _) = True"
| "is_leader _ = False"

section \<open>Events (\<open>event.rs\<close>)\<close>

record successor_rank =
  sr_position :: u32
  sr_successors :: u32

record log_end =
  le_last_epoch :: epoch
  le_last_offset :: int

record vote_request =
  vr_from :: node_id
  vr_cluster_id :: "uuid option"
  vr_voter_id :: node_id
  vr_voter_directory_id :: uuid
  vr_candidate_epoch :: epoch
  vr_candidate :: node_id
  vr_candidate_directory_id :: uuid
  vr_candidate_log_end :: log_end
  vr_pre_vote :: bool

datatype event =
    ElectionTimeout
  | FetchTimeout
  | CheckQuorumTimeout
  | ReceiveVoteRequest vote_request
  | ReceiveVoteResponse node_id epoch bool
  | ReceiveBeginQuorumEpoch node_id epoch
  | ReceiveEndQuorumEpoch node_id epoch successor_rank
  | ReceiveFetch node_id epoch int
  | ReceiveFetchSnapshot node_id
  | ReceiveFetchResponse node_id epoch "log_offset_metadata option"
  | ReceiveLeaderlessEpoch epoch

section \<open>Actions (\<open>action.rs\<close>)\<close>

datatype timer_kind = ElectionTimer | FetchTimer | CheckQuorumTimer

datatype action =
    SendVoteRequest epoch bool
  | ReplyVote node_id epoch bool
  | SendBeginQuorumEpoch epoch
  | SendEndQuorumEpoch epoch "node_id list"
  | SendFetch node_id
  | TransitionedTo string
  | PersistQuorumState
  | AppendLeaderChange epoch
  | AdvanceHighWatermark int
  | TruncateTo log_offset_metadata
  | ReplyDivergingEpoch log_offset_metadata
  | ResetTimer timer_kind sim_instant

section \<open>The contract of a log view, and the in-memory log (\<open>sim/log.rs\<close>)\<close>

locale log_contract =
  fixes L :: log_view
  assumes offset_le_end: "lom_offset (end_offset_for_epoch L e) \<le> end_offset L"
    and offset_nonneg: "0 \<le> lom_offset (end_offset_for_epoch L e)"
    and found_le: "lom_epoch (end_offset_for_epoch L e) \<le> e"
    and newer_epoch: "last_epoch L < e \<Longrightarrow>
      end_offset_for_epoch L e = \<lparr>lom_offset = end_offset L, lom_epoch = last_epoch L\<rparr>"
begin

lemma end_nonneg: "0 \<le> end_offset L"
  using offset_le_end[of 0] offset_nonneg[of 0] by simp

text \<open>The follower never truncates past its own log end, nor below zero.\<close>

lemma truncation_bounds:
  assumes "0 \<le> lom_offset point"
  shows "0 \<le> follower_truncation_offset point L \<and> follower_truncation_offset point L \<le> end_offset L"
  using assms end_nonneg offset_le_end[of "lom_epoch point"] offset_nonneg[of "lom_epoch point"]
  by (auto simp: follower_truncation_offset_def Let_def)

text \<open>An epoch the log has never seen is answered with a different epoch.\<close>

lemma unknown_newer_epoch_diverges:
  "last_epoch L < e \<Longrightarrow> lom_epoch (end_offset_for_epoch L e) \<noteq> e"
  by (simp add: newer_epoch)

end

type_synonym sim_log = "epoch list"

definition sim_log_view :: "sim_log \<Rightarrow> log_view" where
  "sim_log_view epochs = \<lparr>end_offset = int (length epochs), last_epoch = last_epoch_in epochs,
     end_offset_for_epoch = end_of_epoch_in epochs\<rparr>"

lemma position_above_bound: "position_above e xs = Some i \<Longrightarrow> i < length xs"
  by (induction xs arbitrary: i) (auto split: if_splits)

lemma Max_older_le:
  assumes "filter (\<lambda>x. x \<le> e) epochs \<noteq> []"
  shows "Max (set (filter (\<lambda>x. x \<le> e) epochs)) \<le> (e :: epoch)"
proof -
  have "Max (set (filter (\<lambda>x. x \<le> e) epochs)) \<in> set (filter (\<lambda>x. x \<le> e) epochs)"
    using assms by (intro Max_in) (auto simp: filter_empty_conv)
  then show ?thesis by simp
qed

interpretation sim_log: log_contract "sim_log_view epochs"
proof
  fix e
  show "lom_offset (end_offset_for_epoch (sim_log_view epochs) e) \<le> end_offset (sim_log_view epochs)"
    using position_above_bound[of e epochs]
    by (fastforce simp: sim_log_view_def end_of_epoch_in_def Let_def split: option.splits)
  show "0 \<le> lom_offset (end_offset_for_epoch (sim_log_view epochs) e)"
    by (auto simp: sim_log_view_def end_of_epoch_in_def Let_def split: option.splits)
  show "lom_epoch (end_offset_for_epoch (sim_log_view epochs) e) \<le> e"
    using Max_older_le[of e epochs] by (auto simp: sim_log_view_def end_of_epoch_in_def Let_def split: option.splits)
  show "last_epoch (sim_log_view epochs) < e \<Longrightarrow>
    end_offset_for_epoch (sim_log_view epochs) e =
      \<lparr>lom_offset = end_offset (sim_log_view epochs), lom_epoch = last_epoch (sim_log_view epochs)\<rparr>"
    by (simp add: sim_log_view_def end_of_epoch_in_def Let_def)
qed

end
