(* ===== verification/Quorum_Machine.thy ===== *)
theory Quorum_Machine
  imports Quorum_Types
begin

text \<open>
  The quorum state machine of \<open>crates/kraft-core/src/core.rs\<close> and its submodules
  \<open>membership\<close>, \<open>vote_request\<close>, \<open>election\<close>, \<open>leadership\<close>, \<open>replication\<close>
  and \<open>shutdown\<close>, one definition per method, in the order of the source files. A
  method that takes \<open>&mut self\<close> returns the new machine with the actions it
  produced. The one assertion of the core, in \<open>recompute_high_watermark\<close>, is the
  value \<open>None\<close>: \<open>handle_fetch\<close> and \<open>on_event\<close> return an option because of it.

  The arguments \<open>V\<close>, \<open>log\<close> and \<open>now\<close> are the voter-set operations, the log
  view and the injected instant.
\<close>

unbundle bit_operations_syntax

section \<open>The machine (\<open>core.rs\<close>)\<close>

record 'vs machine =
  me :: node_id
  qstate :: "'vs quorum_state"
  adjacent_voters :: "'vs option"
  mrole :: role
  election_timeout_ms :: u64
  fetch_timeout_ms :: u64

abbreviation m_epoch :: "'vs machine \<Rightarrow> epoch" where
  "m_epoch m \<equiv> leader_epoch (qstate m)"

abbreviation m_voters :: "'vs machine \<Rightarrow> 'vs" where
  "m_voters m \<equiv> voters (qstate m)"

abbreviation m_vote :: "'vs machine \<Rightarrow> replica_key option" where
  "m_vote m \<equiv> voted_key (qstate m)"

abbreviation m_leader :: "'vs machine \<Rightarrow> node_id option" where
  "m_leader m \<equiv> leader_id (qstate m)"

type_synonym 'vs step_result = "'vs machine \<times> action list"

definition CHECK_QUORUM_FACTOR_NUM :: u64 where "CHECK_QUORUM_FACTOR_NUM = 3"
definition CHECK_QUORUM_FACTOR_DEN :: u64 where "CHECK_QUORUM_FACTOR_DEN = 2"

text \<open>\<open>Time::millis_i64\<close> of the crate \<open>krabka-units\<close> is the argument of \<open>whole_millis\<close>.\<close>

definition whole_millis :: "int \<Rightarrow> u64" where
  "whole_millis millis = (if millis < 0 then 0 else word_of_int millis)"

definition new_machine ::
    "('vs, 'vt) voter_ops \<Rightarrow> node_id \<Rightarrow> 'vs quorum_state \<Rightarrow> int \<Rightarrow> int \<Rightarrow> 'vs machine" where
  "new_machine V n qs election_millis fetch_millis =
     \<lparr>me = n, qstate = qs, adjacent_voters = None,
      mrole = (if \<not> vs_contains V (voters qs) n then Observer None 0 else default_role),
      election_timeout_ms = whole_millis election_millis,
      fetch_timeout_ms = whole_millis fetch_millis\<rparr>"

definition known_leader :: "'vs machine \<Rightarrow> node_id option" where
  "known_leader m =
     (case mrole m of
        Prospective _ _ _ abandoned_leader \<Rightarrow>
          (case m_leader m of Some l \<Rightarrow> Some l | None \<Rightarrow> abandoned_leader)
      | _ \<Rightarrow> m_leader m)"

definition is_voter :: "('vs, 'vt) voter_ops \<Rightarrow> 'vs machine \<Rightarrow> bool" where
  "is_voter V m \<longleftrightarrow> vs_contains V (m_voters m) (me m)"

definition election_deadline_in :: "'vs machine \<Rightarrow> epoch \<Rightarrow> sim_instant \<Rightarrow> sim_instant" where
  "election_deadline_in m e now =
     saturating_add_ms now
       (election_timeout_ms m + election_jitter_ms (me m) e (election_timeout_ms m))"

definition election_deadline :: "'vs machine \<Rightarrow> sim_instant \<Rightarrow> sim_instant" where
  "election_deadline m now = election_deadline_in m (m_epoch m) now"

definition unattached_election_deadline :: "'vs machine \<Rightarrow> epoch \<Rightarrow> sim_instant \<Rightarrow> sim_instant" where
  "unattached_election_deadline m e now =
     (case mrole m of
        Unattached d \<Rightarrow> d
      | Voted d \<Rightarrow> d
      | Prospective _ _ d _ \<Rightarrow> d
      | Candidate _ d \<Rightarrow> d
      | _ \<Rightarrow> election_deadline_in m e now)"

definition check_quorum_deadline :: "'vs machine \<Rightarrow> sim_instant \<Rightarrow> sim_instant" where
  "check_quorum_deadline m now =
     saturating_add_ms now
       (saturating_mul (fetch_timeout_ms m) CHECK_QUORUM_FACTOR_NUM div CHECK_QUORUM_FACTOR_DEN)"

definition runs_check_quorum :: "('vs, 'vt) voter_ops \<Rightarrow> 'vs machine \<Rightarrow> bool" where
  "runs_check_quorum V m \<longleftrightarrow> vs_len V (m_voters m) > 1 \<or> \<not> is_voter V m"

definition check_quorum_reset_threshold :: "('vs, 'vt) voter_ops \<Rightarrow> 'vs machine \<Rightarrow> nat" where
  "check_quorum_reset_threshold V m =
     (if is_voter V m then majority V (qstate m) - 1 else majority V (qstate m))"

definition await_election :: "sim_instant \<Rightarrow> 'vs machine \<Rightarrow> 'vs step_result" where
  [machine_defs]: "await_election deadline m =
     (let r = (if m_vote m \<noteq> None then Voted deadline else Unattached deadline)
      in (m\<lparr>mrole := r\<rparr>,
          [PersistQuorumState, TransitionedTo (role_name r), ResetTimer ElectionTimer deadline]))"

definition transition_to_unattached ::
    "epoch \<Rightarrow> sim_instant \<Rightarrow> 'vs machine \<Rightarrow> 'vs step_result" where
  [machine_defs]: "transition_to_unattached e deadline m =
     (m\<lparr>qstate := (qstate m)\<lparr>leader_epoch := e, leader_id := None, voted_key := None\<rparr>,
        mrole := Unattached deadline\<rparr>,
      [PersistQuorumState, TransitionedTo ''Unattached'', ResetTimer ElectionTimer deadline])"

section \<open>Membership queries (\<open>core/membership.rs\<close>)\<close>

definition voter_key_matches ::
    "('vs, 'vt) voter_ops \<Rightarrow> 'vs machine \<Rightarrow> 'vs \<Rightarrow> replica_key \<Rightarrow> bool" where
  "voter_key_matches V m vs key =
     (case vs_get V vs (rk_id key) of
        None \<Rightarrow> False
      | Some voter \<Rightarrow> kraft_version (qstate m) = 0 \<or> vt_directory_id V voter = rk_directory_id key)"

definition local_voter_directory_matches ::
    "('vs, 'vt) voter_ops \<Rightarrow> 'vs machine \<Rightarrow> uuid \<Rightarrow> bool" where
  "local_voter_directory_matches V m directory_id =
     (case vs_get V (m_voters m) (me m) of
        None \<Rightarrow> True
      | Some voter \<Rightarrow> kraft_version (qstate m) = 0 \<or> vt_directory_id V voter = directory_id)"

definition current_or_adjacent_voter_entry ::
    "('vs, 'vt) voter_ops \<Rightarrow> 'vs machine \<Rightarrow> node_id \<Rightarrow> 'vt option" where
  "current_or_adjacent_voter_entry V m n =
     (case vs_get V (m_voters m) n of
        Some voter \<Rightarrow> Some voter
      | None \<Rightarrow> (case adjacent_voters m of None \<Rightarrow> None | Some vs \<Rightarrow> vs_get V vs n))"

definition current_or_adjacent_voter ::
    "('vs, 'vt) voter_ops \<Rightarrow> 'vs machine \<Rightarrow> node_id \<Rightarrow> bool" where
  "current_or_adjacent_voter V m n \<longleftrightarrow>
     vs_contains V (m_voters m) n
     \<or> (case adjacent_voters m of None \<Rightarrow> False | Some vs \<Rightarrow> vs_contains V vs n)"

definition current_or_adjacent_voter_key ::
    "('vs, 'vt) voter_ops \<Rightarrow> 'vs machine \<Rightarrow> replica_key \<Rightarrow> bool" where
  "current_or_adjacent_voter_key V m key \<longleftrightarrow>
     voter_key_matches V m (m_voters m) key
     \<or> (case adjacent_voters m of None \<Rightarrow> False | Some vs \<Rightarrow> voter_key_matches V m vs key)"

definition same_voter :: "'vs machine \<Rightarrow> replica_key \<Rightarrow> replica_key \<Rightarrow> bool" where
  "same_voter m left right \<longleftrightarrow>
     rk_id left = rk_id right
     \<and> (kraft_version (qstate m) = 0 \<or> rk_directory_id left = rk_directory_id right)"

section \<open>Answering a vote (\<open>core/vote_request.rs\<close>)\<close>

definition advance_epoch_for_vote ::
    "('vs, 'vt) voter_ops \<Rightarrow> replica_key \<Rightarrow> epoch \<Rightarrow> sim_instant \<Rightarrow> 'vs machine \<Rightarrow> 'vs step_result" where
  [machine_defs]: "advance_epoch_for_vote V candidate e now m =
     (if e > m_epoch m \<and> is_voter V m \<and> current_or_adjacent_voter_key V m candidate
      then transition_to_unattached e (election_deadline m now) m
      else (m, []))"

definition can_grant_vote :: "'vs machine \<Rightarrow> replica_key \<Rightarrow> bool \<Rightarrow> bool \<Rightarrow> bool" where
  "can_grant_vote m candidate up_to_date pre_vote =
     (let undecided =
            (if pre_vote then up_to_date
             else case m_vote m of
               Some voted \<Rightarrow> same_voter m voted candidate
             | None \<Rightarrow> known_leader m = None \<and> up_to_date)
      in case mrole m of
        Leader _ _ _ _ \<Rightarrow> False
      | Observer _ _ \<Rightarrow> False
      | Follower _ _ has_fetched_from_leader \<Rightarrow> pre_vote \<and> \<not> has_fetched_from_leader \<and> up_to_date
      | Candidate _ _ \<Rightarrow> pre_vote \<and> up_to_date
      | Resigned \<Rightarrow> pre_vote \<and> up_to_date
      | Unattached _ \<Rightarrow> undecided
      | Prospective _ _ _ _ \<Rightarrow> undecided
      | Voted _ \<Rightarrow> undecided)"

definition handle_vote_request ::
    "('vs, 'vt) voter_ops \<Rightarrow> vote_request \<Rightarrow> log_view \<Rightarrow> sim_instant \<Rightarrow> 'vs machine \<Rightarrow> 'vs step_result" where
  [machine_defs]: "handle_vote_request V req log now m =
     (let key = \<lparr>rk_id = vr_candidate req, rk_directory_id = vr_candidate_directory_id req\<rparr>;
          target = \<lparr>vt_voter_id = vr_voter_id req, vt_local_id = me m,
                    directory_matches = local_voter_directory_matches V m (vr_voter_directory_id req)\<rparr>;
          membership =
            \<lparr>cluster_matches =
               (case vr_cluster_id req of None \<Rightarrow> True | Some c \<Rightarrow> c = cluster_id (qstate m)),
             local_is_voter = is_voter V m,
             candidate_is_voter = current_or_adjacent_voter_key V m key\<rparr>;
          refusal = [ReplyVote (vr_from req) (m_epoch m) False]
      in case vote_admission_decision target membership of
        IgnoreWrongTarget \<Rightarrow> (m, [])
      | Deny \<Rightarrow> (m, refusal)
      | Consider \<Rightarrow>
          if vr_candidate_epoch req < m_epoch m then (m, refusal)
          else
            let (m1, advance) = advance_epoch_for_vote V key (vr_candidate_epoch req) now m;
                up_to_date = log_is_up_to_date (last_epoch log) (end_offset log)
                  (le_last_epoch (vr_candidate_log_end req)) (le_last_offset (vr_candidate_log_end req));
                granted = can_grant_vote m1 key up_to_date (vr_pre_vote req)
            in if granted \<and> \<not> vr_pre_vote req
               then let deadline = election_deadline m1 now;
                        m2 = m1\<lparr>qstate := (qstate m1)\<lparr>voted_key := Some key\<rparr>, mrole := Voted deadline\<rparr>
                    in (m2, advance @ [PersistQuorumState, TransitionedTo ''Voted'',
                              ResetTimer ElectionTimer deadline,
                              ReplyVote (vr_from req) (m_epoch m2) granted])
               else (m1, advance @ [ReplyVote (vr_from req) (m_epoch m1) granted]))"

section \<open>Following a leader (\<open>core/leadership.rs\<close>)\<close>

definition handle_begin_quorum_epoch ::
    "('vs, 'vt) voter_ops \<Rightarrow> node_id \<Rightarrow> epoch \<Rightarrow> sim_instant \<Rightarrow> 'vs machine \<Rightarrow> 'vs step_result" where
  [machine_defs]: "handle_begin_quorum_epoch V l e now m =
     (let membership_known =
            (\<not> vs_is_empty V (m_voters m)
             \<or> (case adjacent_voters m of None \<Rightarrow> False | Some vs \<Rightarrow> \<not> vs_is_empty V vs))
      in if membership_known \<and> \<not> current_or_adjacent_voter V m l then (m, [])
      else if \<not> (e > m_epoch m \<or> (e = m_epoch m \<and> m_leader m = None)) then (m, [])
      else
        let vote = (if e > m_epoch m then None else m_vote m);
            fetch_deadline = saturating_add_ms now (fetch_timeout_ms m);
            r = (if is_voter V m then Follower l fetch_deadline False
                 else Observer (Some l) fetch_deadline)
        in (m\<lparr>qstate := (qstate m)\<lparr>leader_epoch := e, leader_id := Some l, voted_key := vote\<rparr>,
              mrole := r\<rparr>,
            [PersistQuorumState, TransitionedTo (role_name r), SendFetch l,
             ResetTimer FetchTimer fetch_deadline]))"

definition checked_shr :: "u64 \<Rightarrow> nat \<Rightarrow> u64 option" where
  "checked_shr x k = (if k < 64 then Some (drop_bit k x) else None)"

definition checked_shl :: "u64 \<Rightarrow> nat \<Rightarrow> u64 option" where
  "checked_shl x k = (if k < 64 then Some (push_bit k x) else None)"

definition end_epoch_election_backoff_ms :: "successor_rank \<Rightarrow> u64 \<Rightarrow> u64" where
  "end_epoch_election_backoff_ms rank max_ms =
     (if sr_position rank = 0 then 0
      else if sr_position rank \<ge> sr_successors rank then max_ms
      else
        let base = (case checked_shr max_ms (unat (sr_successors rank - 1)) of
                      Some b \<Rightarrow> b | None \<Rightarrow> 0)
        in case checked_shl base (unat (sr_position rank - 1)) of
             None \<Rightarrow> max_ms
           | Some backoff \<Rightarrow> min backoff max_ms)"

section \<open>Elections (\<open>core/election.rs\<close>)\<close>

definition tally_reached_majority :: "('vs, 'vt) voter_ops \<Rightarrow> 'vs machine \<Rightarrow> bool" where
  "tally_reached_majority V m =
     (let tally = (\<lambda>granted. election_has_quorum (vs_len V (m_voters m))
                     (count_where (vs_contains V (m_voters m)) granted))
      in case mrole m of
        Prospective granted _ _ _ \<Rightarrow> tally granted
      | Candidate granted _ \<Rightarrow> tally granted
      | _ \<Rightarrow> False)"

definition promote_to_leader ::
    "('vs, 'vt) voter_ops \<Rightarrow> log_view \<Rightarrow> sim_instant \<Rightarrow> 'vs machine \<Rightarrow> 'vs step_result" where
  [machine_defs]: "promote_to_leader V log now m =
     (let replicas = fold (\<lambda>n. bt_insert n default_progress)
                       (filter (\<lambda>n. n \<noteq> me m) (vs_ids V (m_voters m))) [];
          r = Leader replicas {} 0 (end_offset log);
          m1 = m\<lparr>qstate := (qstate m)\<lparr>leader_id := Some (me m)\<rparr>, mrole := r\<rparr>
      in (m1, [AppendLeaderChange (m_epoch m), SendBeginQuorumEpoch (m_epoch m),
               PersistQuorumState, TransitionedTo (role_name r)] @
              (if runs_check_quorum V m1
               then [ResetTimer CheckQuorumTimer (check_quorum_deadline m1 now)] else [])))"

definition promote_to_candidate ::
    "('vs, 'vt) voter_ops \<Rightarrow> log_view \<Rightarrow> sim_instant \<Rightarrow> 'vs machine \<Rightarrow> 'vs step_result" where
  [machine_defs]: "promote_to_candidate V log now m =
     (let e = saturating_add (m_epoch m) 1;
          m0 = m\<lparr>qstate := (qstate m)\<lparr>leader_epoch := e, leader_id := None,
                    voted_key := Some \<lparr>rk_id = me m, rk_directory_id = 0\<rparr>\<rparr>\<rparr>;
          deadline = election_deadline m0 now;
          m1 = m0\<lparr>mrole := Candidate {me m} deadline\<rparr>;
          acts = [PersistQuorumState, TransitionedTo ''Candidate'', SendVoteRequest e False,
                  ResetTimer ElectionTimer deadline]
      in if tally_reached_majority V m1
         then let (m2, more) = promote_to_leader V log now m1 in (m2, acts @ more)
         else (m1, acts))"

definition start_election ::
    "('vs, 'vt) voter_ops \<Rightarrow> log_view \<Rightarrow> sim_instant \<Rightarrow> 'vs machine \<Rightarrow> 'vs step_result" where
  [machine_defs]: "start_election V log now m =
     (let already_abandoned = (case mrole m of Prospective _ _ _ a \<Rightarrow> a | _ \<Rightarrow> None);
          abandoned = (case m_leader m of Some l \<Rightarrow> Some l | None \<Rightarrow> already_abandoned);
          deadline = election_deadline m now;
          m1 = m\<lparr>qstate := (qstate m)\<lparr>leader_id := None\<rparr>,
                 mrole := Prospective {me m} {} deadline abandoned\<rparr>;
          acts = [TransitionedTo ''Prospective'', SendVoteRequest (m_epoch m) True,
                  ResetTimer ElectionTimer deadline]
      in if tally_reached_majority V m1
         then let (m2, more) = promote_to_candidate V log now m1 in (m2, acts @ more)
         else (m1, acts))"

definition handle_election_timeout ::
    "('vs, 'vt) voter_ops \<Rightarrow> log_view \<Rightarrow> sim_instant \<Rightarrow> 'vs machine \<Rightarrow> 'vs step_result" where
  [machine_defs]: "handle_election_timeout V log now m =
     (if \<not> is_voter V m then (m, [])
      else case mrole m of
        Prospective _ _ _ (Some l) \<Rightarrow>
          (let (m1, acts) = handle_begin_quorum_epoch V l (m_epoch m) now m
           in if acts \<noteq> [] then (m1, acts) else start_election V log now m1)
      | _ \<Rightarrow> start_election V log now m)"

definition record_pre_vote_rejection ::
    "('vs, 'vt) voter_ops \<Rightarrow> node_id \<Rightarrow> epoch \<Rightarrow> sim_instant \<Rightarrow> 'vs machine \<Rightarrow> 'vs step_result" where
  [machine_defs]: "record_pre_vote_rejection V from e now m =
     (if e \<noteq> m_epoch m \<or> \<not> vs_contains V (m_voters m) from then (m, [])
      else case mrole m of
        Prospective granted rejected d abandoned \<Rightarrow>
          (let granted' = granted - {from};
               rejected' = insert from rejected;
               m1 = m\<lparr>mrole := Prospective granted' rejected' d abandoned\<rparr>;
               granting = count_where (vs_contains V (m_voters m)) granted';
               refusing = count_where (vs_contains V (m_voters m)) rejected';
               unanswered = vs_len V (m_voters m) - (granting + refusing)
           in if granting + unanswered \<ge> majority V (qstate m) then (m1, [])
              else case abandoned of
                Some l \<Rightarrow> handle_begin_quorum_epoch V l e now m1
              | None \<Rightarrow> await_election (election_deadline m1 now) m1)
      | _ \<Rightarrow> (m, []))"

definition handle_vote_response ::
    "('vs, 'vt) voter_ops \<Rightarrow> log_view \<Rightarrow> node_id \<Rightarrow> epoch \<Rightarrow> bool \<Rightarrow> sim_instant \<Rightarrow> 'vs machine \<Rightarrow> 'vs step_result" where
  [machine_defs]: "handle_vote_response V log from e vote_granted now m =
     (if \<not> vote_granted \<and> e > m_epoch m
      then transition_to_unattached e (unattached_election_deadline m e now) m
      else if \<not> vote_granted then record_pre_vote_rejection V from e now m
      else
        let current_voter = vs_contains V (m_voters m) from
        in case mrole m of
          Prospective granted rejected d abandoned \<Rightarrow>
            if e = m_epoch m
            then let m1 = (if current_voter
                           then m\<lparr>mrole := Prospective (insert from granted) (rejected - {from}) d abandoned\<rparr>
                           else m)
                 in if tally_reached_majority V m1 then promote_to_candidate V log now m1 else (m1, [])
            else (m, [])
        | Candidate granted d \<Rightarrow>
            if e = m_epoch m
            then let m1 = (if current_voter then m\<lparr>mrole := Candidate (insert from granted) d\<rparr> else m)
                 in if tally_reached_majority V m1 then promote_to_leader V log now m1 else (m1, [])
            else (m, [])
        | _ \<Rightarrow> (m, []))"

text \<open>\<open>leadership.rs\<close>: the resigning leader's identity is not looked at.\<close>

definition handle_end_quorum_epoch ::
    "('vs, 'vt) voter_ops \<Rightarrow> log_view \<Rightarrow> node_id \<Rightarrow> epoch \<Rightarrow> successor_rank \<Rightarrow> sim_instant \<Rightarrow> 'vs machine \<Rightarrow> 'vs step_result" where
  [machine_defs]: "handle_end_quorum_epoch V log l e rank now m =
     (if e < m_epoch m then (m, [])
      else if \<not> is_voter V m then transition_to_unattached (m_epoch m) now m
      else
        let backoff_ms = end_epoch_election_backoff_ms rank (election_timeout_ms m)
        in if backoff_ms = 0 then start_election V log now m
           else await_election (saturating_add_ms now backoff_ms)
                  (m\<lparr>qstate := (qstate m)\<lparr>leader_id := None\<rparr>\<rparr>))"

section \<open>Serving and answering Fetch (\<open>core/replication.rs\<close>)\<close>

definition record_quorum_contact ::
    "('vs, 'vt) voter_ops \<Rightarrow> node_id \<Rightarrow> sim_instant \<Rightarrow> 'vs machine \<Rightarrow> 'vs machine \<times> action option" where
  [machine_defs]: "record_quorum_contact V from now m =
     (if \<not> runs_check_quorum V m \<or> from = me m \<or> \<not> vs_contains V (m_voters m) from
      then (m, None)
      else case mrole m of
        Leader replicas fetched hwm start \<Rightarrow>
          (let fetched' = insert from fetched
           in if card fetched' < check_quorum_reset_threshold V m
              then (m\<lparr>mrole := Leader replicas fetched' hwm start\<rparr>, None)
              else (m\<lparr>mrole := Leader replicas {} hwm start\<rparr>,
                    Some (ResetTimer CheckQuorumTimer (check_quorum_deadline m now))))
      | _ \<Rightarrow> (m, None))"

definition option_list :: "'a option \<Rightarrow> 'a list" where
  "option_list x = (case x of None \<Rightarrow> [] | Some a \<Rightarrow> [a])"

text \<open>\<open>None\<close>: the assertion that the watermark stays within the log fails.\<close>

definition leader_high_watermark ::
    "('vs, 'vt) voter_ops \<Rightarrow> int \<Rightarrow> 'vs machine \<Rightarrow> int option" where
  "leader_high_watermark V log_end m =
     (case mrole m of
        Leader replicas _ hwm start \<Rightarrow>
          (let offs = map (\<lambda>p. min (fetch_offset p) log_end) (bt_values replicas);
               new_hwm = recompute_high_watermark log_end offs (majority V (qstate m)) start
                           (min hwm log_end) (is_voter V m)
           in if new_hwm \<le> log_end then Some new_hwm else None)
      | _ \<Rightarrow> Some 0)"

definition handle_fetch ::
    "('vs, 'vt) voter_ops \<Rightarrow> log_view \<Rightarrow> node_id \<Rightarrow> epoch \<Rightarrow> int \<Rightarrow> sim_instant \<Rightarrow> 'vs machine
       \<Rightarrow> 'vs step_result option" where
  [machine_defs]: "handle_fetch V log from fetch_epoch off now m =
     (if \<not> is_leader (mrole m) then Some (m, [])
      else
        let (m1, contact) = record_quorum_contact V from now m;
            acts = option_list contact;
            found = end_offset_for_epoch log fetch_epoch
        in if off > 0 \<and> (lom_epoch found \<noteq> fetch_epoch \<or> lom_offset found < off)
           then Some (m1, acts @ [ReplyDivergingEpoch found])
           else
             let m2 = (case mrole m1 of
                         Leader replicas fetched hwm start \<Rightarrow>
                           m1\<lparr>mrole := Leader (bt_modify from (record_fetch now off (end_offset log)) replicas)
                                          fetched hwm start\<rparr>
                       | _ \<Rightarrow> m1)
             in case leader_high_watermark V (end_offset log) m2 of
                  None \<Rightarrow> None
                | Some new_hwm \<Rightarrow>
                    (case mrole m2 of
                       Leader replicas fetched hwm start \<Rightarrow>
                         if new_hwm > hwm
                         then Some (m2\<lparr>mrole := Leader replicas fetched new_hwm start\<rparr>,
                                    acts @ [AdvanceHighWatermark new_hwm])
                         else Some (m2, acts)
                     | _ \<Rightarrow> Some (m2, acts)))"

definition handle_fetch_snapshot ::
    "('vs, 'vt) voter_ops \<Rightarrow> node_id \<Rightarrow> sim_instant \<Rightarrow> 'vs machine \<Rightarrow> 'vs step_result" where
  [machine_defs]: "handle_fetch_snapshot V from now m =
     (if \<not> is_leader (mrole m) then (m, [])
      else let (m1, contact) = record_quorum_contact V from now m in (m1, option_list contact))"

definition adopt_replica_progress ::
    "('vs, 'vt) voter_ops \<Rightarrow> node_id \<Rightarrow> replica_progress \<Rightarrow> 'vs machine \<Rightarrow> 'vs machine" where
  "adopt_replica_progress V n progress m =
     (if n \<noteq> me m \<and> vs_contains V (m_voters m) n
      then case mrole m of
          Leader replicas fetched hwm start \<Rightarrow>
            m\<lparr>mrole := Leader (bt_insert n progress replicas) fetched hwm start\<rparr>
        | _ \<Rightarrow> m
      else m)"

text \<open>The comparator: the larger offset first, then the smaller identifier.\<close>

definition successor_before :: "int \<times> node_id \<Rightarrow> int \<times> node_id \<Rightarrow> bool" where
  "successor_before l r \<longleftrightarrow> fst r < fst l \<or> (fst r = fst l \<and> snd l \<le> snd r)"

definition preferred_successors :: "('vs, 'vt) voter_ops \<Rightarrow> 'vs machine \<Rightarrow> node_id list" where
  "preferred_successors V m =
     (case mrole m of
        Leader replicas _ _ _ \<Rightarrow>
          map snd (sort_by successor_before
            (map (\<lambda>n. (case bt_get replicas n of None \<Rightarrow> - 1 | Some p \<Rightarrow> fetch_offset p, n))
              (filter (\<lambda>n. n \<noteq> me m) (vs_ids V (m_voters m)))))
      | _ \<Rightarrow> [])"

definition transition_to_resigned ::
    "('vs, 'vt) voter_ops \<Rightarrow> sim_instant \<Rightarrow> 'vs machine \<Rightarrow> 'vs step_result" where
  [machine_defs]: "transition_to_resigned V now m =
     (let succs = preferred_successors V m;
          m0 = m\<lparr>qstate := (qstate m)\<lparr>leader_id := None\<rparr>\<rparr>;
          fetch_deadline = saturating_add_ms now (fetch_timeout_ms m);
          (r, timer) =
            (if is_voter V m0
             then (Resigned, ResetTimer ElectionTimer (election_deadline m0 now))
             else (Observer None fetch_deadline, ResetTimer FetchTimer fetch_deadline))
      in (m0\<lparr>mrole := r\<rparr>,
          [SendEndQuorumEpoch (m_epoch m) succs, PersistQuorumState,
           TransitionedTo (role_name r), timer]))"

definition handle_check_quorum_timeout ::
    "('vs, 'vt) voter_ops \<Rightarrow> sim_instant \<Rightarrow> 'vs machine \<Rightarrow> 'vs step_result" where
  [machine_defs]: "handle_check_quorum_timeout V now m =
     (if \<not> is_leader (mrole m) \<or> \<not> runs_check_quorum V m then (m, [])
      else transition_to_resigned V now m)"

definition handle_fetch_response ::
    "log_view \<Rightarrow> node_id \<Rightarrow> epoch \<Rightarrow> log_offset_metadata option \<Rightarrow> sim_instant \<Rightarrow> 'vs machine \<Rightarrow> 'vs step_result" where
  [machine_defs]: "handle_fetch_response log l e diverging now m =
     (let following = (case mrole m of
                         Follower l' _ _ \<Rightarrow> l' = l
                       | Observer (Some l') _ \<Rightarrow> l' = l
                       | _ \<Rightarrow> False)
      in if \<not> following \<or> e \<noteq> m_epoch m then (m, [])
         else
           let m1 = (case mrole m of Follower l' d _ \<Rightarrow> m\<lparr>mrole := Follower l' d True\<rparr> | _ \<Rightarrow> m);
               truncation = (case diverging of
                   None \<Rightarrow> []
                 | Some point \<Rightarrow> [TruncateTo \<lparr>lom_offset = follower_truncation_offset point log,
                                              lom_epoch = lom_epoch point\<rparr>]);
               fetch_deadline = saturating_add_ms now (fetch_timeout_ms m)
           in (m1, truncation @ [SendFetch l, ResetTimer FetchTimer fetch_deadline]))"

definition become_discovering_observer :: "sim_instant \<Rightarrow> 'vs machine \<Rightarrow> 'vs step_result" where
  [machine_defs]: "become_discovering_observer now m =
     (let fetch_deadline = saturating_add_ms now (fetch_timeout_ms m);
          r = Observer None fetch_deadline
      in (m\<lparr>qstate := (qstate m)\<lparr>leader_id := None\<rparr>, mrole := r\<rparr>,
          [PersistQuorumState, TransitionedTo (role_name r), ResetTimer FetchTimer fetch_deadline]))"

definition handle_fetch_timeout ::
    "('vs, 'vt) voter_ops \<Rightarrow> log_view \<Rightarrow> sim_instant \<Rightarrow> 'vs machine \<Rightarrow> 'vs step_result" where
  [machine_defs]: "handle_fetch_timeout V log now m =
     (if is_voter V m then start_election V log now m else become_discovering_observer now m)"

definition handle_leaderless_epoch ::
    "('vs, 'vt) voter_ops \<Rightarrow> epoch \<Rightarrow> sim_instant \<Rightarrow> 'vs machine \<Rightarrow> 'vs step_result" where
  [machine_defs]: "handle_leaderless_epoch V e now m =
     (if e \<le> m_epoch m then (m, [])
      else if is_voter V m
      then transition_to_unattached e (unattached_election_deadline m e now) m
      else become_discovering_observer now
             (m\<lparr>qstate := (qstate m)\<lparr>leader_epoch := e, voted_key := None\<rparr>\<rparr>))"

section \<open>Dispatch (\<open>core.rs\<close>, \<open>on_event\<close>)\<close>

fun on_event ::
    "('vs, 'vt) voter_ops \<Rightarrow> event \<Rightarrow> log_view \<Rightarrow> sim_instant \<Rightarrow> 'vs machine \<Rightarrow> 'vs step_result option" where
  "on_event V (ReceiveVoteRequest req) log now m = Some (handle_vote_request V req log now m)"
| "on_event V ElectionTimeout log now m = Some (handle_election_timeout V log now m)"
| "on_event V CheckQuorumTimeout log now m = Some (handle_check_quorum_timeout V now m)"
| "on_event V (ReceiveVoteResponse from e granted) log now m =
     Some (handle_vote_response V log from e granted now m)"
| "on_event V (ReceiveBeginQuorumEpoch l e) log now m = Some (handle_begin_quorum_epoch V l e now m)"
| "on_event V (ReceiveEndQuorumEpoch l e rank) log now m =
     Some (handle_end_quorum_epoch V log l e rank now m)"
| "on_event V (ReceiveFetch from e off) log now m = handle_fetch V log from e off now m"
| "on_event V (ReceiveFetchSnapshot from) log now m = Some (handle_fetch_snapshot V from now m)"
| "on_event V (ReceiveFetchResponse l e diverging) log now m =
     Some (handle_fetch_response log l e diverging now m)"
| "on_event V FetchTimeout log now m = Some (handle_fetch_timeout V log now m)"
| "on_event V (ReceiveLeaderlessEpoch e) log now m = Some (handle_leaderless_epoch V e now m)"

section \<open>Voter records (\<open>core/membership.rs\<close>)\<close>

definition apply_voter_set ::
    "('vs, 'vt) voter_ops \<Rightarrow> 'vs \<Rightarrow> sim_instant \<Rightarrow> 'vs machine \<Rightarrow> 'vs step_result" where
  "apply_voter_set V vs now m =
     (let was_voter = is_voter V m;
          lead = m_leader m;
          m0 = (if m_voters m \<noteq> vs then m\<lparr>adjacent_voters := Some (m_voters m)\<rparr> else m);
          m1 = m0\<lparr>qstate := (qstate m0)\<lparr>voters := vs\<rparr>\<rparr>;
          fetch_deadline = saturating_add_ms now (fetch_timeout_ms m)
      in case mrole m1 of
        Leader replicas fetched hwm start \<Rightarrow>
          (let kept = bt_retain (\<lambda>n. vs_contains V vs n \<and> n \<noteq> me m) replicas;
               replicas' = fold (\<lambda>n. bt_or_insert n default_progress)
                             (filter (\<lambda>n. n \<noteq> me m) (vs_ids V vs)) kept;
               m2 = m1\<lparr>mrole := Leader replicas' {} hwm start\<rparr>
           in (m2, if runs_check_quorum V m2
                   then [ResetTimer CheckQuorumTimer (check_quorum_deadline m2 now)] else []))
      | _ \<Rightarrow>
          (case (was_voter, is_voter V m1) of
             (True, False) \<Rightarrow>
               (let r = Observer lead fetch_deadline
                in (m1\<lparr>mrole := r\<rparr>,
                    [TransitionedTo (role_name r)] @
                    (case lead of None \<Rightarrow> []
                     | Some l \<Rightarrow> [SendFetch l, ResetTimer FetchTimer fetch_deadline])))
           | (False, True) \<Rightarrow>
               (case lead of
                  Some l \<Rightarrow>
                    (let r = Follower l fetch_deadline False
                     in (m1\<lparr>mrole := r\<rparr>,
                         [TransitionedTo (role_name r), SendFetch l, ResetTimer FetchTimer fetch_deadline]))
                | None \<Rightarrow>
                    (let d = election_deadline m1 now; r = Unattached d
                     in (m1\<lparr>mrole := r\<rparr>,
                         [TransitionedTo (role_name r), ResetTimer ElectionTimer d])))
           | _ \<Rightarrow> (m1, [])))"

definition set_kraft_version :: "u16 \<Rightarrow> 'vs machine \<Rightarrow> 'vs machine" where
  "set_kraft_version version m = m\<lparr>qstate := (qstate m)\<lparr>kraft_version := version\<rparr>\<rparr>"

definition commit_voter_set :: "'vs machine \<Rightarrow> 'vs machine" where
  "commit_voter_set m = m\<lparr>adjacent_voters := None\<rparr>"

definition finish_local_leader_removal ::
    "('vs, 'vt) voter_ops \<Rightarrow> sim_instant \<Rightarrow> 'vs machine \<Rightarrow> 'vs step_result" where
  "finish_local_leader_removal V now m =
     (if is_voter V m \<or> \<not> is_leader (mrole m) then (m, [])
      else
        let succs = preferred_successors V m;
            fetch_deadline = saturating_add_ms now (fetch_timeout_ms m);
            r = Observer None fetch_deadline
        in (m\<lparr>qstate := (qstate m)\<lparr>leader_id := None\<rparr>, mrole := r\<rparr>,
            [SendEndQuorumEpoch (m_epoch m) succs, PersistQuorumState,
             TransitionedTo (role_name r), ResetTimer FetchTimer fetch_deadline]))"

section \<open>Graceful shutdown (\<open>core/shutdown.rs\<close>)\<close>

definition graceful_shutdown_complete :: "('vs, 'vt) voter_ops \<Rightarrow> 'vs machine \<Rightarrow> bool" where
  "graceful_shutdown_complete V m \<longleftrightarrow>
     \<not> is_voter V m
     \<or> vs_len V (m_voters m) = 1
     \<or> (case known_leader m of None \<Rightarrow> False | Some l \<Rightarrow> l \<noteq> me m)"

definition resign_for_shutdown ::
    "('vs, 'vt) voter_ops \<Rightarrow> sim_instant \<Rightarrow> 'vs machine \<Rightarrow> 'vs step_result" where
  "resign_for_shutdown V now m =
     (if is_leader (mrole m) \<and> \<not> graceful_shutdown_complete V m
      then transition_to_resigned V now m else (m, []))"

end
