(* ===== verification/Simulation_Support.thy ===== *)
theory Simulation_Support
  imports Quorum_Machine
begin

text \<open>
  \<open>crates/kraft-core/src/simulation_support.rs\<close>: the mechanics the simulation
  harnesses share. Its static voter set is the instance on which the voter-set
  contract is interpreted; \<open>action_messages\<close> is the translation of actions into
  the events of other replicas.
\<close>

section \<open>Partitions and quiescence\<close>

definition partition_node ::
    "('msg \<Rightarrow> 'node \<Rightarrow> bool) \<Rightarrow> 'node set \<Rightarrow> 'msg list \<Rightarrow> 'node \<Rightarrow> 'node set \<times> 'msg list" where
  "partition_node touches partitioned queue n =
     (insert n partitioned, filter (\<lambda>msg. \<not> touches msg n) queue)"

record 'f stable_fingerprint =
  sf_previous :: 'f
  sf_unchanged :: u32

definition new_fingerprint :: "'f \<Rightarrow> 'f stable_fingerprint" where
  "new_fingerprint f = \<lparr>sf_previous = f, sf_unchanged = 0\<rparr>"

definition observe :: "'f \<Rightarrow> 'f stable_fingerprint \<Rightarrow> 'f stable_fingerprint \<times> bool" where
  "observe f s =
     (let s' = (if f = sf_previous s then s\<lparr>sf_unchanged := saturating_add (sf_unchanged s) 1\<rparr>
                else s\<lparr>sf_unchanged := 0, sf_previous := f\<rparr>)
      in (s', sf_unchanged s' \<ge> 2))"

section \<open>Static voters\<close>

text \<open>
  \<open>voter_set(ids)\<close>: a voter set is the list of identifiers it was built from, a
  voter is its directory, which is nil. Identifiers are kept once, in order.
\<close>

definition simulation_voters :: "(node_id list, uuid) voter_ops" where
  "simulation_voters =
     \<lparr>vs_contains = (\<lambda>ids n. n \<in> set ids),
      vs_get = (\<lambda>ids n. if n \<in> set ids then Some 0 else None),
      vs_ids = (\<lambda>ids. sort (remdups ids)),
      vs_len = (\<lambda>ids. length (remdups ids)),
      vs_is_empty = (\<lambda>ids. ids = []),
      vt_directory_id = (\<lambda>directory. directory)\<rparr>"

interpretation sim_voters: voter_contract simulation_voters
  by unfold_locales (auto simp: simulation_voters_def)

section \<open>Messages\<close>

definition message_event :: "node_id \<Rightarrow> action \<Rightarrow> log_end \<Rightarrow> node_id \<Rightarrow> event option" where
  "message_event source a le peer =
     (case a of
        SendVoteRequest e pre_vote \<Rightarrow>
          Some (ReceiveVoteRequest \<lparr>vr_from = source, vr_cluster_id = None, vr_voter_id = peer,
            vr_voter_directory_id = 0, vr_candidate_epoch = e, vr_candidate = source,
            vr_candidate_directory_id = 0, vr_candidate_log_end = le, vr_pre_vote = pre_vote\<rparr>)
      | SendBeginQuorumEpoch e \<Rightarrow> Some (ReceiveBeginQuorumEpoch source e)
      | SendEndQuorumEpoch e _ \<Rightarrow>
          Some (ReceiveEndQuorumEpoch source e \<lparr>sr_position = 0, sr_successors = 0\<rparr>)
      | _ \<Rightarrow> None)"

definition action_messages ::
    "node_id \<Rightarrow> action \<Rightarrow> node_id list \<Rightarrow> node_id list \<Rightarrow> log_end \<Rightarrow> (node_id \<times> event) list option" where
  "action_messages source a voter_ids peers le =
     (case a of
        ReplyVote to e granted \<Rightarrow> Some [(to, ReceiveVoteResponse source e granted)]
      | _ \<Rightarrow>
          (let recipients =
             (case a of
                SendVoteRequest _ _ \<Rightarrow> Some voter_ids
              | SendBeginQuorumEpoch _ \<Rightarrow> Some peers
              | SendEndQuorumEpoch _ _ \<Rightarrow> Some peers
              | _ \<Rightarrow> None)
           in map_option (\<lambda>rs. List.map_filter
                  (\<lambda>peer. map_option (Pair peer) (message_event source a le peer))
                  (filter (\<lambda>peer. peer \<noteq> source) rs)) recipients))"

definition diverging_of :: "action list \<Rightarrow> log_offset_metadata option" where
  "diverging_of acts =
     (case filter (\<lambda>a. case a of ReplyDivergingEpoch _ \<Rightarrow> True | _ \<Rightarrow> False) acts of
        ReplyDivergingEpoch point # _ \<Rightarrow> Some point
      | _ \<Rightarrow> None)"

definition fetch_response :: "node_id \<Rightarrow> epoch \<Rightarrow> action list \<Rightarrow> int \<Rightarrow> int \<Rightarrow> event option" where
  "fetch_response leader e acts leader_end follower_end =
     (let diverging = diverging_of acts
      in if diverging \<noteq> None \<or> follower_end < leader_end
         then Some (ReceiveFetchResponse leader e diverging) else None)"

section \<open>Timers\<close>

datatype simulation_timer = SimElection | SimFetch | SimHeartbeat | SimCheckQuorum

definition timer_order :: "simulation_timer list" where
  "timer_order = [SimElection, SimFetch, SimHeartbeat, SimCheckQuorum]"

definition earlier_timer ::
    "(sim_instant \<times> node_id \<times> simulation_timer) option \<Rightarrow> node_id \<Rightarrow> sim_instant option \<times> simulation_timer
       \<Rightarrow> (sim_instant \<times> node_id \<times> simulation_timer) option" where
  "earlier_timer best n entry =
     (case entry of
        (Some deadline, kind) \<Rightarrow>
          (case best of
             None \<Rightarrow> Some (deadline, n, kind)
           | Some (current, _, _) \<Rightarrow> if deadline < current then Some (deadline, n, kind) else best)
      | (None, _) \<Rightarrow> best)"

definition earliest_timer ::
    "(node_id \<times> sim_instant option list) list \<Rightarrow> (sim_instant \<times> node_id \<times> simulation_timer) option" where
  "earliest_timer ns =
     fold (\<lambda>(n, deadlines) best. fold (\<lambda>entry b. earlier_timer b n entry) (zip deadlines timer_order) best)
       ns None"

record timers =
  tm_election :: "sim_instant option"
  tm_fetch :: "sim_instant option"
  tm_heartbeat :: "sim_instant option"
  tm_quorum :: "sim_instant option"

definition clear_timer :: "simulation_timer \<Rightarrow> timers \<Rightarrow> timers" where
  "clear_timer kind t =
     (case kind of
        SimElection \<Rightarrow> t\<lparr>tm_election := None\<rparr>
      | SimFetch \<Rightarrow> t\<lparr>tm_fetch := None\<rparr>
      | SimHeartbeat \<Rightarrow> t\<lparr>tm_heartbeat := None\<rparr>
      | SimCheckQuorum \<Rightarrow> t\<lparr>tm_quorum := None\<rparr>)"

definition reconcile_timers :: "role \<Rightarrow> sim_instant \<Rightarrow> timers \<Rightarrow> timers" where
  "reconcile_timers r heartbeat_deadline t =
     (case r of
        Leader _ _ _ _ \<Rightarrow>
          t\<lparr>tm_election := None, tm_fetch := None,
            tm_heartbeat := Some (case tm_heartbeat t of None \<Rightarrow> heartbeat_deadline | Some d \<Rightarrow> d)\<rparr>
      | Follower _ _ _ \<Rightarrow> t\<lparr>tm_election := None, tm_heartbeat := None, tm_quorum := None\<rparr>
      | Observer _ _ \<Rightarrow> t\<lparr>tm_election := None, tm_heartbeat := None, tm_quorum := None\<rparr>
      | _ \<Rightarrow> t\<lparr>tm_fetch := None, tm_heartbeat := None, tm_quorum := None\<rparr>)"

definition reachable_leader ::
    "role \<Rightarrow> node_id \<Rightarrow> node_id set \<Rightarrow> (node_id \<Rightarrow> bool) \<Rightarrow> node_id option" where
  "reachable_leader r follower partitioned leads =
     (let followed = (case r of Follower l _ _ \<Rightarrow> Some l | Observer (Some l) _ \<Rightarrow> Some l | _ \<Rightarrow> None)
      in case followed of
           None \<Rightarrow> None
         | Some l \<Rightarrow> if follower \<notin> partitioned \<and> l \<notin> partitioned \<and> leads l then Some l else None)"

section \<open>Fingerprints and the epoch log\<close>

record node_fingerprint =
  nf_node :: node_id
  nf_role :: string
  nf_epoch :: epoch
  nf_records :: nat
  nf_high_watermark :: int

definition fingerprint :: "node_id \<Rightarrow> 'vs machine \<Rightarrow> nat \<Rightarrow> int \<Rightarrow> node_fingerprint" where
  "fingerprint n m records hwm =
     \<lparr>nf_node = n, nf_role = role_name (mrole m), nf_epoch = m_epoch m, nf_records = records,
      nf_high_watermark = (case mrole m of Leader _ _ high_watermark _ \<Rightarrow> high_watermark | _ \<Rightarrow> hwm)\<rparr>"

definition append_epochs :: "epoch list \<Rightarrow> epoch \<Rightarrow> nat \<Rightarrow> epoch list" where
  "append_epochs epochs e k = epochs @ replicate k e"

definition truncate_epochs :: "epoch list \<Rightarrow> int \<Rightarrow> epoch list" where
  "truncate_epochs epochs off = take (nat (max off 0)) epochs"

definition epochs_to_replicate :: "nat \<Rightarrow> epoch list \<Rightarrow> epoch list" where
  "epochs_to_replicate follower_len leader_epochs =
     (if follower_len \<le> length leader_epochs then drop follower_len leader_epochs else [])"

section \<open>What the helpers guarantee\<close>

definition armed :: "(node_id \<times> sim_instant option list) list \<Rightarrow> (sim_instant \<times> node_id \<times> simulation_timer) set" where
  "armed ns = {(d, n, k). \<exists>ds. (n, ds) \<in> set ns \<and> (Some d, k) \<in> set (zip ds timer_order)}"

text \<open>\<open>summit S b\<close>: \<open>b\<close> is a least entry of \<open>S\<close>, or nothing is armed.\<close>

definition summit :: "(sim_instant \<times> node_id \<times> simulation_timer) set
    \<Rightarrow> (sim_instant \<times> node_id \<times> simulation_timer) option \<Rightarrow> bool" where
  "summit S b \<longleftrightarrow> (case b of None \<Rightarrow> S = {} | Some t \<Rightarrow> t \<in> S \<and> (\<forall>u \<in> S. fst t \<le> fst u))"

lemma summit_earlier:
  "summit S b \<Longrightarrow> summit (S \<union> (case dl of None \<Rightarrow> {} | Some d \<Rightarrow> {(d, n, k)})) (earlier_timer b n (dl, k))"
  by (cases b; cases dl) (fastforce simp: summit_def earlier_timer_def not_less)+

lemma summit_fold_entries:
  "summit S b \<Longrightarrow>
    summit (S \<union> {(d, n, k) | d k. (Some d, k) \<in> set es}) (fold (\<lambda>entry b. earlier_timer b n entry) es b)"
proof (induction es arbitrary: S b)
  case (Cons en es)
  obtain dl k where en: "en = (dl, k)" by (cases en)
  let ?S = "S \<union> (case dl of None \<Rightarrow> {} | Some d \<Rightarrow> {(d, n, k)})"
  have "?S \<union> {(d, n, k) | d k. (Some d, k) \<in> set es} = S \<union> {(d, n, k) | d k. (Some d, k) \<in> set (en # es)}"
    by (cases dl) (auto simp: en)
  with Cons.IH[OF summit_earlier[OF Cons.prems, where dl = dl and n = n and k = k]] show ?case by (simp add: en)
qed simp

lemma summit_fold_nodes:
  "summit S b \<Longrightarrow> summit (S \<union> armed ns)
     (fold (\<lambda>(n, deadlines) best. fold (\<lambda>entry b. earlier_timer b n entry) (zip deadlines timer_order) best) ns b)"
proof (induction ns arbitrary: S b)
  case (Cons nd ns)
  obtain n ds where nd: "nd = (n, ds)" by (cases nd)
  let ?S = "S \<union> {(d, n, k) | d k. (Some d, k) \<in> set (zip ds timer_order)}"
  have "?S \<union> armed ns = S \<union> armed (nd # ns)" by (auto simp: armed_def nd)
  with Cons.IH[OF summit_fold_entries[OF Cons.prems, of n "zip ds timer_order"]] show ?case by (simp add: nd)
next
  case Nil
  moreover have "armed [] = {}" by (auto simp: armed_def)
  ultimately show ?case by simp
qed

text \<open>
  The earliest timer is an armed timer no other armed timer precedes, and there
  is none exactly when nothing is armed.
\<close>

theorem earliest_timer_least: "summit (armed ns) (earliest_timer ns)"
  using summit_fold_nodes[of "{}" None ns] by (simp add: earliest_timer_def summit_def)

text \<open>
  A follower whose log is a prefix of the leader's holds the leader's log after
  it appended the suffix the leader hands out, and a follower as long as the
  leader or longer gets nothing.
\<close>

theorem epochs_to_replicate_completes:
  assumes "take (length follower) leader = follower"
  shows "follower @ epochs_to_replicate (length follower) leader = leader"
  using assms append_take_drop_id[of "length follower" leader]
  by (auto simp: epochs_to_replicate_def)

theorem epochs_to_replicate_completes_witness:
  "[1, 1] @ epochs_to_replicate (length [1, 1 :: epoch]) [1, 1, 2] = [1, 1, 2]"
  by (rule epochs_to_replicate_completes) simp

end
