(* ===== verification/Quorum_Discipline.thy ===== *)
theory Quorum_Discipline
  imports Simulation_Support
begin

text \<open>
  What one event may do to the vote, the epoch and the messages of a replica. Each
  handler has one lemma per fact; \<open>on_event\<close> collects them. The facts are the
  frame (\<open>same_config\<close>), the monotone epoch, the single vote of an epoch, and the
  write-ahead rule: a changed epoch or vote is persisted, and before it is
  persisted no granted vote leaves the replica.
\<close>

section \<open>The frame: what an event never changes\<close>

definition same_config :: "'vs machine \<Rightarrow> 'vs machine \<Rightarrow> bool" where
  "same_config m m' \<longleftrightarrow>
     me m' = me m \<and> m_voters m' = m_voters m \<and> adjacent_voters m' = adjacent_voters m
     \<and> kraft_version (qstate m') = kraft_version (qstate m)
     \<and> cluster_id (qstate m') = cluster_id (qstate m)
     \<and> election_timeout_ms m' = election_timeout_ms m \<and> fetch_timeout_ms m' = fetch_timeout_ms m"

lemma same_config_refl [simp]: "same_config m m"
  by (simp add: same_config_def)

lemma same_config_trans: "same_config m m1 \<Longrightarrow> same_config m1 m2 \<Longrightarrow> same_config m m2"
  by (simp add: same_config_def)

lemma same_config_voter: "same_config m m' \<Longrightarrow> is_voter V m' = is_voter V m"
  by (simp add: same_config_def is_voter_def)

lemmas handler_splits = if_splits option.splits role.splits prod.splits
  vote_admission_decision.splits

lemma same_config_promote_to_leader [step_frame]:
  "same_config m (fst (promote_to_leader V log now m))"
  by (simp add: promote_to_leader_def same_config_def Let_def)

lemma same_config_promote_to_candidate [step_frame]:
  "same_config m (fst (promote_to_candidate V log now m))"
  by (simp add: promote_to_candidate_def promote_to_leader_def same_config_def Let_def)

lemma same_config_start_election [step_frame]:
  "same_config m (fst (start_election V log now m))"
  by (simp add: start_election_def promote_to_candidate_def promote_to_leader_def same_config_def Let_def)

lemma same_config_begin [step_frame]:
  "same_config m (fst (handle_begin_quorum_epoch V l e now m))"
  by (simp add: handle_begin_quorum_epoch_def same_config_def Let_def)

lemma same_config_unattached [step_frame]:
  "same_config m (fst (transition_to_unattached e d m))"
  by (simp add: transition_to_unattached_def same_config_def)

lemma same_config_await [step_frame]: "same_config m (fst (await_election d m))"
  by (simp add: await_election_def same_config_def Let_def)

text \<open>An announcement that is refused leaves the machine as it was.\<close>

lemma begin_refused:
  "snd (handle_begin_quorum_epoch V l e now m) = [] \<Longrightarrow> fst (handle_begin_quorum_epoch V l e now m) = m"
  by (auto simp: handle_begin_quorum_epoch_def Let_def split: if_splits)

lemma handle_election_timeout_cases:
  obtains (observer) "\<not> is_voter V m" "handle_election_timeout V log now m = (m, [])"
  | (follow) l where "is_voter V m"
      "handle_election_timeout V log now m = handle_begin_quorum_epoch V l (m_epoch m) now m"
  | (elect) "is_voter V m" "handle_election_timeout V log now m = start_election V log now m"
proof (cases "is_voter V m")
  case False
  then show ?thesis using observer by (simp add: handle_election_timeout_def)
next
  case True
  show ?thesis
  proof (cases "\<exists>g r d l. mrole m = Prospective g r d (Some l)")
    case True
    then obtain g r d l where r: "mrole m = Prospective g r d (Some l)" by blast
    let ?b = "handle_begin_quorum_epoch V l (m_epoch m) now m"
    have b: "?b = (fst ?b, snd ?b)" by simp
    show ?thesis
    proof (cases "snd ?b = []")
      case True
      then have "fst ?b = m" by (rule begin_refused)
      with True r \<open>is_voter V m\<close> show ?thesis
        by (intro elect) (auto simp: handle_election_timeout_def Let_def case_prod_beta)
    next
      case False
      with r \<open>is_voter V m\<close> show ?thesis
        by (intro follow[of l]) (auto simp: handle_election_timeout_def Let_def case_prod_beta)
    qed
  next
    case False
    with \<open>is_voter V m\<close> show ?thesis
      by (intro elect) (auto simp: handle_election_timeout_def split: role.splits option.splits)
  qed
qed

lemma same_config_election_timeout [step_frame]:
  "same_config m (fst (handle_election_timeout V log now m))"
  by (rule handle_election_timeout_cases[of V m log now]) (simp_all add: step_frame)

lemma same_config_rejection [step_frame]:
  "same_config m (fst (record_pre_vote_rejection V from e now m))"
  by (auto simp: record_pre_vote_rejection_def handle_begin_quorum_epoch_def await_election_def
      same_config_def Let_def split: role.splits option.splits)

lemma same_config_vote_response [step_frame]:
  "same_config m (fst (handle_vote_response V log from e g now m))"
  by (auto simp: handle_vote_response_def promote_to_candidate_def promote_to_leader_def
      transition_to_unattached_def same_config_def Let_def
      same_config_rejection[unfolded same_config_def] split: role.splits)

lemma same_config_end_quorum [step_frame]:
  "same_config m (fst (handle_end_quorum_epoch V log l e rank now m))"
  using same_config_start_election
  by (auto simp: handle_end_quorum_epoch_def Let_def step_frame)
     (auto simp: await_election_def same_config_def Let_def)

lemma same_config_vote_request [step_frame]:
  "same_config m (fst (handle_vote_request V req log now m))"
  by (auto simp: handle_vote_request_def advance_epoch_for_vote_def transition_to_unattached_def
      same_config_def Let_def split: vote_admission_decision.splits prod.splits)

lemma same_config_contact [step_frame]:
  "same_config m (fst (record_quorum_contact V from now m))"
  by (auto simp: record_quorum_contact_def same_config_def Let_def split: role.splits)

lemma same_config_resigned [step_frame]:
  "same_config m (fst (transition_to_resigned V now m))"
  by (auto simp: transition_to_resigned_def same_config_def Let_def)

lemma same_config_fetch_response [step_frame]:
  "same_config m (fst (handle_fetch_response log l e dv now m))"
  by (auto simp: handle_fetch_response_def same_config_def Let_def split: role.splits option.splits)

lemma same_config_discovering [step_frame]:
  "same_config m (fst (become_discovering_observer now m))"
  by (auto simp: become_discovering_observer_def same_config_def Let_def)

lemma same_config_fetch [step_frame]:
  "handle_fetch V log from e off now m = Some (m', acts) \<Longrightarrow> same_config m m'"
  using same_config_contact[of m V "from" now]
  by (auto simp: handle_fetch_def Let_def same_config_def split: prod.splits role.splits option.splits if_splits)

lemma same_config_fetch_snapshot [step_frame]:
  "same_config m (fst (handle_fetch_snapshot V from now m))"
  using same_config_contact[of m V "from" now]
  by (auto simp: handle_fetch_snapshot_def split: prod.splits)

lemma same_config_check_quorum [step_frame]:
  "same_config m (fst (handle_check_quorum_timeout V now m))"
  by (simp add: handle_check_quorum_timeout_def step_frame)

lemma same_config_fetch_timeout [step_frame]:
  "same_config m (fst (handle_fetch_timeout V log now m))"
  by (simp add: handle_fetch_timeout_def step_frame)

lemma same_config_leaderless [step_frame]:
  "same_config m (fst (handle_leaderless_epoch V e now m))"
  by (auto simp: handle_leaderless_epoch_def transition_to_unattached_def
      become_discovering_observer_def same_config_def Let_def)

text \<open>The handlers that cannot panic, as one function: everything but \<open>handle_fetch\<close>.\<close>

lemma on_event_cases:
  assumes "on_event V ev log now m = Some r"
  obtains (fetch) n e off where "ev = ReceiveFetch n e off" "handle_fetch V log n e off now m = Some r"
  | (vote_request) req where "ev = ReceiveVoteRequest req" "r = handle_vote_request V req log now m"
  | (election) "ev = ElectionTimeout" "r = handle_election_timeout V log now m"
  | (check_quorum) "ev = CheckQuorumTimeout" "r = handle_check_quorum_timeout V now m"
  | (vote_response) n e g where "ev = ReceiveVoteResponse n e g" "r = handle_vote_response V log n e g now m"
  | (begin_epoch) l e where "ev = ReceiveBeginQuorumEpoch l e" "r = handle_begin_quorum_epoch V l e now m"
  | (end_epoch) l e k where "ev = ReceiveEndQuorumEpoch l e k" "r = handle_end_quorum_epoch V log l e k now m"
  | (snapshot) n where "ev = ReceiveFetchSnapshot n" "r = handle_fetch_snapshot V n now m"
  | (fetch_response) l e dv where "ev = ReceiveFetchResponse l e dv" "r = handle_fetch_response log l e dv now m"
  | (fetch_timeout) "ev = FetchTimeout" "r = handle_fetch_timeout V log now m"
  | (leaderless) e where "ev = ReceiveLeaderlessEpoch e" "r = handle_leaderless_epoch V e now m"
  using assms by (cases ev) simp_all

lemma on_event_same_config:
  assumes "on_event V ev log now m = Some r"
  shows "same_config m (fst r)"
  using assms
  by (cases rule: on_event_cases) (auto intro: step_frame same_config_fetch[of V log _ _ _ now m _ "snd r"])

section \<open>Epochs, votes and the write-ahead rule\<close>

abbreviation m_vote_id :: "'vs machine \<Rightarrow> node_id option" where
  "m_vote_id m \<equiv> map_option rk_id (m_vote m)"

text \<open>
  At level 0 the directory of a voter is not compared, so a repeated grant may
  record another directory of the same node; the node voted for stays.
\<close>

definition keeps_vote :: "'vs machine \<Rightarrow> 'vs machine \<Rightarrow> bool" where
  "keeps_vote m m' \<longleftrightarrow>
     (m_epoch m' = m_epoch m \<and> m_epoch m \<noteq> - 1 \<and> m_vote m \<noteq> None \<longrightarrow> m_vote_id m' = m_vote_id m)"

definition before_persist :: "action list \<Rightarrow> action list" where
  "before_persist acts = takeWhile (\<lambda>a. a \<noteq> PersistQuorumState) acts"

definition write_ahead :: "'vs machine \<Rightarrow> 'vs step_result \<Rightarrow> bool" where
  "write_ahead m r \<longleftrightarrow>
     ((m_epoch (fst r), m_vote (fst r)) \<noteq> (m_epoch m, m_vote m) \<longrightarrow> PersistQuorumState \<in> set (snd r))
     \<and> (\<forall>c e. ReplyVote c e True \<in> set (before_persist (snd r)) \<longrightarrow>
          m_epoch (fst r) = m_epoch m \<and> m_vote (fst r) = m_vote m)
     \<and> (\<forall>e p. SendVoteRequest e p \<in> set (before_persist (snd r)) \<longrightarrow> e = m_epoch m \<and> p)
     \<and> (\<forall>e. AppendLeaderChange e \<in> set (before_persist (snd r)) \<longrightarrow>
          m_epoch (fst r) = m_epoch m \<and> m_vote (fst r) = m_vote m)"

lemma keeps_vote_start_election: "keeps_vote m (fst (start_election V log now m))"
  using saturating_add_one_less[of "m_epoch m"]
  by (auto simp: start_election_def promote_to_candidate_def promote_to_leader_def keeps_vote_def Let_def)

lemma epoch_start_election: "m_epoch m \<le> m_epoch (fst (start_election V log now m))"
  by (auto simp: start_election_def promote_to_candidate_def promote_to_leader_def le_saturating_add Let_def)

lemma write_ahead_start_election: "write_ahead m (start_election V log now m)"
  by (auto simp: start_election_def promote_to_candidate_def promote_to_leader_def write_ahead_def
      before_persist_def Let_def)

lemma begin_quorum_epoch_discipline:
  "m_epoch m \<le> m_epoch (fst (handle_begin_quorum_epoch V l e now m))"
  "keeps_vote m (fst (handle_begin_quorum_epoch V l e now m))"
  "write_ahead m (handle_begin_quorum_epoch V l e now m)"
  by (auto simp: handle_begin_quorum_epoch_def keeps_vote_def write_ahead_def before_persist_def Let_def)

lemma election_timeout_discipline:
  "m_epoch m \<le> m_epoch (fst (handle_election_timeout V log now m))"
  "keeps_vote m (fst (handle_election_timeout V log now m))"
  "write_ahead m (handle_election_timeout V log now m)"
  by (rule handle_election_timeout_cases[of V m log now];
      simp add: begin_quorum_epoch_discipline keeps_vote_start_election epoch_start_election
        write_ahead_start_election; simp add: keeps_vote_def write_ahead_def before_persist_def)+

lemma rejection_discipline:
  "m_epoch m \<le> m_epoch (fst (record_pre_vote_rejection V n e now m))"
  "keeps_vote m (fst (record_pre_vote_rejection V n e now m))"
  "write_ahead m (record_pre_vote_rejection V n e now m)"
  by (auto simp: record_pre_vote_rejection_def handle_begin_quorum_epoch_def await_election_def
      keeps_vote_def write_ahead_def before_persist_def Let_def split: role.splits option.splits)

lemma discipline_ignores_role [simp]:
  "keeps_vote (m\<lparr>mrole := r\<rparr>) m' = keeps_vote m m'"
  "keeps_vote m (m'\<lparr>mrole := r\<rparr>) = keeps_vote m m'"
  "write_ahead (m\<lparr>mrole := r\<rparr>) x = write_ahead m x"
  by (simp_all add: keeps_vote_def write_ahead_def)

lemma silent_step [simp]: "keeps_vote m m" "write_ahead m (m, [])" "write_ahead m (m\<lparr>mrole := r\<rparr>, [])"
  by (simp_all add: keeps_vote_def write_ahead_def before_persist_def)

lemma promote_to_candidate_discipline:
  "m_epoch m \<le> m_epoch (fst (promote_to_candidate V log now m))"
  "keeps_vote m (fst (promote_to_candidate V log now m))"
  "write_ahead m (promote_to_candidate V log now m)"
  using saturating_add_one_less[of "m_epoch m"] le_saturating_add[of "m_epoch m" 1]
  by (auto simp: promote_to_candidate_def promote_to_leader_def keeps_vote_def write_ahead_def
      before_persist_def Let_def)

lemma promote_to_leader_discipline:
  "m_epoch (fst (promote_to_leader V log now m)) = m_epoch m"
  "keeps_vote m (fst (promote_to_leader V log now m))"
  "write_ahead m (promote_to_leader V log now m)"
  by (auto simp: promote_to_leader_def keeps_vote_def write_ahead_def before_persist_def Let_def)

lemma unattached_discipline:
  assumes "m_epoch m < e"
  shows "m_epoch m \<le> m_epoch (fst (transition_to_unattached e d m))"
    "keeps_vote m (fst (transition_to_unattached e d m))"
    "write_ahead m (transition_to_unattached e d m)"
  using assms
  by (auto simp: transition_to_unattached_def keeps_vote_def write_ahead_def before_persist_def)

text \<open>A response either fences, is a refusal, is dropped, or adds a grant to the running round.\<close>

lemma handle_vote_response_cases:
  obtains (fenced) "\<not> g" "m_epoch m < e"
      "handle_vote_response V log n e g now m =
         transition_to_unattached e (unattached_election_deadline m e now) m"
  | (refused) "\<not> g" "handle_vote_response V log n e g now m = record_pre_vote_rejection V n e now m"
  | (dropped) "g" "handle_vote_response V log n e g now m = (m, [])"
  | (pre_vote) gs rs d a m1 where "g" "e = m_epoch m" "mrole m = Prospective gs rs d a"
      "m1 = (if vs_contains V (m_voters m) n
             then m\<lparr>mrole := Prospective (insert n gs) (rs - {n}) d a\<rparr> else m)"
      "handle_vote_response V log n e g now m =
         (if tally_reached_majority V m1 then promote_to_candidate V log now m1 else (m1, []))"
  | (vote) gs d m1 where "g" "e = m_epoch m" "mrole m = Candidate gs d"
      "m1 = (if vs_contains V (m_voters m) n then m\<lparr>mrole := Candidate (insert n gs) d\<rparr> else m)"
      "handle_vote_response V log n e g now m =
         (if tally_reached_majority V m1 then promote_to_leader V log now m1 else (m1, []))"
proof (cases g)
  case False
  then show ?thesis
    using fenced refused by (cases "m_epoch m < e") (simp_all add: handle_vote_response_def)
next
  case True
  show ?thesis
  proof (cases "mrole m")
    case (Prospective gs rs d a)
    show ?thesis
    proof (cases "e = m_epoch m")
      case e: True
      show ?thesis
        by (rule pre_vote[OF True e Prospective refl]) (simp add: handle_vote_response_def Prospective True e)
    qed (rule dropped, simp_all add: handle_vote_response_def Prospective True)
  next
    case (Candidate gs d)
    show ?thesis
    proof (cases "e = m_epoch m")
      case e: True
      show ?thesis
        by (rule vote[OF True e Candidate refl]) (simp add: handle_vote_response_def Candidate True e)
    qed (rule dropped, simp_all add: handle_vote_response_def Candidate True)
  qed (rule dropped, simp_all add: handle_vote_response_def True)+
qed

lemma vote_response_discipline:
  assumes r_def: "r = handle_vote_response V log n e g now m"
  shows "m_epoch m \<le> m_epoch (fst r) \<and> keeps_vote m (fst r) \<and> write_ahead m r"
proof (cases rule: handle_vote_response_cases[of g m e V log n now])
  case fenced
  then show ?thesis by (simp add: r_def unattached_discipline)
next
  case refused
  then show ?thesis by (simp add: r_def rejection_discipline)
next
  case dropped
  then show ?thesis by (simp add: r_def)
next
  case (pre_vote gs rs d a m1)
  have "m_epoch m1 = m_epoch m" "keeps_vote m1 = keeps_vote m" "write_ahead m1 = write_ahead m"
    "keeps_vote m m1" "write_ahead m (m1, [])"
    by (simp_all add: pre_vote(4) fun_eq_iff)
  then show ?thesis
    using promote_to_candidate_discipline[where V = V and log = log and now = now and m = m1] pre_vote(5) by (simp add: r_def)
next
  case (vote gs d m1)
  have "m_epoch m1 = m_epoch m" "keeps_vote m1 = keeps_vote m" "write_ahead m1 = write_ahead m"
    "keeps_vote m m1" "write_ahead m (m1, [])"
    by (simp_all add: vote(4) fun_eq_iff)
  then show ?thesis
    using promote_to_leader_discipline[where V = V and log = log and now = now and m = m1] vote(5) by (simp add: r_def)
qed

lemma vote_request_discipline:
  "m_epoch m \<le> m_epoch (fst (handle_vote_request V req log now m))"
  "keeps_vote m (fst (handle_vote_request V req log now m))"
  "write_ahead m (handle_vote_request V req log now m)"
  by (auto simp: handle_vote_request_def advance_epoch_for_vote_def transition_to_unattached_def
      can_grant_vote_def same_voter_def keeps_vote_def write_ahead_def before_persist_def Let_def
      split: vote_admission_decision.splits prod.splits role.splits option.splits if_splits)

lemma end_quorum_epoch_discipline:
  "m_epoch m \<le> m_epoch (fst (handle_end_quorum_epoch V log l e k now m))"
  "is_voter V m \<Longrightarrow> keeps_vote m (fst (handle_end_quorum_epoch V log l e k now m))"
  "write_ahead m (handle_end_quorum_epoch V log l e k now m)"
  by (auto simp: handle_end_quorum_epoch_def keeps_vote_start_election epoch_start_election
      write_ahead_start_election Let_def)
    (auto simp: await_election_def transition_to_unattached_def keeps_vote_def write_ahead_def
      before_persist_def Let_def)

lemma resigned_discipline:
  "m_epoch (fst (transition_to_resigned V now m)) = m_epoch m"
  "keeps_vote m (fst (transition_to_resigned V now m))"
  "write_ahead m (transition_to_resigned V now m)"
  by (auto simp: transition_to_resigned_def keeps_vote_def write_ahead_def before_persist_def Let_def)

lemma quorum_contact_discipline:
  "m_epoch (fst (record_quorum_contact V n now m)) = m_epoch m"
  "m_vote (fst (record_quorum_contact V n now m)) = m_vote m"
  "\<exists>r. fst (record_quorum_contact V n now m) = m\<lparr>mrole := r\<rparr>"
  "a \<in> set (option_list (snd (record_quorum_contact V n now m))) \<Longrightarrow> \<exists>d. a = ResetTimer CheckQuorumTimer d"
  by (auto simp: record_quorum_contact_def option_list_def Let_def split: role.splits if_splits)
     (metis machine.surjective machine.update_convs(4))+

text \<open>Serving a fetch touches the role only, and sends no vote message.\<close>

lemma handle_fetch_local:
  assumes "handle_fetch V log n e off now m = Some (m', acts)"
  shows "m_epoch m' = m_epoch m" "m_vote m' = m_vote m" "m_leader m' = m_leader m"
    "\<And>a. a \<in> set acts \<Longrightarrow>
       (\<exists>d. a = ResetTimer CheckQuorumTimer d) \<or> (\<exists>p. a = ReplyDivergingEpoch p) \<or> (\<exists>h. a = AdvanceHighWatermark h)"
  using assms
  by (auto simp: handle_fetch_def record_quorum_contact_def option_list_def Let_def
      split: if_splits role.splits option.splits prod.splits)

lemma leaderless_discipline:
  "m_epoch m \<le> m_epoch (fst (handle_leaderless_epoch V e now m))"
  "keeps_vote m (fst (handle_leaderless_epoch V e now m))"
  "write_ahead m (handle_leaderless_epoch V e now m)"
  by (auto simp: handle_leaderless_epoch_def transition_to_unattached_def become_discovering_observer_def
      keeps_vote_def write_ahead_def before_persist_def Let_def)

lemma fetch_response_discipline:
  "m_epoch (fst (handle_fetch_response log l e dv now m)) = m_epoch m"
  "m_vote (fst (handle_fetch_response log l e dv now m)) = m_vote m"
  "write_ahead m (handle_fetch_response log l e dv now m)"
  by (auto simp: handle_fetch_response_def write_ahead_def before_persist_def Let_def
      split: role.splits option.splits)

lemma discovering_discipline:
  "m_epoch (fst (become_discovering_observer now m)) = m_epoch m"
  "keeps_vote m (fst (become_discovering_observer now m))"
  "write_ahead m (become_discovering_observer now m)"
  by (auto simp: become_discovering_observer_def keeps_vote_def write_ahead_def before_persist_def Let_def)

lemma snapshot_discipline:
  "m_epoch (fst (handle_fetch_snapshot V n now m)) = m_epoch m"
  "m_vote (fst (handle_fetch_snapshot V n now m)) = m_vote m"
  "write_ahead m (handle_fetch_snapshot V n now m)"
  by (auto simp: handle_fetch_snapshot_def record_quorum_contact_def option_list_def write_ahead_def
      before_persist_def Let_def split: role.splits)

lemma fetch_discipline:
  assumes "handle_fetch V log n e off now m = Some r"
  shows "m_epoch (fst r) = m_epoch m" "m_vote (fst r) = m_vote m" "write_ahead m r"
proof -
  obtain m' acts where r: "r = (m', acts)" by (cases r)
  note loc = handle_fetch_local[OF assms[unfolded r]]
  show "m_epoch (fst r) = m_epoch m" "m_vote (fst r) = m_vote m" using loc(1,2) r by simp_all
  show "write_ahead m r"
    using loc by (fastforce simp: write_ahead_def r before_persist_def dest!: set_takeWhileD)
qed

lemma on_event_epoch_mono:
  assumes "on_event V ev log now m = Some r"
  shows "m_epoch m \<le> m_epoch (fst r)"
  using assms
  by (cases rule: on_event_cases)
    (auto simp: handle_check_quorum_timeout_def handle_fetch_timeout_def fetch_discipline
      vote_request_discipline election_timeout_discipline vote_response_discipline
      begin_quorum_epoch_discipline end_quorum_epoch_discipline snapshot_discipline
      fetch_response_discipline epoch_start_election discovering_discipline leaderless_discipline
      resigned_discipline)

lemma on_event_write_ahead:
  assumes "on_event V ev log now m = Some r"
  shows "write_ahead m r"
  using assms
  by (cases rule: on_event_cases)
    (auto simp: handle_check_quorum_timeout_def handle_fetch_timeout_def fetch_discipline
      vote_request_discipline election_timeout_discipline vote_response_discipline
      begin_quorum_epoch_discipline end_quorum_epoch_discipline snapshot_discipline
      fetch_response_discipline write_ahead_start_election discovering_discipline
      leaderless_discipline resigned_discipline)

lemma keeps_vote_same: "m_vote m' = m_vote m \<Longrightarrow> keeps_vote m m'"
  by (simp add: keeps_vote_def)

lemma on_event_keeps_vote:
  assumes "on_event V ev log now m = Some r" "is_voter V m"
  shows "keeps_vote m (fst r)"
  using assms(1)
  by (cases rule: on_event_cases)
    (auto simp: handle_check_quorum_timeout_def handle_fetch_timeout_def assms(2)
      vote_request_discipline election_timeout_discipline vote_response_discipline
      begin_quorum_epoch_discipline end_quorum_epoch_discipline
      keeps_vote_start_election discovering_discipline leaderless_discipline resigned_discipline
      intro!: keeps_vote_same fetch_discipline snapshot_discipline fetch_response_discipline)

section \<open>Properties\<close>

text \<open>Voter 2 of a fresh quorum of three, and the ballot of voter 1 for epoch 1, for the witnesses.\<close>

definition fresh_voter :: "node_id list machine" where
  "fresh_voter = new_machine simulation_voters 2 (bootstrap 7 [1, 2, 3]) 1000 2000"

definition ballot_request :: "node_id \<Rightarrow> node_id \<Rightarrow> epoch \<Rightarrow> bool \<Rightarrow> event" where
  "ballot_request candidate voter e pre_vote =
     ReceiveVoteRequest \<lparr>vr_from = candidate, vr_cluster_id = None, vr_voter_id = voter,
       vr_voter_directory_id = 0, vr_candidate_epoch = e, vr_candidate = candidate,
       vr_candidate_directory_id = 0,
       vr_candidate_log_end = \<lparr>le_last_epoch = 0, le_last_offset = 0\<rparr>, vr_pre_vote = pre_vote\<rparr>"

lemmas election_eval = machine_defs new_machine_def bootstrap_def default_role_def simulation_voters_def
  is_voter_def Let_def tally_reached_majority_def election_has_quorum_def majority_size_def
  sim_log_view_def whole_millis_def election_deadline_def election_deadline_in_def saturating_add_ms_def
  saturating_add_def election_jitter_ms_def vote_admission_decision_def local_voter_directory_matches_def
  current_or_adjacent_voter_key_def voter_key_matches_def can_grant_vote_def known_leader_def
  log_is_up_to_date_def last_epoch_in_def runs_check_quorum_def check_quorum_deadline_def
  saturating_mul_def CHECK_QUORUM_FACTOR_NUM_def CHECK_QUORUM_FACTOR_DEN_def

lemma fresh_voter_grants:
  "\<exists>m' before. on_event simulation_voters (ballot_request 1 2 1 False) (sim_log_view []) 50 fresh_voter
     = Some (m', before @ [ReplyVote 1 1 True])
     \<and> (m_epoch m', m_vote m') = (1, Some \<lparr>rk_id = 1, rk_directory_id = 0\<rparr>)"
proof -
  obtain r where r: "on_event simulation_voters (ballot_request 1 2 1 False) (sim_log_view []) 50 fresh_voter = Some r"
    and m: "(m_epoch (fst r), m_vote (fst r)) = (1, Some \<lparr>rk_id = 1, rk_directory_id = 0\<rparr>)"
    and last: "snd r = butlast (snd r) @ [ReplyVote 1 1 True]"
    by (simp add: ballot_request_def fresh_voter_def election_eval)
  then have "Some r = Some (fst r, butlast (snd r) @ [ReplyVote 1 1 True])" by (metis prod.collapse)
  with r m show ?thesis by metis
qed



text \<open>
  C9: a replica writes ahead: when an event changes its epoch or its vote, the
  quorum state is persisted before any granted vote is sent.
\<close>

theorem persist_before_grant:
  assumes "on_event V ev log now m = Some (m', before @ ReplyVote c e True # after)"
    and "(m_epoch m', m_vote m') \<noteq> (m_epoch m, m_vote m)"
  shows "PersistQuorumState \<in> set before"
proof (rule ccontr)
  assume no: "PersistQuorumState \<notin> set before"
  then have "ReplyVote c e True \<in> set (before_persist (before @ ReplyVote c e True # after))"
    by (induction before) (auto simp: before_persist_def)
  with on_event_write_ahead[OF assms(1)] assms(2) show False by (auto simp: write_ahead_def)
qed

theorem persist_before_grant_witness:
  "\<exists>m' before. on_event simulation_voters (ballot_request 1 2 1 False) (sim_log_view []) 50 fresh_voter
     = Some (m', before @ ReplyVote 1 1 True # []) \<and> PersistQuorumState \<in> set before"
proof -
  obtain m' before where ev: "on_event simulation_voters (ballot_request 1 2 1 False) (sim_log_view []) 50 fresh_voter
      = Some (m', before @ ReplyVote 1 1 True # [])" and m: "(m_epoch m', m_vote m') = (1, Some \<lparr>rk_id = 1, rk_directory_id = 0\<rparr>)"
    using fresh_voter_grants by auto
  have "(m_epoch m', m_vote m') \<noteq> (m_epoch fresh_voter, m_vote fresh_voter)"
    using m by (simp add: fresh_voter_def new_machine_def bootstrap_def)
  from persist_before_grant[OF ev this] ev show ?thesis by blast
qed

end
