(* ===== verification/Quorum_Elections.thy ===== *)
theory Quorum_Elections
  imports Quorum_Discipline
begin

text \<open>
  Where the messages and the roles of an election come from. A granted vote
  answers a vote request; a pre-vote request carries the epoch the replica was in;
  a candidacy starts at the next epoch with the replica's own vote and grows by
  one responder at a time; leadership is announced only from a majority of
  grants. Each fact is proved per handler and collected for \<open>on_event\<close>.
\<close>

section \<open>Elections\<close>

abbreviation has_majority :: "('vs, 'vt) voter_ops \<Rightarrow> 'vs machine \<Rightarrow> node_id set \<Rightarrow> bool" where
  "has_majority V m g \<equiv>
     election_has_quorum (vs_len V (m_voters m)) (count_where (vs_contains V (m_voters m)) g)"

text \<open>The actions another replica can observe during an election.\<close>

fun election_action :: "action \<Rightarrow> bool" where
  "election_action (SendVoteRequest _ _) = True"
| "election_action (ReplyVote _ _ granted) = granted"
| "election_action (AppendLeaderChange _) = True"
| "election_action _ = False"

definition quiet :: "action list \<Rightarrow> bool" where
  "quiet acts \<longleftrightarrow> (\<forall>a \<in> set acts. \<not> election_action a)"

lemma quiet_simps [simp]:
  "quiet []" "quiet (a # acts) \<longleftrightarrow> \<not> election_action a \<and> quiet acts"
  "quiet (xs @ ys) \<longleftrightarrow> quiet xs \<and> quiet ys"
  by (auto simp: quiet_def)

lemma quietD:
  assumes "quiet acts"
  shows "ReplyVote c e True \<notin> set acts" "SendVoteRequest e p \<notin> set acts" "AppendLeaderChange e \<notin> set acts"
  using assms by (auto simp: quiet_def)

text \<open>
  \<open>calm m r\<close>: the step sends nothing an election counts, and ends neither as
  leader nor as candidate unless it was one already, with the same grants, in the
  same epoch.
\<close>

fun electing :: "role \<Rightarrow> node_id set option" where
  "electing (Candidate g _) = Some g"
| "electing (Leader _ _ _ _) = Some {}"
| "electing _ = None"

definition calm :: "'vs machine \<Rightarrow> 'vs step_result \<Rightarrow> bool" where
  "calm m r \<longleftrightarrow> quiet (snd r)
     \<and> (electing (mrole (fst r)) = None
        \<or> (electing (mrole (fst r)) = electing (mrole m) \<and> is_leader (mrole (fst r)) = is_leader (mrole m)
           \<and> m_epoch (fst r) = m_epoch m))"

lemma calm_refl [simp]: "calm m (m, [])"
  by (simp add: calm_def)

lemma calm_begin: "calm m (handle_begin_quorum_epoch V l e now m)"
  by (simp add: handle_begin_quorum_epoch_def calm_def Let_def)

lemma calm_unattached: "calm m (transition_to_unattached e d m)"
  by (simp add: transition_to_unattached_def calm_def)

lemma calm_await: "calm m (await_election d m)"
  by (simp add: await_election_def calm_def Let_def)

lemma calm_rejection: "calm m (record_pre_vote_rejection V n e now m)"
  by (auto simp: record_pre_vote_rejection_def handle_begin_quorum_epoch_def await_election_def
      calm_def Let_def split: role.splits option.splits)

lemma calm_fetch_response: "calm m (handle_fetch_response log l e dv now m)"
  by (auto simp: handle_fetch_response_def calm_def Let_def split: role.splits option.splits)

lemma calm_discovering: "calm m (become_discovering_observer now m)"
  by (simp add: become_discovering_observer_def calm_def Let_def)

lemma calm_leaderless: "calm m (handle_leaderless_epoch V e now m)"
  by (simp add: handle_leaderless_epoch_def transition_to_unattached_def
      become_discovering_observer_def calm_def Let_def)

lemma calm_resigned: "calm m (transition_to_resigned V now m)"
  by (simp add: transition_to_resigned_def calm_def Let_def)

lemma calm_check_quorum: "calm m (handle_check_quorum_timeout V now m)"
  by (simp add: handle_check_quorum_timeout_def calm_resigned)

lemma calm_snapshot: "calm m (handle_fetch_snapshot V n now m)"
  by (auto simp: handle_fetch_snapshot_def record_quorum_contact_def option_list_def calm_def Let_def
      split: role.splits)

lemma calm_fetch: "handle_fetch V log n e off now m = Some r \<Longrightarrow> calm m r"
  by (auto simp: handle_fetch_def record_quorum_contact_def option_list_def calm_def Let_def
      split: role.splits option.splits if_splits)

text \<open>
  \<open>campaign V m r\<close>: a candidacy that starts, and perhaps is won at once. The
  pre-vote request, if any, carries the old epoch.
\<close>

definition campaign :: "('vs, 'vt) voter_ops \<Rightarrow> 'vs machine \<Rightarrow> 'vs step_result \<Rightarrow> bool" where
  "campaign V m r \<longleftrightarrow>
     m_epoch (fst r) = saturating_add (m_epoch m) 1 \<and> m_vote_id (fst r) = Some (me m)
     \<and> (electing (mrole (fst r)) = Some {me m} \<and> \<not> is_leader (mrole (fst r))
          \<and> (\<forall>e. AppendLeaderChange e \<notin> set (snd r))
        \<or> is_leader (mrole (fst r)) \<and> has_majority V m {me m}
          \<and> (\<forall>e. AppendLeaderChange e \<in> set (snd r) \<longleftrightarrow> e = m_epoch (fst r)))
     \<and> (\<forall>e p. SendVoteRequest e p \<in> set (snd r) \<longrightarrow> e = (if p then m_epoch m else m_epoch (fst r)))
     \<and> (\<forall>c e. ReplyVote c e True \<notin> set (snd r))"

definition canvass :: "'vs machine \<Rightarrow> 'vs step_result \<Rightarrow> bool" where
  "canvass m r \<longleftrightarrow>
     m_epoch (fst r) = m_epoch m \<and> electing (mrole (fst r)) = None
     \<and> (\<forall>e p. SendVoteRequest e p \<in> set (snd r) \<longrightarrow> p \<and> e = m_epoch m)
     \<and> (\<forall>c e. ReplyVote c e True \<notin> set (snd r)) \<and> (\<forall>e. AppendLeaderChange e \<notin> set (snd r))"

lemma campaign_promote: "campaign V m (promote_to_candidate V log now m)"
  by (auto simp: promote_to_candidate_def promote_to_leader_def tally_reached_majority_def campaign_def Let_def)

lemma start_election_kind:
  "campaign V m (start_election V log now m) \<or> canvass m (start_election V log now m)"
  by (auto simp: start_election_def promote_to_candidate_def promote_to_leader_def
      tally_reached_majority_def campaign_def canvass_def Let_def)

definition victory :: "('vs, 'vt) voter_ops \<Rightarrow> event \<Rightarrow> 'vs machine \<Rightarrow> 'vs step_result \<Rightarrow> bool" where
  "victory V ev m r \<longleftrightarrow>
     (\<exists>n g d G. ev = ReceiveVoteResponse n (m_epoch m) True \<and> mrole m = Candidate g d
        \<and> G \<subseteq> insert n g \<and> m_epoch (fst r) = m_epoch m
        \<and> (is_leader (mrole (fst r)) \<and> has_majority V m G
             \<and> (\<forall>e. AppendLeaderChange e \<in> set (snd r) \<longleftrightarrow> e = m_epoch m)
           \<or> electing (mrole (fst r)) = Some G \<and> \<not> is_leader (mrole (fst r))
             \<and> (\<forall>e. AppendLeaderChange e \<notin> set (snd r))))
     \<and> (\<forall>e p. SendVoteRequest e p \<notin> set (snd r)) \<and> (\<forall>c e. ReplyVote c e True \<notin> set (snd r))"

lemma vote_response_kind:
  assumes "r = handle_vote_response V log n e g now m"
  shows "calm m r \<or> campaign V m r \<or> victory V (ReceiveVoteResponse n e g) m r"
proof (cases rule: handle_vote_response_cases[of g m e V log n now])
  case (pre_vote gs rs d a m1)
  have frame: "m_epoch m1 = m_epoch m" "me m1 = me m" "m_voters m1 = m_voters m" "calm m (m1, [])"
    by (simp_all add: pre_vote(3,4) calm_def)
  then have "campaign V m1 = campaign V m" by (simp add: campaign_def fun_eq_iff)
  then show ?thesis
    using campaign_promote[of V m1 log now] pre_vote(5) frame(4) by (auto simp: assms)
next
  case (vote gs d m1)
  define G where "G = (if vs_contains V (m_voters m) n then insert n gs else gs)"
  have m1: "m1 = m\<lparr>mrole := Candidate G d\<rparr>"
    by (simp add: vote(3,4) G_def machine.equality)
  have r: "r = (if has_majority V m G then promote_to_leader V log now m1 else (m1, []))"
    by (simp add: assms vote(5) m1 tally_reached_majority_def)
  have "victory V (ReceiveVoteResponse n e g) m r"
    unfolding victory_def
  proof (intro conjI exI)
    show "G \<subseteq> insert n gs" by (auto simp: G_def)
    show "mrole m = Candidate gs d" by (fact vote(3))
  qed (auto simp: r m1 vote(1,2) promote_to_leader_def Let_def)
  then show ?thesis by blast
qed (simp_all add: assms calm_unattached calm_rejection)

text \<open>A granted vote: the request it answers, the epoch it carries, and the vote it records.\<close>

definition ballot :: "('vs, 'vt) voter_ops \<Rightarrow> event \<Rightarrow> 'vs machine \<Rightarrow> 'vs step_result \<Rightarrow> bool" where
  "ballot V ev m r \<longleftrightarrow>
     (\<exists>req. ev = ReceiveVoteRequest req
        \<and> (\<forall>c e. ReplyVote c e True \<in> set (snd r) \<longrightarrow>
             c = vr_from req \<and> e = vr_candidate_epoch req \<and> e = m_epoch (fst r) \<and> is_voter V m
             \<and> (vr_pre_vote req \<or> m_vote_id (fst r) = Some (vr_candidate req))))
     \<and> (electing (mrole (fst r)) = None
        \<or> (electing (mrole (fst r)) = electing (mrole m) \<and> is_leader (mrole (fst r)) = is_leader (mrole m)
           \<and> m_epoch (fst r) = m_epoch m))
     \<and> (\<forall>e p. SendVoteRequest e p \<notin> set (snd r)) \<and> (\<forall>e. AppendLeaderChange e \<notin> set (snd r))"

lemma vote_request_kind: "ballot V (ReceiveVoteRequest req) m (handle_vote_request V req log now m)"
  by (auto simp: ballot_def handle_vote_request_def advance_epoch_for_vote_def transition_to_unattached_def
      vote_admission_decision_def Let_def split: vote_admission_decision.splits prod.splits if_splits)

lemma election_timeout_kind:
  assumes "r = handle_election_timeout V log now m"
  shows "calm m r \<or> campaign V m r \<or> canvass m r"
  using start_election_kind[of V m log now]
  by (cases rule: handle_election_timeout_cases[of V m log now]) (auto simp: assms calm_begin)

lemma end_quorum_epoch_kind:
  assumes "r = handle_end_quorum_epoch V log l e k now m"
  shows "calm m r \<or> campaign V m r \<or> canvass m r"
  using start_election_kind[of V m log now]
  by (auto simp: assms handle_end_quorum_epoch_def calm_unattached Let_def)
    (auto simp: await_election_def calm_def Let_def)

lemma on_event_kind:
  assumes "on_event V ev log now m = Some r"
  obtains (calm) "calm m r" | (campaign) "campaign V m r" | (canvass) "canvass m r"
  | (victory) "victory V ev m r" | (ballot) "ballot V ev m r"
  using assms
proof (cases rule: on_event_cases)
  case (vote_response n e g)
  then show ?thesis using that(1,2,4) vote_response_kind[of r V log n e g now m] by blast
next
  case election
  then show ?thesis using that(1,2,3) election_timeout_kind[of r V log now m] by blast
next
  case (end_epoch l e k)
  then show ?thesis using that(1,2,3) end_quorum_epoch_kind[of r V log l e k now m] by blast
next
  case fetch_timeout
  then show ?thesis
    using that(1,2,3) start_election_kind[of V m log now] calm_discovering[of m now]
    by (auto simp: handle_fetch_timeout_def split: if_splits)
qed (use that(1,5) in \<open>blast intro: calm_fetch vote_request_kind calm_check_quorum calm_begin
    calm_snapshot calm_fetch_response calm_leaderless\<close>)+

lemma on_event_granted_reply:
  assumes "on_event V ev log now m = Some r" "ReplyVote c e True \<in> set (snd r)"
  obtains req where "ev = ReceiveVoteRequest req" "c = vr_from req" "e = vr_candidate_epoch req"
    "e = m_epoch (fst r)" "is_voter V m" "vr_pre_vote req \<or> m_vote_id (fst r) = Some (vr_candidate req)"
  using assms(1)
proof (cases rule: on_event_kind)
  case calm
  with assms(2) show ?thesis by (simp add: calm_def quietD)
next
  case campaign
  with assms(2) show ?thesis by (simp add: campaign_def)
next
  case canvass
  with assms(2) show ?thesis by (simp add: canvass_def)
next
  case victory
  with assms(2) show ?thesis by (simp add: victory_def)
next
  case ballot
  with assms(2) show ?thesis by (auto simp: ballot_def intro: that)
qed

lemma on_event_vote_solicited:
  assumes "on_event V ev log now m = Some r" "SendVoteRequest e p \<in> set (snd r)"
  shows "e = (if p then m_epoch m else m_epoch (fst r))"
  using assms(1)
proof (cases rule: on_event_kind)
  case calm
  with assms(2) show ?thesis by (simp add: calm_def quietD)
next
  case campaign
  with assms(2) show ?thesis by (simp add: campaign_def)
next
  case canvass
  with assms(2) show ?thesis by (simp add: canvass_def)
next
  case victory
  with assms(2) show ?thesis by (simp add: victory_def)
next
  case ballot
  with assms(2) show ?thesis by (simp add: ballot_def)
qed

section \<open>Properties\<close>

abbreviation requested_key :: "vote_request \<Rightarrow> replica_key" where
  "requested_key req \<equiv> \<lparr>rk_id = vr_candidate req, rk_directory_id = vr_candidate_directory_id req\<rparr>"

lemma binding_grant:
  assumes "on_event V (ReceiveVoteRequest req) log now m = Some (m', acts)"
    and "ReplyVote c e True \<in> set acts" "\<not> vr_pre_vote req"
  shows "c = vr_from req \<and> e = vr_candidate_epoch req \<and> m_epoch m \<le> e \<and> m_epoch m' = e
    \<and> vr_voter_id req = me m \<and> is_voter V m \<and> current_or_adjacent_voter_key V m (requested_key req)
    \<and> m_vote m' = Some (requested_key req) \<and> PersistQuorumState \<in> set acts
    \<and> (m_epoch m = e \<and> (\<exists>k. m_vote m = Some k \<and> same_voter m k (requested_key req))
       \<or> log_is_up_to_date (last_epoch log) (end_offset log)
           (le_last_epoch (vr_candidate_log_end req)) (le_last_offset (vr_candidate_log_end req)))"
proof (cases "vr_candidate_epoch req > m_epoch m")
  case True
  with assms show ?thesis
    by (auto simp: handle_vote_request_def advance_epoch_for_vote_def transition_to_unattached_def
        vote_admission_decision_def can_grant_vote_def Let_def split: if_splits)
next
  case False
  with assms show ?thesis
    by (auto simp: handle_vote_request_def advance_epoch_for_vote_def vote_admission_decision_def
        can_grant_vote_def Let_def split: if_splits option.splits role.splits)
qed

text \<open>
  C10: a replica grants a binding vote only as the voter the request names, to a
  current or adjacent voter, at an epoch not below its own; the vote is recorded
  and persisted; and either the replica already voted for that candidate in that
  epoch or the candidate's log is at least as up to date as its own.
\<close>

theorem binding_grant_rule:
  assumes "on_event V (ReceiveVoteRequest req) log now m = Some (m', acts)"
    and "ReplyVote c e True \<in> set acts" "\<not> vr_pre_vote req"
  shows "c = vr_from req \<and> e = vr_candidate_epoch req \<and> m_epoch m \<le> e \<and> m_epoch m' = e
    \<and> vr_voter_id req = me m \<and> is_voter V m \<and> current_or_adjacent_voter_key V m (requested_key req)
    \<and> m_vote m' = Some (requested_key req) \<and> PersistQuorumState \<in> set acts
    \<and> (m_epoch m = e \<and> (\<exists>k. m_vote m = Some k \<and> same_voter m k (requested_key req))
       \<or> log_is_up_to_date (last_epoch log) (end_offset log)
           (le_last_epoch (vr_candidate_log_end req)) (le_last_offset (vr_candidate_log_end req)))"
  using assms by (rule binding_grant)

theorem binding_grant_rule_witness:
  "\<exists>m' acts. on_event simulation_voters (ballot_request 1 2 1 False) (sim_log_view []) 50 fresh_voter = Some (m', acts)
     \<and> m_vote m' = Some \<lparr>rk_id = 1, rk_directory_id = 0\<rparr> \<and> PersistQuorumState \<in> set acts"
proof -
  obtain m' before where ev: "on_event simulation_voters (ballot_request 1 2 1 False) (sim_log_view []) 50 fresh_voter
      = Some (m', before @ [ReplyVote 1 1 True])"
    using fresh_voter_grants by blast
  have "ReplyVote 1 1 True \<in> set (before @ [ReplyVote 1 1 True])" by simp
  from binding_grant_rule[OF ev[unfolded ballot_request_def] this] ev show ?thesis by auto
qed

text \<open>
  A pre-vote that does not carry a higher epoch changes nothing in the replica
  that answers it, granted or not.
\<close>

theorem pre_vote_changes_nothing:
  assumes "on_event V (ReceiveVoteRequest req) log now m = Some (m', acts)"
    and "vr_pre_vote req" "vr_candidate_epoch req \<le> m_epoch m"
  shows "m' = m \<and> PersistQuorumState \<notin> set acts"
  using assms
  by (auto simp: handle_vote_request_def advance_epoch_for_vote_def Let_def
      split: vote_admission_decision.splits if_splits)

theorem pre_vote_changes_nothing_witness:
  "\<exists>m' acts. on_event simulation_voters (ballot_request 1 2 0 True) (sim_log_view []) 50 fresh_voter = Some (m', acts)
     \<and> m' = fresh_voter"
proof -
  obtain m' acts where ev: "on_event simulation_voters (ballot_request 1 2 0 True) (sim_log_view []) 50 fresh_voter
      = Some (m', acts)"
    by (simp add: ballot_request_def) (metis surj_pair)
  from pre_vote_changes_nothing[OF ev[unfolded ballot_request_def]] ev show ?thesis by auto
qed

end
