(* ===== verification/Election_Safety.thy ===== *)
theory Election_Safety
  imports Quorum_Elections Simulation_Support
begin

text \<open>
  A cluster of quorum state machines over a network that loses, repeats, delays
  and reorders messages, with replicas that crash between any two actions. A
  message stays deliverable for ever once sent. A vote request and a granted vote
  reach a replica only if they were sent; every other event, the log behind each
  call and the clock are arbitrary. A crash executes a prefix of the actions
  \<open>on_event\<close> returned and rebuilds the machine with \<open>new\<close> from the quorum state
  last persisted. A persist that is executed succeeds, and the voter set is fixed.
\<close>

section \<open>The cluster\<close>

record 'vs cluster =
  nodes :: "node_id \<Rightarrow> 'vs machine"
  disks :: "node_id \<Rightarrow> 'vs quorum_state"
  sent :: "(node_id \<times> action) set"
  ballots :: "(node_id \<times> epoch \<times> node_id) set"

text \<open>\<open>ballots\<close> is the history of the votes the disks have held; no replica reads it.\<close>

definition disk_ballot :: "node_id \<Rightarrow> 'vs quorum_state \<Rightarrow> (node_id \<times> epoch \<times> node_id) set" where
  "disk_ballot n d = (case voted_key d of None \<Rightarrow> {} | Some k \<Rightarrow> {(n, leader_epoch d, rk_id k)})"

definition persisted :: "'vs machine \<Rightarrow> action list \<Rightarrow> 'vs quorum_state \<Rightarrow> 'vs quorum_state" where
  "persisted m acts d = (if PersistQuorumState \<in> set acts then qstate m else d)"

definition perform :: "node_id \<Rightarrow> 'vs machine \<Rightarrow> action list \<Rightarrow> 'vs machine \<Rightarrow> 'vs cluster \<Rightarrow> 'vs cluster" where
  "perform n m acts m1 c =
     (let d = persisted m acts (disks c n)
      in \<lparr>nodes = (nodes c)(n := m1), disks = (disks c)(n := d),
          sent = sent c \<union> Pair n ` set acts, ballots = ballots c \<union> disk_ballot n d\<rparr>)"

text \<open>\<open>deliverable c n ev\<close>: the event can reach replica \<open>n\<close>.\<close>

fun deliverable :: "'vs cluster \<Rightarrow> node_id \<Rightarrow> event \<Rightarrow> bool" where
  "deliverable c n (ReceiveVoteRequest req) \<longleftrightarrow>
     vr_from req = vr_candidate req
     \<and> (vr_candidate req, SendVoteRequest (vr_candidate_epoch req) (vr_pre_vote req)) \<in> sent c"
| "deliverable c n (ReceiveVoteResponse g e granted) \<longleftrightarrow>
     (granted \<longrightarrow> (g, ReplyVote n e True) \<in> sent c)"
| "deliverable c n _ \<longleftrightarrow> True"

inductive cstep :: "('vs, 'vt) voter_ops \<Rightarrow> 'vs cluster \<Rightarrow> 'vs cluster \<Rightarrow> bool"
  for V :: "('vs, 'vt) voter_ops" where
  run: "deliverable c n ev \<Longrightarrow> on_event V ev log now (nodes c n) = Some (m, acts) \<Longrightarrow>
    cstep V c (perform n m acts m c)"
| crash: "deliverable c n ev \<Longrightarrow> on_event V ev log now (nodes c n) = Some (m, acts) \<Longrightarrow>
    cstep V c (perform n m (take k acts)
      (new_machine V n (persisted m (take k acts) (disks c n)) election fetch) c)"

definition boot :: "('vs, 'vt) voter_ops \<Rightarrow> uuid \<Rightarrow> 'vs \<Rightarrow> (node_id \<Rightarrow> int) \<Rightarrow> (node_id \<Rightarrow> int) \<Rightarrow> 'vs cluster" where
  "boot V cid vs election fetch =
     \<lparr>nodes = \<lambda>n. new_machine V n (bootstrap cid vs) (election n) (fetch n),
      disks = \<lambda>n. bootstrap cid vs, sent = {}, ballots = {}\<rparr>"

inductive reachable :: "('vs, 'vt) voter_ops \<Rightarrow> 'vs \<Rightarrow> 'vs cluster \<Rightarrow> bool"
  for V :: "('vs, 'vt) voter_ops" and vs :: 'vs where
  boot: "reachable V vs (boot V cid vs election fetch)"
| step: "reachable V vs c \<Longrightarrow> cstep V c c' \<Longrightarrow> reachable V vs c'"

section \<open>One step, seen from the network\<close>

lemma before_persist_take:
  "PersistQuorumState \<notin> set (take k acts) \<Longrightarrow> set (take k acts) \<subseteq> set (before_persist acts)"
proof (induction acts arbitrary: k)
  case (Cons a acts)
  then show ?case by (cases k) (auto simp: before_persist_def)
qed simp

text \<open>The disk holds the epoch and the vote of the replica, and every replica has the voter set \<open>vs\<close>.\<close>

definition in_step :: "'vs \<Rightarrow> 'vs cluster \<Rightarrow> bool" where
  "in_step vs c \<longleftrightarrow> (\<forall>n. me (nodes c n) = n \<and> m_voters (nodes c n) = vs \<and> voters (disks c n) = vs
     \<and> leader_epoch (disks c n) = m_epoch (nodes c n) \<and> voted_key (disks c n) = m_vote (nodes c n))"

text \<open>
  \<open>outcome\<close>: what a step leaves behind, for a run to the end and for a crash
  alike. \<open>m\<close> is the machine \<open>on_event\<close> returned, \<open>m1\<close> the one that is there
  afterwards, \<open>did\<close> the actions executed.
\<close>

definition outcome ::
    "('vs, 'vt) voter_ops \<Rightarrow> 'vs machine \<Rightarrow> 'vs step_result \<Rightarrow> 'vs machine \<Rightarrow> action list \<Rightarrow> bool" where
  "outcome V m0 r m1 did \<longleftrightarrow>
     set did \<subseteq> set (snd r) \<and> me m1 = me m0 \<and> m_voters m1 = m_voters m0
     \<and> m_epoch m0 \<le> m_epoch m1 \<and> (is_voter V m0 \<longrightarrow> keeps_vote m0 m1)
     \<and> (m_epoch m1 = m_epoch (fst r) \<and> m_vote m1 = m_vote (fst r)
        \<or> m_epoch m1 = m_epoch m0 \<and> m_vote m1 = m_vote m0
          \<and> (\<forall>c e. ReplyVote c e True \<notin> set did) \<and> (\<forall>e. AppendLeaderChange e \<notin> set did)
          \<and> (\<forall>e p. SendVoteRequest e p \<in> set did \<longrightarrow> e = m_epoch m0))
     \<and> (electing (mrole m1) = None
        \<or> mrole m1 = mrole (fst r) \<and> m_epoch m1 = m_epoch (fst r) \<and> did = snd r)"

lemma new_machine_simps [simp]:
  "me (new_machine V n d el fe) = n" "qstate (new_machine V n d el fe) = d"
  "electing (mrole (new_machine V n d el fe)) = None"
  by (simp_all add: new_machine_def default_role_def)

lemma outcome_run:
  assumes "on_event V ev log now m0 = Some (m, acts)"
  shows "outcome V m0 (m, acts) m acts"
  using on_event_same_config[OF assms] on_event_epoch_mono[OF assms] on_event_keeps_vote[OF assms]
  by (simp add: outcome_def same_config_def)

lemma outcome_crash:
  assumes ev: "on_event V ev log now m0 = Some (m, acts)"
    and disk: "voters d = m_voters m0" "leader_epoch d = m_epoch m0" "voted_key d = m_vote m0"
  shows "outcome V m0 (m, acts) (new_machine V (me m0) (persisted m (take k acts) d) el fe) (take k acts)"
proof (cases "PersistQuorumState \<in> set (take k acts)")
  case True
  then show ?thesis
    using outcome_run[OF ev] by (auto simp: outcome_def persisted_def keeps_vote_def dest: in_set_takeD)
next
  case False
  then have early: "set (take k acts) \<subseteq> set (before_persist acts)" by (rule before_persist_take)
  have wa: "write_ahead m0 (m, acts)" by (rule on_event_write_ahead[OF ev])
  then have changed: "m_epoch m = m_epoch m0 \<and> m_vote m = m_vote m0 \<or>
      (\<forall>c e. ReplyVote c e True \<notin> set (take k acts)) \<and> (\<forall>e. AppendLeaderChange e \<notin> set (take k acts))"
    using early by (auto simp: write_ahead_def)
  have req: "\<forall>e p. SendVoteRequest e p \<in> set (take k acts) \<longrightarrow> e = m_epoch m0"
    using early wa by (auto simp: write_ahead_def)
  from False disk changed req show ?thesis
    by (auto simp: outcome_def persisted_def keeps_vote_def dest: in_set_takeD)
qed

lemma cstep_outcome:
  assumes "cstep V c c'" "in_step vs c"
  obtains n ev r m1 did log now where "deliverable c n ev" "on_event V ev log now (nodes c n) = Some r"
    "outcome V (nodes c n) r m1 did" "nodes c' = (nodes c)(n := m1)"
    "sent c' = sent c \<union> Pair n ` set did"
    "ballots c' = ballots c \<union> disk_ballot n (qstate m1)" "in_step vs c'"
  using assms(1)
proof cases
  case (run n ev log now m acts)
  have frame: "me (nodes c n) = n" "m_voters (nodes c n) = vs" "voters (disks c n) = vs"
      "leader_epoch (disks c n) = m_epoch (nodes c n)" "voted_key (disks c n) = m_vote (nodes c n)"
    using assms(2) by (simp_all add: in_step_def)
  have out: "outcome V (nodes c n) (m, acts) m acts" by (rule outcome_run[OF run(3)])
  let ?d = "persisted m acts (disks c n)"
  have d: "leader_epoch ?d = m_epoch m \<and> voted_key ?d = m_vote m \<and> voters ?d = vs"
    using on_event_write_ahead[OF run(3)] out frame
    by (auto simp: persisted_def write_ahead_def outcome_def)
  show ?thesis
  proof (rule that[OF run(2,3) out])
    show "ballots c' = ballots c \<union> disk_ballot n (qstate m)"
      using d by (cases "m_vote m") (simp_all add: run(1) perform_def Let_def disk_ballot_def)
    show "in_step vs c'"
      using assms(2) d out frame by (auto simp: run(1) perform_def Let_def in_step_def outcome_def)
  qed (simp_all add: run(1) perform_def Let_def)
next
  case (crash n ev log now m acts k el fe)
  have frame: "me (nodes c n) = n" "m_voters (nodes c n) = vs" "voters (disks c n) = vs"
      "leader_epoch (disks c n) = m_epoch (nodes c n)" "voted_key (disks c n) = m_vote (nodes c n)"
    using assms(2) by (simp_all add: in_step_def)
  let ?d = "persisted m (take k acts) (disks c n)"
  have out: "outcome V (nodes c n) (m, acts) (new_machine V n ?d el fe) (take k acts)"
    using outcome_crash[OF crash(3), of "disks c n" k el fe] frame by simp
  show ?thesis
  proof (rule that[OF crash(2,3) out])
    show "in_step vs c'"
      using assms(2) out frame by (auto simp: crash(1) perform_def Let_def in_step_def outcome_def)
  qed (simp_all add: crash(1) perform_def Let_def)
qed

section \<open>Invariants\<close>

text \<open>
  Epoch \<open>u32::MAX\<close> is left out: a candidacy there cannot reach a fresh epoch,
  since \<open>promote_to_candidate\<close> saturates.
\<close>

definition ballots_ok :: "('vs, 'vt) voter_ops \<Rightarrow> 'vs \<Rightarrow> 'vs cluster \<Rightarrow> bool" where
  "ballots_ok V vs c \<longleftrightarrow>
     (\<forall>g e a. (g, e, a) \<in> ballots c \<and> vs_contains V vs g \<and> e \<noteq> - 1 \<longrightarrow>
        e \<le> m_epoch (nodes c g) \<and> (e = m_epoch (nodes c g) \<longrightarrow> m_vote_id (nodes c g) = Some a))
     \<and> (\<forall>g a. m_vote_id (nodes c g) = Some a \<longrightarrow> (g, m_epoch (nodes c g), a) \<in> ballots c)
     \<and> (\<forall>g e a b. (g, e, a) \<in> ballots c \<and> (g, e, b) \<in> ballots c \<and> vs_contains V vs g \<and> e \<noteq> - 1 \<longrightarrow>
        a = b)"

definition messages_ok :: "'vs cluster \<Rightarrow> bool" where
  "messages_ok c \<longleftrightarrow>
     (\<forall>g n e. (g, ReplyVote n e True) \<in> sent c \<longrightarrow>
        (g, e, n) \<in> ballots c \<or> (n, SendVoteRequest e True) \<in> sent c)
     \<and> (\<forall>n e p. (n, SendVoteRequest e p) \<in> sent c \<longrightarrow> e \<le> m_epoch (nodes c n))"

definition candidate_ok :: "'vs cluster \<Rightarrow> node_id \<Rightarrow> bool" where
  "candidate_ok c n \<longleftrightarrow>
     (\<forall>G. electing (mrole (nodes c n)) = Some G \<and> \<not> is_leader (mrole (nodes c n))
        \<and> m_epoch (nodes c n) \<noteq> - 1 \<longrightarrow>
        (n, SendVoteRequest (m_epoch (nodes c n)) True) \<notin> sent c
        \<and> (\<forall>g \<in> G. (g, m_epoch (nodes c n), n) \<in> ballots c))"

definition elected_by :: "('vs, 'vt) voter_ops \<Rightarrow> 'vs \<Rightarrow> 'vs cluster \<Rightarrow> node_id \<Rightarrow> epoch \<Rightarrow> bool" where
  "elected_by V vs c n e \<longleftrightarrow>
     (\<exists>G. election_has_quorum (vs_len V vs) (count_where (vs_contains V vs) G)
        \<and> (\<forall>g \<in> G. (g, e, n) \<in> ballots c))"

definition leader_ok :: "('vs, 'vt) voter_ops \<Rightarrow> 'vs \<Rightarrow> 'vs cluster \<Rightarrow> node_id \<Rightarrow> bool" where
  "leader_ok V vs c n \<longleftrightarrow>
     (\<forall>e. (n, AppendLeaderChange e) \<in> sent c \<and> e \<noteq> - 1 \<longrightarrow> elected_by V vs c n e)
     \<and> (is_leader (mrole (nodes c n)) \<longrightarrow> (n, AppendLeaderChange (m_epoch (nodes c n))) \<in> sent c)"

definition cluster_ok :: "('vs, 'vt) voter_ops \<Rightarrow> 'vs \<Rightarrow> 'vs cluster \<Rightarrow> bool" where
  "cluster_ok V vs c \<longleftrightarrow> in_step vs c \<and> ballots_ok V vs c \<and> messages_ok c
     \<and> (\<forall>n. candidate_ok c n) \<and> (\<forall>n. leader_ok V vs c n)"

text \<open>
  The effect of a step on the cluster, in the form every preservation proof uses.
\<close>

definition cluster_effect ::
    "('vs, 'vt) voter_ops \<Rightarrow> 'vs \<Rightarrow> 'vs cluster \<Rightarrow> node_id \<Rightarrow> event \<Rightarrow> 'vs step_result \<Rightarrow> 'vs machine
       \<Rightarrow> action list \<Rightarrow> 'vs cluster \<Rightarrow> bool" where
  "cluster_effect V vs c n ev r m1 did c' \<longleftrightarrow>
     deliverable c n ev \<and> (\<exists>log now. on_event V ev log now (nodes c n) = Some r)
     \<and> outcome V (nodes c n) r m1 did \<and> nodes c' = (nodes c)(n := m1)
     \<and> sent c' = sent c \<union> Pair n ` set did \<and> ballots c' = ballots c \<union> disk_ballot n (qstate m1)
     \<and> in_step vs c \<and> in_step vs c'"

lemma disk_ballot_iff:
  "(g, e, a) \<in> disk_ballot n d \<longleftrightarrow> g = n \<and> e = leader_epoch d \<and> map_option rk_id (voted_key d) = Some a"
  by (auto simp: disk_ballot_def split: option.splits)

lemma ballots_ok_step:
  assumes eff: "cluster_effect V vs c n ev r m1 did c'" and ok: "ballots_ok V vs c"
  shows "ballots_ok V vs c'"
proof -
  let ?m0 = "nodes c n"
  have mono: "m_epoch ?m0 \<le> m_epoch m1" and voter: "is_voter V ?m0 \<longleftrightarrow> vs_contains V vs n"
      and keep: "vs_contains V vs n \<Longrightarrow> keeps_vote ?m0 m1"
    using eff by (auto simp: cluster_effect_def outcome_def is_voter_def in_step_def)
  have old: "e \<le> m_epoch m1 \<and> (e = m_epoch m1 \<longrightarrow> m_vote_id m1 = Some a)"
    if "(n, e, a) \<in> ballots c" "vs_contains V vs n" "e \<noteq> - 1" for e a
  proof -
    have le: "e \<le> m_epoch ?m0" and vote: "e = m_epoch ?m0 \<Longrightarrow> m_vote_id ?m0 = Some a"
      using ok that by (auto simp: ballots_ok_def)
    have "m_vote_id m1 = Some a" if e: "e = m_epoch m1"
    proof -
      have "m_epoch ?m0 = e" using le mono e by (simp add: order_antisym)
      with keep[OF \<open>vs_contains V vs n\<close>] vote e \<open>e \<noteq> - 1\<close> show ?thesis by (auto simp: keeps_vote_def)
    qed
    with order_trans[OF le mono] show ?thesis by blast
  qed
  have b: "(g, e, a) \<in> ballots c' \<longleftrightarrow> (g, e, a) \<in> ballots c \<or> g = n \<and> e = m_epoch m1 \<and> m_vote_id m1 = Some a"
    for g e a using eff by (auto simp: cluster_effect_def disk_ballot_iff)
  have nodes: "nodes c' = (nodes c)(n := m1)" using eff by (simp add: cluster_effect_def)
  have single: "a = b" if "(g, e, a) \<in> ballots c'" "(g, e, b) \<in> ballots c'" "vs_contains V vs g" "e \<noteq> - 1"
    for g e a b
  proof (cases "g = n")
    case True
    have *: "(n, e, x) \<in> ballots c \<or> e = m_epoch m1 \<and> m_vote_id m1 = Some x" if "(g, e, x) \<in> ballots c'" for x
      using that by (simp add: b True)
    show ?thesis
    proof (cases "(n, e, a) \<in> ballots c \<and> (n, e, b) \<in> ballots c")
      case True
      with ok that(3,4) \<open>g = n\<close> show ?thesis by (auto simp: ballots_ok_def)
    next
      case False
      with *[OF that(1)] *[OF that(2)] have "e = m_epoch m1" by blast
      with *[OF that(1)] *[OF that(2)] old that(3,4) True have "m_vote_id m1 = Some a" "m_vote_id m1 = Some b"
        by blast+
      then show ?thesis by simp
    qed
  next
    case False
    with that have "(g, e, a) \<in> ballots c" "(g, e, b) \<in> ballots c" by (simp_all add: b)
    with ok that(3,4) show ?thesis unfolding ballots_ok_def by blast
  qed
  have current: "e \<le> m_epoch (nodes c' g) \<and> (e = m_epoch (nodes c' g) \<longrightarrow> m_vote_id (nodes c' g) = Some a)"
    if "(g, e, a) \<in> ballots c'" "vs_contains V vs g" "e \<noteq> - 1" for g e a
  proof (cases "g = n")
    case True
    with that old show ?thesis by (auto simp: nodes b)
  next
    case False
    with that have "(g, e, a) \<in> ballots c" by (simp add: b)
    with that ok False show ?thesis by (simp add: nodes ballots_ok_def)
  qed
  have cast: "(g, m_epoch (nodes c' g), a) \<in> ballots c'" if "m_vote_id (nodes c' g) = Some a" for g a
    using that ok by (cases "g = n") (simp_all add: nodes b ballots_ok_def)
  show ?thesis
    unfolding ballots_ok_def using current cast single by blast
qed

lemma messages_ok_step:
  assumes eff: "cluster_effect V vs c n ev r m1 did c'" and ok: "messages_ok c"
  shows "messages_ok c'"
proof -
  let ?m0 = "nodes c n"
  obtain log now where ev: "on_event V ev log now ?m0 = Some r"
    using eff by (auto simp: cluster_effect_def)
  have out: "outcome V ?m0 r m1 did" and del: "deliverable c n ev"
    using eff by (simp_all add: cluster_effect_def)
  have reply: "(n, e, a) \<in> disk_ballot n (qstate m1) \<or> (a, SendVoteRequest e True) \<in> sent c"
    if did: "ReplyVote a e True \<in> set did" for a e
  proof -
    have acts: "ReplyVote a e True \<in> set (snd r)" using did out by (auto simp: outcome_def)
    have m1: "m_epoch m1 = m_epoch (fst r)" "m_vote m1 = m_vote (fst r)"
      using did out by (auto simp: outcome_def)
    from ev acts obtain req where "ev = ReceiveVoteRequest req" "a = vr_from req" "e = vr_candidate_epoch req"
        "e = m_epoch (fst r)" "vr_pre_vote req \<or> m_vote_id (fst r) = Some (vr_candidate req)"
      by (rule on_event_granted_reply)
    with del m1 show ?thesis by (cases "vr_pre_vote req") (simp_all add: disk_ballot_iff)
  qed
  have request: "e \<le> m_epoch m1" if "SendVoteRequest e p \<in> set did" for e p
  proof -
    have "SendVoteRequest e p \<in> set (snd r)" using that out by (auto simp: outcome_def)
    then have "e = m_epoch ?m0 \<or> e = m_epoch (fst r)"
      using on_event_vote_solicited[OF ev, of e p] by (cases p) simp_all
    with that out show ?thesis by (auto simp: outcome_def)
  qed
  have mono: "m_epoch ?m0 \<le> m_epoch m1" using out by (simp add: outcome_def)
  have c': "nodes c' = (nodes c)(n := m1)" "sent c' = sent c \<union> Pair n ` set did"
      "ballots c' = ballots c \<union> disk_ballot n (qstate m1)"
    using eff by (simp_all add: cluster_effect_def)
  have "(g, e, a) \<in> ballots c' \<or> (a, SendVoteRequest e True) \<in> sent c'"
    if "(g, ReplyVote a e True) \<in> sent c'" for g a e
    using that ok reply[of a e] unfolding c' messages_ok_def by blast
  moreover have "e \<le> m_epoch (nodes c' g)" if "(g, SendVoteRequest e p) \<in> sent c'" for g e p
  proof (cases "(g, SendVoteRequest e p) \<in> sent c")
    case True
    with ok have "e \<le> m_epoch (nodes c g)" unfolding messages_ok_def by blast
    with mono show ?thesis by (cases "g = n") (simp_all add: c')
  next
    case False
    with that request[of e p] show ?thesis by (auto simp: c')
  qed
  ultimately show ?thesis unfolding messages_ok_def by blast
qed

lemma effect_facts:
  assumes "cluster_effect V vs c n ev r m1 did c'"
  shows "nodes c' n = m1" "g \<noteq> n \<Longrightarrow> nodes c' g = nodes c g"
    "(g, a) \<in> sent c' \<longleftrightarrow> (g, a) \<in> sent c \<or> g = n \<and> a \<in> set did"
    "(g, e, b) \<in> ballots c' \<longleftrightarrow> (g, e, b) \<in> ballots c \<or> g = n \<and> e = m_epoch m1 \<and> m_vote_id m1 = Some b"
    "outcome V (nodes c n) r m1 did" "deliverable c n ev" "\<exists>log now. on_event V ev log now (nodes c n) = Some r"
    "me (nodes c n) = n" "m_voters (nodes c n) = vs"
  using assms by (auto simp: cluster_effect_def disk_ballot_iff in_step_def)

lemma candidate_ok_other:
  assumes eff: "cluster_effect V vs c n ev r m1 did c'" and "candidate_ok c g" "g \<noteq> n"
  shows "candidate_ok c' g"
  using assms(2,3) by (simp add: candidate_ok_def effect_facts[OF eff])

text \<open>A grant that a live candidate counts was a binding vote.\<close>

lemma grant_is_ballot:
  assumes "messages_ok c" "candidate_ok c n" "mrole (nodes c n) = Candidate G d" "m_epoch (nodes c n) \<noteq> - 1"
    and "deliverable c n (ReceiveVoteResponse v (m_epoch (nodes c n)) True)"
  shows "\<forall>g \<in> insert v G. (g, m_epoch (nodes c n), n) \<in> ballots c"
  using assms by (auto simp: messages_ok_def candidate_ok_def)

lemma candidate_ok_step:
  assumes eff: "cluster_effect V vs c n ev r m1 did c'"
    and ok: "messages_ok c" "candidate_ok c n"
  shows "candidate_ok c' n"
proof (cases "electing (mrole m1) = None \<or> is_leader (mrole m1) \<or> m_epoch m1 = - 1")
  case True
  then show ?thesis by (auto simp: candidate_ok_def effect_facts[OF eff])
next
  case False
  note f = effect_facts[OF eff]
  let ?m0 = "nodes c n"
  have m1: "mrole m1 = mrole (fst r)" "m_epoch m1 = m_epoch (fst r)" "did = snd r"
    using False f(5) by (auto simp: outcome_def)
  obtain G where G: "electing (mrole (fst r)) = Some G" using False m1 by auto
  obtain log now where ev: "on_event V ev log now ?m0 = Some r" using f(7) by blast
  have goal: "candidate_ok c' n"
    if "SendVoteRequest (m_epoch m1) True \<notin> set (snd r)" "(n, SendVoteRequest (m_epoch m1) True) \<notin> sent c"
      "\<forall>g \<in> G. (g, m_epoch m1, n) \<in> ballots c'"
    using that G m1 by (simp add: candidate_ok_def f(1,3))
  have same: ?thesis
    if "electing (mrole ?m0) = Some G" "\<not> is_leader (mrole ?m0)" "m_epoch m1 = m_epoch ?m0"
      "\<And>e p. SendVoteRequest e p \<notin> set (snd r)"
    by (rule goal) (use ok(2) that False in \<open>auto simp: candidate_ok_def f(4)\<close>)
  from ev show ?thesis
  proof (cases rule: on_event_kind)
    case calm
    then show ?thesis using G False m1 by (intro same) (auto simp: calm_def quietD)
  next
    case ballot
    then show ?thesis using G False m1 by (intro same) (auto simp: ballot_def)
  next
    case canvass
    then show ?thesis using G by (simp add: canvass_def)
  next
    case campaign
    then have e: "m_epoch m1 = saturating_add (m_epoch ?m0) 1" and "G = {n}"
        and vote: "m_vote_id (fst r) = Some n"
      using G m1 False f(8) by (auto simp: campaign_def)
    have "m_epoch ?m0 \<noteq> - 1" using e False by auto
    then have less: "m_epoch ?m0 < m_epoch m1" unfolding e by (rule saturating_add_one_less)
    have "m_vote m1 = m_vote (fst r)" using f(5) less by (auto simp: outcome_def)
    with vote \<open>G = {n}\<close> have "\<forall>g \<in> G. (g, m_epoch m1, n) \<in> ballots c'" by (simp add: f(4))
    moreover have "SendVoteRequest (m_epoch m1) True \<notin> set (snd r)"
      using on_event_vote_solicited[OF ev, of "m_epoch m1" True] less by auto
    moreover have "(n, SendVoteRequest (m_epoch m1) True) \<notin> sent c"
      using ok(1) less by (auto simp: messages_ok_def not_le dest!: spec)
    ultimately show ?thesis by (intro goal)
  next
    case victory
    then obtain v g d where v: "ev = ReceiveVoteResponse v (m_epoch ?m0) True" "mrole ?m0 = Candidate g d"
        "G \<subseteq> insert v g" "m_epoch m1 = m_epoch ?m0" "\<And>e p. SendVoteRequest e p \<notin> set (snd r)"
      using G m1 False by (auto simp: victory_def)
    have "\<forall>x \<in> insert v g. (x, m_epoch ?m0, n) \<in> ballots c"
      using grant_is_ballot[OF ok v(2)] f(6) v(1,4) False by simp
    then show ?thesis
      using v ok(2) False by (intro goal) (auto simp: candidate_ok_def f(4))
  qed
qed

lemma leader_ok_other:
  assumes eff: "cluster_effect V vs c n ev r m1 did c'" and ok: "leader_ok V vs c g" and "g \<noteq> n"
  shows "leader_ok V vs c' g"
proof -
  have "elected_by V vs c' g e" if "elected_by V vs c g e" for e
    using that by (auto simp: elected_by_def effect_facts(4)[OF eff])
  with ok \<open>g \<noteq> n\<close> show ?thesis by (auto simp: leader_ok_def effect_facts[OF eff])
qed

lemma leader_ok_step:
  assumes eff: "cluster_effect V vs c n ev r m1 did c'"
    and ok: "messages_ok c" "candidate_ok c n" "leader_ok V vs c n"
  shows "leader_ok V vs c' n"
proof -
  note f = effect_facts[OF eff]
  let ?m0 = "nodes c n"
  obtain log now where ev: "on_event V ev log now ?m0 = Some r" using f(7) by blast
  have old: "elected_by V vs c' n e" if "elected_by V vs c n e" for e
    using that by (auto simp: elected_by_def f(4))
  have new: "elected_by V vs c' n e" if did: "AppendLeaderChange e \<in> set did" and e: "e \<noteq> - 1" for e
  proof -
    have acts: "AppendLeaderChange e \<in> set (snd r)" and m1: "m_epoch m1 = m_epoch (fst r)" "m_vote m1 = m_vote (fst r)"
      using did f(5) by (auto simp: outcome_def)
    from ev show ?thesis
    proof (cases rule: on_event_kind)
      case campaign
      then have "election_has_quorum (vs_len V vs) (count_where (vs_contains V vs) {n})"
          "e = m_epoch (fst r)" "m_vote_id (fst r) = Some n"
        using acts f(8,9) by (auto simp: campaign_def)
      then show ?thesis using m1 unfolding elected_by_def by (intro exI[of _ "{n}"]) (simp add: f(4))
    next
      case victory
      then obtain v g d G where v: "ev = ReceiveVoteResponse v (m_epoch ?m0) True" "mrole ?m0 = Candidate g d"
          "G \<subseteq> insert v g" "e = m_epoch ?m0"
          "election_has_quorum (vs_len V vs) (count_where (vs_contains V vs) G)"
        using acts f(9) by (auto simp: victory_def)
      have "\<forall>x \<in> insert v g. (x, m_epoch ?m0, n) \<in> ballots c"
        using grant_is_ballot[OF ok(1,2) v(2)] f(6) v(1,4) e by simp
      with v show ?thesis unfolding elected_by_def by (intro exI[of _ G]) (auto simp: f(4))
    qed (use acts in \<open>simp_all add: calm_def canvass_def ballot_def quietD\<close>)
  qed
  have "(n, AppendLeaderChange (m_epoch m1)) \<in> sent c'" if "is_leader (mrole m1)"
  proof -
    have m1: "electing (mrole m1) \<noteq> None" using that by (cases "mrole m1") simp_all
    then have r: "mrole m1 = mrole (fst r)" "m_epoch m1 = m_epoch (fst r)" "did = snd r"
      using f(5) by (auto simp: outcome_def)
    have "AppendLeaderChange (m_epoch m1) \<in> set (snd r)
        \<or> is_leader (mrole ?m0) \<and> m_epoch m1 = m_epoch ?m0"
      using ev
      by (cases rule: on_event_kind)
        (use that m1 r in \<open>auto simp: calm_def campaign_def canvass_def victory_def ballot_def\<close>)
    with ok(3) r show ?thesis by (auto simp: leader_ok_def f(3))
  qed
  with old new ok(3) show ?thesis by (auto simp: leader_ok_def f(1,3))
qed

lemma cluster_ok_boot: "cluster_ok V vs (boot V cid vs election fetch)"
  by (auto simp: cluster_ok_def in_step_def ballots_ok_def messages_ok_def candidate_ok_def leader_ok_def
      boot_def new_machine_def bootstrap_def default_role_def)

lemma cluster_ok_step:
  assumes "cluster_ok V vs c" "cstep V c c'"
  shows "cluster_ok V vs c'"
proof -
  have ok: "in_step vs c" "ballots_ok V vs c" "messages_ok c" "\<And>n. candidate_ok c n" "\<And>n. leader_ok V vs c n"
    using assms(1) by (simp_all add: cluster_ok_def)
  obtain n ev r m1 did where eff: "cluster_effect V vs c n ev r m1 did c'"
    using cstep_outcome[OF assms(2) ok(1)] unfolding cluster_effect_def using ok(1) by metis
  have "candidate_ok c' g" for g
    using candidate_ok_step[OF eff ok(3,4)] candidate_ok_other[OF eff ok(4)] by (cases "g = n") simp_all
  moreover have "leader_ok V vs c' g" for g
    using leader_ok_step[OF eff ok(3-5)] leader_ok_other[OF eff ok(5)] by (cases "g = n") simp_all
  ultimately show ?thesis
    using ballots_ok_step[OF eff ok(2)] messages_ok_step[OF eff ok(3)] eff
    by (simp add: cluster_ok_def cluster_effect_def)
qed

lemma reachable_cluster_ok: "reachable V vs c \<Longrightarrow> cluster_ok V vs c"
  by (induction rule: reachable.induct) (auto intro: cluster_ok_boot cluster_ok_step)

section \<open>Election safety\<close>

context voter_contract
begin

text \<open>Two elections of one epoch share a voter, and that voter cast one vote.\<close>

lemma one_leader_per_epoch:
  assumes ok: "ballots_ok V vs c" and a: "elected_by V vs c a e" and b: "elected_by V vs c b e" and "e \<noteq> - 1"
  shows "a = b"
proof -
  obtain A B where "election_has_quorum (vs_len V vs) (count_where (vs_contains V vs) A)"
      "election_has_quorum (vs_len V vs) (count_where (vs_contains V vs) B)"
      and ballots: "\<forall>g \<in> A. (g, e, a) \<in> ballots c" "\<forall>g \<in> B. (g, e, b) \<in> ballots c"
    using a b by (auto simp: elected_by_def)
  then obtain v where "v \<in> A" "v \<in> B" "vs_contains V vs v" using quorums_intersect by blast
  with ballots ok \<open>e \<noteq> - 1\<close> show ?thesis unfolding ballots_ok_def by blast
qed

end

text \<open>A script of deliverable events, each run to its end over one log, is a reachable execution.\<close>

fun play :: "('vs, 'vt) voter_ops \<Rightarrow> log_view \<Rightarrow> (node_id \<times> event \<times> sim_instant) list \<Rightarrow> 'vs cluster
    \<Rightarrow> 'vs cluster option" where
  "play V log [] c = Some c"
| "play V log ((n, ev, now) # es) c =
     (if deliverable c n ev
      then case on_event V ev log now (nodes c n) of
          None \<Rightarrow> None
        | Some (m, acts) \<Rightarrow> play V log es (perform n m acts m c)
      else None)"

lemma play_reachable: "reachable V vs c \<Longrightarrow> play V log es c = Some c' \<Longrightarrow> reachable V vs c'"
proof (induction es arbitrary: c)
  case (Cons x es)
  obtain n ev now where x: "x = (n, ev, now)" by (cases x)
  with Cons.prems(2) obtain m acts where del: "deliverable c n ev"
      and ev: "on_event V ev log now (nodes c n) = Some (m, acts)"
      and rest: "play V log es (perform n m acts m c) = Some c'"
    by (auto split: if_splits option.splits prod.splits)
  show ?case
    by (rule Cons.IH[OF _ rest]) (rule reachable.step[OF Cons.prems(1) cstep.run[OF del ev]])
qed simp

definition three_voters :: "node_id list cluster" where
  "three_voters = boot simulation_voters 7 [1, 2, 3] (\<lambda>_. 1000) (\<lambda>_. 2000)"

lemma three_voters_reachable: "reachable simulation_voters [1, 2, 3] three_voters"
  unfolding three_voters_def by (rule reachable.boot)

text \<open>Voter 1 wins epoch 1 with the pre-vote and the vote of voter 2.\<close>

definition election_script :: "(node_id \<times> event \<times> sim_instant) list" where
  "election_script =
     [(1, ElectionTimeout, 1500), (2, ballot_request 1 2 0 True, 1501), (1, ReceiveVoteResponse 2 0 True, 1502),
      (2, ballot_request 1 2 1 False, 1503), (1, ReceiveVoteResponse 2 1 True, 1504)]"


lemma election_script_plays:
  "\<exists>c. play simulation_voters (sim_log_view []) election_script three_voters = Some c
     \<and> (1, AppendLeaderChange 1) \<in> sent c \<and> is_leader (mrole (nodes c 1)) \<and> m_epoch (nodes c 1) = 1
     \<and> (2, 1, 1) \<in> ballots c \<and> m_epoch (nodes c 2) = 1"
  by (simp add: election_script_def three_voters_def boot_def ballot_request_def perform_def persisted_def
      disk_ballot_def election_eval)


lemma election_example:
  obtains c where "reachable simulation_voters [1, 2, 3] c" "(1, AppendLeaderChange 1) \<in> sent c"
    "is_leader (mrole (nodes c 1))" "m_epoch (nodes c 1) = 1" "(2, 1, 1) \<in> ballots c" "m_epoch (nodes c 2) = 1"
  using election_script_plays play_reachable[OF three_voters_reachable] by blast

text \<open>
  C1: election safety. In every execution of the cluster, with any loss, repetition
  and reordering of messages and any crashes, at most one replica announces itself
  leader of an epoch below \<open>u32::MAX\<close>.
\<close>

theorem election_safety:
  assumes "voter_contract V" "reachable V vs c"
    and "(a, AppendLeaderChange e) \<in> sent c" "(b, AppendLeaderChange e) \<in> sent c" "e \<noteq> - 1"
  shows "a = b"
proof -
  have ok: "cluster_ok V vs c" by (rule reachable_cluster_ok[OF assms(2)])
  then have "elected_by V vs c a e" "elected_by V vs c b e"
    using assms(3-5) by (auto simp: cluster_ok_def leader_ok_def)
  with ok show ?thesis
    using voter_contract.one_leader_per_epoch[OF assms(1)] assms(5) by (auto simp: cluster_ok_def)
qed

theorem election_safety_witness:
  "\<exists>c. reachable simulation_voters [1, 2, 3] c \<and> (1, AppendLeaderChange 1) \<in> sent c
     \<and> (2, AppendLeaderChange 1) \<notin> sent c"
proof -
  obtain c where "reachable simulation_voters [1, 2, 3] c" "(1, AppendLeaderChange 1) \<in> sent c"
    by (rule election_example)
  with election_safety[OF sim_voters.voter_contract_axioms, of "[1, 2, 3]" c 1 1 2] show ?thesis by auto
qed



text \<open>
  C2: a voter casts one vote per epoch below \<open>u32::MAX\<close>: over a whole execution,
  crashes included, its disk never holds votes for two replicas in one epoch.
\<close>

theorem one_durable_vote:
  assumes "reachable V vs c" "vs_contains V vs g" "(g, e, a) \<in> ballots c" "(g, e, b) \<in> ballots c" "e \<noteq> - 1"
  shows "a = b"
  using reachable_cluster_ok[OF assms(1)] assms(2-5) unfolding cluster_ok_def ballots_ok_def by blast

theorem one_durable_vote_witness:
  "\<exists>c. reachable simulation_voters [1, 2, 3] c \<and> (2, 1, 1) \<in> ballots c \<and> (2, 1, 3) \<notin> ballots c"
proof -
  obtain c where "reachable simulation_voters [1, 2, 3] c" "(2, 1, 1) \<in> ballots c"
    by (rule election_example)
  with one_durable_vote[of simulation_voters "[1, 2, 3]" c 2 1 1 3] show ?thesis
    by (auto simp: simulation_voters_def)
qed

text \<open>
  C6: a leader of an epoch below \<open>u32::MAX\<close> holds durable votes of a majority of
  the voters for that epoch.
\<close>

theorem leader_has_durable_majority:
  assumes "reachable V vs c" "(n, AppendLeaderChange e) \<in> sent c" "e \<noteq> - 1"
  shows "\<exists>G. vs_len V vs < 2 * count_where (vs_contains V vs) G \<and> (\<forall>g \<in> G. (g, e, n) \<in> ballots c)"
proof -
  have "elected_by V vs c n e"
    using reachable_cluster_ok[OF assms(1)] assms(2,3) by (auto simp: cluster_ok_def leader_ok_def)
  then obtain G where "election_has_quorum (vs_len V vs) (count_where (vs_contains V vs) G)"
      "\<forall>g \<in> G. (g, e, n) \<in> ballots c"
    by (auto simp: elected_by_def)
  then show ?thesis by (intro exI[of _ G]) (auto simp: election_has_quorum_def majority_size_def)
qed

theorem leader_has_durable_majority_witness:
  "\<exists>c G. reachable simulation_voters [1, 2, 3] c \<and> (1, AppendLeaderChange 1) \<in> sent c
     \<and> vs_len simulation_voters [1, 2, 3] < 2 * count_where (vs_contains simulation_voters [1, 2, 3]) G"
proof -
  obtain c where "reachable simulation_voters [1, 2, 3] c" "(1, AppendLeaderChange 1) \<in> sent c"
    by (rule election_example)
  with leader_has_durable_majority[of simulation_voters "[1, 2, 3]" c 1 1] show ?thesis by auto
qed



end
