(* ===== verification/Quorum_Invariant.thy ===== *)
theory Quorum_Invariant
  imports Quorum_Discipline
begin

text \<open>
  The well-formedness of a machine: what each role says of the durable state and
  of the voter set. It holds of a fresh machine, and every event and every
  membership operation keeps it. The lemmas that need the voter-set contract are
  proved in its locale.
\<close>

section \<open>Well-formed roles\<close>

abbreviation voter_ids :: "('vs, 'vt) voter_ops \<Rightarrow> 'vs machine \<Rightarrow> node_id set" where
  "voter_ids V m \<equiv> {n. vs_contains V (m_voters m) n}"

definition tracks_voters ::
    "('vs, 'vt) voter_ops \<Rightarrow> 'vs machine \<Rightarrow> (node_id, replica_progress) btree_map \<Rightarrow> bool" where
  "tracks_voters V m replicas \<longleftrightarrow> bt_ordered replicas \<and> bt_keys replicas = voter_ids V m - {me m}"

definition window_ok :: "('vs, 'vt) voter_ops \<Rightarrow> 'vs machine \<Rightarrow> node_id set \<Rightarrow> bool" where
  "window_ok V m fetched \<longleftrightarrow>
     fetched \<subseteq> voter_ids V m - {me m} \<and> (fetched = {} \<or> card fetched < check_quorum_reset_threshold V m)"

definition role_ok :: "('vs, 'vt) voter_ops \<Rightarrow> 'vs machine \<Rightarrow> bool" where
  "role_ok V m =
     (case mrole m of
        Unattached _ \<Rightarrow> True
      | Voted _ \<Rightarrow> is_voter V m \<and> m_vote m \<noteq> None
      | Follower l _ _ \<Rightarrow> is_voter V m \<and> m_leader m = Some l
      | Prospective granted rejected _ _ \<Rightarrow> is_voter V m \<and> m_leader m = None \<and> granted \<inter> rejected = {}
      | Candidate granted _ \<Rightarrow>
          is_voter V m \<and> m_leader m = None \<and> m_vote_id m = Some (me m) \<and> me m \<in> granted
      | Leader replicas fetched _ _ \<Rightarrow>
          m_leader m = Some (me m) \<and> tracks_voters V m replicas \<and> window_ok V m fetched
      | Resigned \<Rightarrow> is_voter V m \<and> m_leader m = None
      | Observer _ _ \<Rightarrow> \<not> is_voter V m)"

named_theorems role_frames

text \<open>Well-formedness after a role was assigned, so that a proof never unfolds it on an old machine.\<close>

lemma is_voter_role [simp]: "is_voter V (m\<lparr>mrole := r\<rparr>) = is_voter V m"
  by (simp add: is_voter_def)

lemma role_ok_assigned [simp]:
  "role_ok V (m\<lparr>mrole := Unattached d\<rparr>)"
  "role_ok V (m\<lparr>mrole := Voted d\<rparr>) \<longleftrightarrow> is_voter V m \<and> m_vote m \<noteq> None"
  "role_ok V (m\<lparr>mrole := Follower l d b\<rparr>) \<longleftrightarrow> is_voter V m \<and> m_leader m = Some l"
  "role_ok V (m\<lparr>mrole := Prospective g r d a\<rparr>) \<longleftrightarrow> is_voter V m \<and> m_leader m = None \<and> g \<inter> r = {}"
  "role_ok V (m\<lparr>mrole := Candidate g d\<rparr>) \<longleftrightarrow>
     is_voter V m \<and> m_leader m = None \<and> m_vote_id m = Some (me m) \<and> me m \<in> g"
  "role_ok V (m\<lparr>mrole := Leader rs f h s\<rparr>) \<longleftrightarrow>
     m_leader m = Some (me m) \<and> tracks_voters V m rs \<and> window_ok V m f"
  "role_ok V (m\<lparr>mrole := Resigned\<rparr>) \<longleftrightarrow> is_voter V m \<and> m_leader m = None"
  "role_ok V (m\<lparr>mrole := Observer ol d\<rparr>) \<longleftrightarrow> \<not> is_voter V m"
  by (simp_all add: role_ok_def tracks_voters_def window_ok_def check_quorum_reset_threshold_def is_voter_def
      majority_def)

lemma role_okD:
  assumes "role_ok V m"
  shows "mrole m = Prospective g r d a \<Longrightarrow> is_voter V m \<and> m_leader m = None \<and> g \<inter> r = {}"
    "mrole m = Candidate g d \<Longrightarrow>
       is_voter V m \<and> m_leader m = None \<and> m_vote_id m = Some (me m) \<and> me m \<in> g"
    "mrole m = Leader rs f h s \<Longrightarrow> m_leader m = Some (me m) \<and> tracks_voters V m rs \<and> window_ok V m f"
  using assms by (simp_all add: role_ok_def)

lemma role_ok_new: "role_ok V (new_machine V n qs el fe)"
  by (simp add: role_ok_def new_machine_def default_role_def is_voter_def)

lemma role_ok_unattached [role_frames]: "role_ok V (fst (transition_to_unattached e d m))"
  by (simp add: transition_to_unattached_def)

lemma role_ok_await [role_frames]: "is_voter V m \<Longrightarrow> role_ok V (fst (await_election d m))"
  by (simp add: await_election_def Let_def)

lemma role_ok_begin [role_frames]:
  "role_ok V m \<Longrightarrow> role_ok V (fst (handle_begin_quorum_epoch V l e now m))"
  by (simp add: handle_begin_quorum_epoch_def Let_def) (simp add: is_voter_def)

lemma role_ok_rejection [role_frames]:
  assumes "role_ok V m"
  shows "role_ok V (fst (record_pre_vote_rejection V n e now m))"
proof (cases "mrole m")
  case (Prospective g r d a)
  have ok: "role_ok V (m\<lparr>mrole := Prospective (g - {n}) (insert n r) d a\<rparr>)" and v: "is_voter V m"
    using role_okD(1)[OF assms Prospective] by auto
  then show ?thesis
    using assms by (auto simp: record_pre_vote_rejection_def Prospective Let_def role_ok_begin role_ok_await
        split: option.splits)
qed (use assms in \<open>simp_all add: record_pre_vote_rejection_def\<close>)

lemma role_ok_advance:
  "role_ok V m \<Longrightarrow> role_ok V (fst (advance_epoch_for_vote V k e now m))"
  by (simp add: advance_epoch_for_vote_def role_ok_unattached)

lemma is_voter_advance: "is_voter V (fst (advance_epoch_for_vote V k e now m)) = is_voter V m"
  by (simp add: advance_epoch_for_vote_def transition_to_unattached_def is_voter_def)

lemma role_ok_vote_request [role_frames]:
  assumes "role_ok V m"
  shows "role_ok V (fst (handle_vote_request V req log now m))"
proof -
  have "is_voter V (m1\<lparr>qstate := (qstate m1)\<lparr>voted_key := k\<rparr>\<rparr>) = is_voter V m1" for m1 and k
    by (simp add: is_voter_def)
  with assms show ?thesis
    by (simp add: handle_vote_request_def case_prod_beta role_ok_advance is_voter_advance
        vote_admission_decision_def Let_def)
qed

lemma role_ok_resigned [role_frames]: "role_ok V (fst (transition_to_resigned V now m))"
  by (simp add: transition_to_resigned_def case_prod_beta Let_def)

lemma role_ok_fetch_response [role_frames]:
  assumes "role_ok V m"
  shows "role_ok V (fst (handle_fetch_response log l e dv now m))"
proof (cases "mrole m")
  case (Follower l' d b)
  with assms have "is_voter V m" "m_leader m = Some l'" by (simp_all add: role_ok_def)
  with assms Follower show ?thesis by (simp add: handle_fetch_response_def Let_def)
next
  case (Observer ol d)
  with assms show ?thesis by (cases ol) (simp_all add: handle_fetch_response_def Let_def)
qed (use assms in \<open>simp_all add: handle_fetch_response_def Let_def\<close>)

lemma role_ok_discovering [role_frames]:
  "\<not> is_voter V m \<Longrightarrow> role_ok V (fst (become_discovering_observer now m))"
  by (simp add: become_discovering_observer_def Let_def) (simp add: is_voter_def)

lemma role_ok_leaderless [role_frames]:
  "role_ok V m \<Longrightarrow> role_ok V (fst (handle_leaderless_epoch V e now m))"
  by (simp add: handle_leaderless_epoch_def role_ok_unattached)
    (simp add: become_discovering_observer_def Let_def is_voter_def)

text \<open>A contact changes only the window of voters counted, and keeps it below the threshold.\<close>

lemma record_quorum_contact_leader:
  assumes m: "mrole m = Leader replicas fetched hwm start" and ok: "window_ok V m fetched"
  shows "\<exists>fetched'. fst (record_quorum_contact V n now m) = m\<lparr>mrole := Leader replicas fetched' hwm start\<rparr>
    \<and> window_ok V m fetched'"
proof -
  have same: "m\<lparr>mrole := Leader replicas fetched hwm start\<rparr> = m" using m by (simp add: machine.equality)
  consider (idle) "\<not> runs_check_quorum V m \<or> n = me m \<or> \<not> vs_contains V (m_voters m) n"
    | (count) "runs_check_quorum V m" "n \<noteq> me m" "vs_contains V (m_voters m) n"
    by blast
  then show ?thesis
  proof cases
    case idle
    then show ?thesis using ok same by (intro exI[of _ fetched]) (simp add: record_quorum_contact_def)
  next
    case count
    have "window_ok V m {}" by (simp add: window_ok_def)
    moreover have "window_ok V m (insert n fetched)"
      if "card (insert n fetched) < check_quorum_reset_threshold V m"
      using that ok count by (auto simp: window_ok_def)
    ultimately show ?thesis using count m by (auto simp: record_quorum_contact_def Let_def)
  qed
qed

lemma role_ok_snapshot [role_frames]:
  assumes "role_ok V m"
  shows "role_ok V (fst (handle_fetch_snapshot V n now m))"
proof (cases "mrole m")
  case (Leader replicas fetched hwm start)
  note ok = role_okD(3)[OF assms Leader]
  obtain fetched' where "fst (record_quorum_contact V n now m) = m\<lparr>mrole := Leader replicas fetched' hwm start\<rparr>"
      "window_ok V m fetched'"
    using record_quorum_contact_leader[OF Leader] ok by blast
  with ok Leader show ?thesis by (simp add: handle_fetch_snapshot_def case_prod_beta)
qed (use assms in \<open>simp_all add: handle_fetch_snapshot_def\<close>)

lemma tracks_modify [simp]: "tracks_voters V m (bt_modify n f replicas) = tracks_voters V m replicas"
  by (simp add: tracks_voters_def)

lemma handle_fetch_leader:
  assumes m: "mrole m = Leader replicas fetched hwm start" and ok: "window_ok V m fetched"
    and step: "handle_fetch V log n e off now m = Some r"
  obtains fetched' replicas' hwm' where "fst r = m\<lparr>mrole := Leader replicas' fetched' hwm' start\<rparr>"
    "window_ok V m fetched'" "replicas' = replicas \<or> replicas' = bt_modify n (record_fetch now off (end_offset log)) replicas"
    "\<And>x. AdvanceHighWatermark x \<in> set (snd r) \<Longrightarrow> x = hwm' \<and> hwm < hwm'
       \<and> leader_high_watermark V (end_offset log) (m\<lparr>mrole := Leader replicas' fetched' hwm start\<rparr>) = Some hwm'"
proof -
  obtain fetched' where c: "fst (record_quorum_contact V n now m) = m\<lparr>mrole := Leader replicas fetched' hwm start\<rparr>"
      "window_ok V m fetched'"
    using record_quorum_contact_leader[OF m ok] by blast
  have quiet: "AdvanceHighWatermark x \<notin> set (option_list (snd (record_quorum_contact V n now m)))" for x
    using m by (simp add: record_quorum_contact_def option_list_def Let_def)
  let ?rs = "bt_modify n (record_fetch now off (end_offset log)) replicas"
  let ?h = "leader_high_watermark V (end_offset log) (m\<lparr>mrole := Leader ?rs fetched' hwm start\<rparr>)"
  show ?thesis
    using step m c quiet that[of replicas fetched' hwm] that[of ?rs fetched' hwm] that[of ?rs fetched' "the ?h"]
    by (auto simp: handle_fetch_def case_prod_beta Let_def split: option.splits if_splits)
qed

lemma role_ok_fetch:
  assumes ok: "role_ok V m" and step: "handle_fetch V log n e off now m = Some r"
  shows "role_ok V (fst r)"
proof (cases "mrole m")
  case (Leader replicas fetched hwm start)
  note lead = role_okD(3)[OF ok Leader]
  obtain fetched' replicas' hwm' where "fst r = m\<lparr>mrole := Leader replicas' fetched' hwm' start\<rparr>"
      "window_ok V m fetched'" "replicas' = replicas \<or> replicas' = bt_modify n (record_fetch now off (end_offset log)) replicas"
    using handle_fetch_leader[OF Leader _ step] lead by metis
  with lead show ?thesis by auto
qed (use assms in \<open>auto simp: handle_fetch_def\<close>)

lemma role_ok_end_epoch_voter:
  "is_voter V m \<Longrightarrow> role_ok V (fst (await_election d (m\<lparr>qstate := (qstate m)\<lparr>leader_id := None\<rparr>\<rparr>)))"
  by (rule role_ok_await) (simp add: is_voter_def)

section \<open>Elections, over the voter-set contract\<close>

context voter_contract
begin

lemma tracks_promoted: "tracks_voters V m (fold (\<lambda>n. bt_insert n default_progress)
    (filter (\<lambda>n. n \<noteq> me m) (vs_ids V (m_voters m))) [])"
  using bt_insert_fold_keys[of "\<lambda>_. default_progress" "filter (\<lambda>n. n \<noteq> me m) (vs_ids V (m_voters m))" "[]"]
  by (auto simp: tracks_voters_def bt_insert_fold_ordered ids_members)

lemma role_ok_promote_to_leader: "role_ok V (fst (promote_to_leader V log now m))"
  using tracks_promoted[of m]
  by (simp add: promote_to_leader_def Let_def tracks_voters_def window_ok_def)

lemma role_ok_promote_to_candidate:
  "is_voter V m \<Longrightarrow> role_ok V (fst (promote_to_candidate V log now m))"
  by (auto simp: promote_to_candidate_def case_prod_beta role_ok_promote_to_leader Let_def)
    (simp add: is_voter_def)

lemma role_ok_start_election: "is_voter V m \<Longrightarrow> role_ok V (fst (start_election V log now m))"
  by (auto simp: start_election_def case_prod_beta role_ok_promote_to_candidate is_voter_def Let_def)

lemma role_ok_election_timeout: "role_ok V m \<Longrightarrow> role_ok V (fst (handle_election_timeout V log now m))"
  by (rule handle_election_timeout_cases[of V m log now])
    (simp_all add: role_ok_begin role_ok_start_election)

lemma role_ok_vote_response:
  assumes ok: "role_ok V m"
  shows "role_ok V (fst (handle_vote_response V log n e g now m))"
proof (cases rule: handle_vote_response_cases[of g m e V log n now])
  case (pre_vote gs rs d a m1)
  have "is_voter V m1" "role_ok V m1"
    using ok pre_vote(3,4) by (auto simp: role_ok_def is_voter_def split: if_splits)
  with pre_vote(5) show ?thesis by (simp add: role_ok_promote_to_candidate)
next
  case (vote gs d m1)
  have "role_ok V m1" using ok vote(3,4) by (auto simp: role_ok_def is_voter_def split: if_splits)
  with vote(5) show ?thesis by (simp add: role_ok_promote_to_leader)
qed (use ok in \<open>simp_all add: role_ok_unattached role_ok_rejection\<close>)

lemma role_ok_end_epoch:
  "role_ok V m \<Longrightarrow> role_ok V (fst (handle_end_quorum_epoch V log l e k now m))"
  by (simp add: handle_end_quorum_epoch_def role_ok_unattached role_ok_start_election
      role_ok_end_epoch_voter Let_def)

lemma on_event_role_ok:
  assumes "on_event V ev log now m = Some r" "role_ok V m"
  shows "role_ok V (fst r)"
  using assms(1)
  by (cases rule: on_event_cases)
    (use assms(2) in \<open>auto simp: handle_check_quorum_timeout_def handle_fetch_timeout_def
      intro: role_frames role_ok_fetch role_ok_election_timeout role_ok_vote_response role_ok_end_epoch
        role_ok_start_election\<close>)

lemma tracks_rebuilt:
  assumes "tracks_voters V m replicas" "m_voters m' = vs" "me m' = me m"
  shows "tracks_voters V m' (fold (\<lambda>n. bt_or_insert n default_progress) (filter (\<lambda>n. n \<noteq> me m) (vs_ids V vs))
    (bt_retain (\<lambda>n. vs_contains V vs n \<and> n \<noteq> me m) replicas))"
  using assms by (auto simp: tracks_voters_def bt_or_insert_fold_keys bt_or_insert_fold_ordered ids_members)

lemma apply_voter_set_role_ok:
  assumes "role_ok V m"
  shows "role_ok V (fst (apply_voter_set V vs now m))"
proof (cases "mrole m")
  case (Leader replicas fetched hwm start)
  let ?m1 = "(if m_voters m \<noteq> vs then m\<lparr>adjacent_voters := Some (m_voters m)\<rparr> else m)"
  from Leader assms have "tracks_voters V m replicas" "m_leader m = Some (me m)" by (simp_all add: role_ok_def)
  then show ?thesis
    using tracks_rebuilt[of m replicas "?m1\<lparr>qstate := (qstate ?m1)\<lparr>voters := vs\<rparr>\<rparr>" vs]
    by (simp add: apply_voter_set_def Let_def Leader role_ok_def window_ok_def tracks_voters_def)
qed (use assms in \<open>auto simp: apply_voter_set_def Let_def role_ok_def is_voter_def split: option.splits bool.splits\<close>)

end

section \<open>Properties\<close>

text \<open>
  C11: every event keeps a machine well formed: a leader knows itself as leader,
  tracks exactly the other voters and has a check-quorum window of fewer voters
  than would reset it, a follower follows the recorded leader, a candidate has
  voted for itself, and only non-voters observe.
\<close>

theorem on_event_well_formed:
  assumes "voter_contract V" "role_ok V m" "on_event V ev log now m = Some (m', acts)"
  shows "role_ok V m'"
  using voter_contract.on_event_role_ok[OF assms(1,3,2)] by simp

theorem on_event_well_formed_witness:
  "\<exists>m' acts. on_event simulation_voters (ballot_request 1 2 1 False) (sim_log_view []) 50 fresh_voter = Some (m', acts)
     \<and> role_ok simulation_voters m'"
proof -
  obtain m' acts where ev: "on_event simulation_voters (ballot_request 1 2 1 False) (sim_log_view []) 50 fresh_voter
      = Some (m', acts)"
    using fresh_voter_grants by blast
  have "role_ok simulation_voters fresh_voter" unfolding fresh_voter_def by (rule role_ok_new)
  from on_event_well_formed[OF sim_voters.voter_contract_axioms this ev] ev show ?thesis by blast
qed

text \<open>
  C28: the operations outside the event loop keep a machine well formed: applying and
  committing a voter set, the level of the protocol, adopting the progress of a
  replica, finishing a removal and resigning for shutdown.
\<close>

theorem membership_well_formed:
  assumes "voter_contract V" "role_ok V m"
  shows "role_ok V (fst (apply_voter_set V vs now m)) \<and> role_ok V (commit_voter_set m)
    \<and> role_ok V (set_kraft_version v m) \<and> role_ok V (adopt_replica_progress V n p m)
    \<and> role_ok V (fst (finish_local_leader_removal V now m)) \<and> role_ok V (fst (resign_for_shutdown V now m))"
proof (intro conjI)
  show "role_ok V (fst (apply_voter_set V vs now m))"
    by (rule voter_contract.apply_voter_set_role_ok[OF assms])
  show "role_ok V (commit_voter_set m)" "role_ok V (set_kraft_version v m)"
    using assms(2)
    by (auto simp: role_ok_def commit_voter_set_def set_kraft_version_def is_voter_def tracks_voters_def
        window_ok_def check_quorum_reset_threshold_def majority_def split: role.splits)
  show "role_ok V (adopt_replica_progress V n p m)"
  proof (cases "mrole m")
    case (Leader rs f h s)
    note ok = role_okD(3)[OF assms(2) Leader]
    then have "n \<noteq> me m \<and> vs_contains V (m_voters m) n \<Longrightarrow> tracks_voters V m (bt_insert n p rs)"
      by (auto simp: tracks_voters_def)
    with ok assms(2) Leader show ?thesis by (simp add: adopt_replica_progress_def)
  qed (use assms(2) in \<open>simp_all add: adopt_replica_progress_def\<close>)
  show "role_ok V (fst (finish_local_leader_removal V now m))"
    using assms(2) by (simp add: finish_local_leader_removal_def Let_def) (simp add: is_voter_def)
  show "role_ok V (fst (resign_for_shutdown V now m))"
    using assms(2) by (simp add: resign_for_shutdown_def role_ok_resigned)
qed

theorem membership_well_formed_witness:
  "role_ok simulation_voters (fst (apply_voter_set simulation_voters [2, 3, 4] 10 fresh_voter))"
proof -
  have "role_ok simulation_voters fresh_voter" unfolding fresh_voter_def by (rule role_ok_new)
  from membership_well_formed[OF sim_voters.voter_contract_axioms this] show ?thesis by blast
qed

end
