(* ===== verification/Quorum_Replication.thy ===== *)
theory Quorum_Replication
  imports Quorum_Elections Quorum_Invariant
begin

text \<open>
  Replication in the quorum: the core never fails its assertion, the high
  watermark of a leadership only grows and stands on a majority of the voters,
  a diverging follower is told so and gets no credit, a truncation stays inside
  the log, and the check-quorum window and the hand-over order are what a
  majority needs.
\<close>

section \<open>The watermark of a leader\<close>

lemma leader_high_watermark_total:
  assumes "i64_min \<le> log_end"
  shows "\<exists>h. leader_high_watermark V log_end m = Some h"
proof (cases "mrole m")
  case (Leader rs f hwm start)
  let ?offs = "map (\<lambda>p. min (fetch_offset p) log_end) (bt_values rs)"
  have "recompute_high_watermark log_end ?offs (majority V (qstate m)) start (min hwm log_end) (is_voter V m) \<le> log_end"
    by (rule recompute_high_watermark_le[OF assms]) auto
  then show ?thesis by (simp add: leader_high_watermark_def Leader Let_def)
qed (simp_all add: leader_high_watermark_def)

lemma handle_fetch_total:
  assumes "i64_min \<le> end_offset log"
  shows "\<exists>r. handle_fetch V log n e off now m = Some r"
proof -
  have total: "leader_high_watermark V (end_offset log) m2 \<noteq> None" for m2
    using leader_high_watermark_total[OF assms, of V m2] by auto
  show ?thesis
    by (auto simp: total handle_fetch_def case_prod_beta Let_def split: option.splits role.splits)
qed

lemma bt_ordered_count:
  assumes "bt_ordered m"
  shows "length (filter P (bt_values m)) = card {k. \<exists>v. bt_get m k = Some v \<and> P v}"
proof -
  have d: "distinct (map fst m)" by (rule bt_ordered_distinct[OF assms])
  have "length (filter P (bt_values m)) = length (filter (\<lambda>e. P (snd e)) m)"
    by (simp add: bt_values_def filter_map comp_def)
  also have "\<dots> = card (fst ` set (filter (\<lambda>e. P (snd e)) m))"
    using d distinct_card[of "map fst (filter (\<lambda>e. P (snd e)) m)"] by (simp add: distinct_map_filter)
  also have "fst ` set (filter (\<lambda>e. P (snd e)) m) = {k. \<exists>v. bt_get m k = Some v \<and> P v}"
    using d by (force simp: bt_get_def map_of_eq_Some_iff)
  finally show ?thesis .
qed

text \<open>The voters whose log reaches \<open>h\<close>, as far as the leader knows.\<close>

definition holders :: "'vs machine \<Rightarrow> (node_id, replica_progress) btree_map \<Rightarrow> int \<Rightarrow> node_id set" where
  "holders m rs h = insert (me m) {n. \<exists>p. bt_get rs n = Some p \<and> h \<le> fetch_offset p}"

context voter_contract
begin

lemma reach_holders:
  assumes rs: "tracks_voters V m rs" and "h \<le> log_end"
  shows "reach log_end (map (\<lambda>p. min (fetch_offset p) log_end) (bt_values rs)) (is_voter V m) h
    = count_where (vs_contains V (m_voters m)) (holders m rs h)"
proof -
  let ?F = "{n. \<exists>p. bt_get rs n = Some p \<and> h \<le> fetch_offset p}"
  have "length (filter (\<lambda>x. h \<le> x) (map (\<lambda>p. min (fetch_offset p) log_end) (bt_values rs)))
      = length (filter (\<lambda>p. h \<le> fetch_offset p) (bt_values rs))"
    using assms(2) by (simp add: filter_map comp_def)
  also have "\<dots> = card ?F" using rs by (intro bt_ordered_count) (simp add: tracks_voters_def)
  finally have F: "length (filter (\<lambda>x. h \<le> x) (map (\<lambda>p. min (fetch_offset p) log_end) (bt_values rs))) = card ?F" .
  have key: "vs_contains V (m_voters m) n \<and> n \<noteq> me m" if "n \<in> ?F" for n
  proof -
    from that have "bt_get rs n \<noteq> None" by auto
    then have "n \<in> bt_keys rs" by (simp add: bt_get_None_iff)
    with rs show ?thesis by (simp add: tracks_voters_def)
  qed
  then have me: "me m \<notin> ?F" and all: "{n \<in> ?F. vs_contains V (m_voters m) n} = ?F" by auto
  have "count_where (vs_contains V (m_voters m)) ?F = card ?F" unfolding count_where_def all by simp
  then show ?thesis
    using F me assms(2) by (simp add: reach_def counted_logs_def holders_def is_voter_def)
qed

lemma leader_high_watermark_backed:
  assumes rs: "tracks_voters V m rs" and role: "mrole m = Leader rs f hwm start"
    and h: "leader_high_watermark V log_end m = Some h" and adv: "hwm < h" and "i64_min \<le> start"
  shows "start < h \<and> h \<le> log_end \<and> has_majority V m (holders m rs h)"
proof -
  let ?offs = "map (\<lambda>p. min (fetch_offset p) log_end) (bt_values rs)"
  have eq: "h = recompute_high_watermark log_end ?offs (majority V (qstate m)) start (min hwm log_end) (is_voter V m)"
      and le: "h \<le> log_end"
    using h by (auto simp: leader_high_watermark_def role Let_def split: if_splits)
  have m1: "1 \<le> majority V (qstate m)" by (simp add: majority_def majority_size_def)
  let ?r = "recompute_high_watermark log_end ?offs (majority V (qstate m)) start (min hwm log_end) (is_voter V m)"
  have "min hwm log_end < ?r" using adv eq by simp
  from recompute_high_watermark_advance[OF m1 assms(5) this]
  have "start < h" "majority V (qstate m) \<le> reach log_end ?offs (is_voter V m) h" by (simp_all only: eq)
  with le show ?thesis
    using reach_holders[OF rs le] by (simp add: election_has_quorum_def majority_def)
qed

end

section \<open>Successors, window\<close>

lemma successor_before_total: "successor_before a b \<or> successor_before b a"
  by (auto simp: successor_before_def)

lemma successor_before_trans: "successor_before a b \<Longrightarrow> successor_before b c \<Longrightarrow> successor_before a c"
  by (auto simp: successor_before_def)

definition reported_offset :: "(node_id, replica_progress) btree_map \<Rightarrow> node_id \<Rightarrow> int" where
  "reported_offset rs n = (case bt_get rs n of None \<Rightarrow> - 1 | Some p \<Rightarrow> fetch_offset p)"

lemma sorted_map_snd:
  assumes "sorted_wrt successor_before xs" "\<And>x. x \<in> set xs \<Longrightarrow> fst x = f (snd x)"
  shows "sorted_wrt (\<lambda>a b. successor_before (f a, a) (f b, b)) (map snd xs)"
  using assms by (induction xs) (auto simp: successor_before_def)

text \<open>The voters a contact makes the leader count, when it resets the check-quorum timer.\<close>

lemma contact_reset:
  assumes "mrole m = Leader rs f hwm start" "snd (record_quorum_contact V n now m) = Some a"
  shows "runs_check_quorum V m" "n \<noteq> me m" "vs_contains V (m_voters m) n"
    "check_quorum_reset_threshold V m \<le> card (insert n f)"
  using assms by (auto simp: record_quorum_contact_def Let_def split: if_splits)

lemma contact_majority:
  assumes "window_ok V m f" "n \<noteq> me m" "vs_contains V (m_voters m) n"
    "check_quorum_reset_threshold V m \<le> card (insert n f)"
  shows "has_majority V m (insert (me m) (insert n f))"
proof -
  have sub: "insert n f \<subseteq> voter_ids V m - {me m}" using assms(1-3) by (auto simp: window_ok_def)
  then have "{x \<in> insert n f. vs_contains V (m_voters m) x} = insert n f" "me m \<notin> insert n f" by auto
  then have "count_where (vs_contains V (m_voters m)) (insert n f) = card (insert n f)"
    unfolding count_where_def by simp
  with \<open>me m \<notin> insert n f\<close> have "count_where (vs_contains V (m_voters m)) (insert (me m) (insert n f))
      = (if is_voter V m then Suc (card (insert n f)) else card (insert n f))"
    by (subst count_where_insert) (auto simp: is_voter_def)
  with assms(4) show ?thesis
    by (auto simp: election_has_quorum_def check_quorum_reset_threshold_def majority_def split: if_splits)
qed

section \<open>A leadership that continues\<close>

text \<open>\<open>continues m m'\<close>: if both lead in one epoch, the watermark did not fall and the epoch starts where it did.\<close>

definition continues :: "'vs machine \<Rightarrow> 'vs machine \<Rightarrow> bool" where
  "continues m m' \<longleftrightarrow>
     (\<forall>rs f h s rs' f' h' s'. mrole m = Leader rs f h s \<and> mrole m' = Leader rs' f' h' s'
        \<and> m_epoch m' = m_epoch m \<and> m_epoch m \<noteq> - 1 \<longrightarrow> h \<le> h' \<and> s' = s)"

lemma continues_refl [simp]: "continues m m"
  by (auto simp: continues_def)

lemma continues_not_leader: "\<not> is_leader (mrole m') \<Longrightarrow> continues m m'"
  by (auto simp: continues_def)

lemma continues_start_election: "continues m (fst (start_election V log now m))"
  using start_election_kind[of V m log now] saturating_add_one_less[of "m_epoch m"]
  by (auto simp: continues_def campaign_def canvass_def)

lemma continues_begin: "continues m (fst (handle_begin_quorum_epoch V l e now m))"
  by (auto simp: handle_begin_quorum_epoch_def Let_def intro: continues_not_leader)

lemma continues_election_timeout: "continues m (fst (handle_election_timeout V log now m))"
  by (rule handle_election_timeout_cases[of V m log now])
    (simp_all add: continues_begin continues_start_election)

lemma continues_vote_request: "continues m (fst (handle_vote_request V req log now m))"
  by (auto simp: handle_vote_request_def advance_epoch_for_vote_def transition_to_unattached_def Let_def
      intro: continues_not_leader split: vote_admission_decision.splits)

lemma continues_vote_response: "continues m (fst (handle_vote_response V log n e g now m))"
proof (cases "is_leader (mrole m)")
  case True
  then obtain rs f h s where "mrole m = Leader rs f h s" by (cases "mrole m") auto
  then show ?thesis
    by (auto simp: handle_vote_response_def record_pre_vote_rejection_def transition_to_unattached_def
        intro: continues_not_leader)
qed (auto simp: continues_def)

lemma continues_end_epoch: "continues m (fst (handle_end_quorum_epoch V log l e k now m))"
  by (auto simp: handle_end_quorum_epoch_def transition_to_unattached_def await_election_def Let_def
      continues_start_election intro: continues_not_leader)

lemma continues_contact: "continues m (fst (record_quorum_contact V n now m))"
  by (auto simp: record_quorum_contact_def continues_def Let_def split: role.splits if_splits)

lemma continues_fetch:
  assumes "handle_fetch V log n e off now m = Some r"
  shows "continues m (fst r)"
  using assms
  by (auto simp: handle_fetch_def record_quorum_contact_def continues_def Let_def
      split: role.splits option.splits if_splits)

lemma on_event_continues:
  assumes "on_event V ev log now m = Some r"
  shows "continues m (fst r)"
  using assms
proof (cases rule: on_event_cases)
  case (fetch_response l e dv)
  then show ?thesis
    by (auto simp: handle_fetch_response_def continues_def Let_def split: role.splits option.splits if_splits)
next
  case (snapshot n)
  then show ?thesis by (simp add: handle_fetch_snapshot_def continues_contact case_prod_beta)
next
  case (leaderless e)
  then show ?thesis
    by (auto simp: handle_leaderless_epoch_def transition_to_unattached_def become_discovering_observer_def
        Let_def intro: continues_not_leader)
next
  case check_quorum
  then show ?thesis
    by (auto simp: handle_check_quorum_timeout_def transition_to_resigned_def Let_def intro: continues_not_leader)
next
  case fetch_timeout
  then show ?thesis
    by (auto simp: handle_fetch_timeout_def continues_start_election become_discovering_observer_def Let_def
        intro: continues_not_leader)
qed (simp_all add: continues_vote_request continues_election_timeout continues_vote_response continues_begin
    continues_end_epoch continues_fetch)

section \<open>Where a watermark and a truncation come from\<close>

definition replicates :: "action \<Rightarrow> bool" where
  "replicates a \<longleftrightarrow> (\<exists>h. a = AdvanceHighWatermark h) \<or> (\<exists>p. a = TruncateTo p)"

definition inert :: "action list \<Rightarrow> bool" where
  "inert acts \<longleftrightarrow> (\<forall>a \<in> set acts. \<not> replicates a)"

lemma inert_simps [simp]:
  "inert []" "inert (a # acts) \<longleftrightarrow> \<not> replicates a \<and> inert acts" "inert (xs @ ys) \<longleftrightarrow> inert xs \<and> inert ys"
  by (auto simp: inert_def)

lemma replicates_simps [simp]:
  "replicates (AdvanceHighWatermark h)" "replicates (TruncateTo p)" "\<not> replicates (SendVoteRequest e b)"
  "\<not> replicates (ReplyVote n e g)" "\<not> replicates (SendBeginQuorumEpoch e)" "\<not> replicates (SendEndQuorumEpoch e ns)"
  "\<not> replicates (SendFetch n)" "\<not> replicates (TransitionedTo r)" "\<not> replicates PersistQuorumState"
  "\<not> replicates (AppendLeaderChange e)" "\<not> replicates (ReplyDivergingEpoch p)" "\<not> replicates (ResetTimer k d)"
  by (simp_all add: replicates_def)

lemma inert_start_election: "inert (snd (start_election V log now m))"
  by (simp add: start_election_def promote_to_candidate_def promote_to_leader_def Let_def)

lemma inert_begin: "inert (snd (handle_begin_quorum_epoch V l e now m))"
  by (simp add: handle_begin_quorum_epoch_def Let_def)

lemma inert_vote_response: "inert (snd (handle_vote_response V log n e g now m))"
  by (auto simp: handle_vote_response_def promote_to_candidate_def promote_to_leader_def
      record_pre_vote_rejection_def await_election_def transition_to_unattached_def inert_begin Let_def
      split: role.splits option.splits)

lemma inert_vote_request: "inert (snd (handle_vote_request V req log now m))"
  by (auto simp: handle_vote_request_def advance_epoch_for_vote_def transition_to_unattached_def Let_def
      split: vote_admission_decision.splits)

lemma inert_election_timeout: "inert (snd (handle_election_timeout V log now m))"
  by (rule handle_election_timeout_cases[of V m log now]) (simp_all add: inert_begin inert_start_election)

lemma on_event_replicates:
  assumes "on_event V ev log now m = Some r" "\<not> inert (snd r)"
  shows "(\<exists>n e off. ev = ReceiveFetch n e off \<and> handle_fetch V log n e off now m = Some r)
    \<or> (\<exists>l e dv. ev = ReceiveFetchResponse l e dv \<and> r = handle_fetch_response log l e dv now m)"
  using assms(1)
proof (cases rule: on_event_cases)
  case check_quorum
  with assms(2) show ?thesis
    by (simp add: handle_check_quorum_timeout_def transition_to_resigned_def case_prod_beta Let_def split: if_splits)
next
  case (end_epoch l e k)
  with assms(2) show ?thesis
    by (simp add: handle_end_quorum_epoch_def transition_to_unattached_def await_election_def
        inert_start_election Let_def split: if_splits)
next
  case (snapshot n)
  with assms(2) show ?thesis
    by (simp add: handle_fetch_snapshot_def record_quorum_contact_def option_list_def Let_def
        split: if_splits role.splits)
next
  case fetch_timeout
  with assms(2) show ?thesis
    by (simp add: handle_fetch_timeout_def inert_start_election become_discovering_observer_def Let_def
        split: if_splits)
next
  case (leaderless e)
  with assms(2) show ?thesis
    by (simp add: handle_leaderless_epoch_def transition_to_unattached_def become_discovering_observer_def
        Let_def split: if_splits)
qed (use assms(2) in \<open>auto simp: inert_vote_request inert_election_timeout inert_vote_response inert_begin\<close>)

lemma advance_from_fetch:
  assumes "on_event V ev log now m = Some r" "AdvanceHighWatermark h \<in> set (snd r)"
  obtains n e off where "handle_fetch V log n e off now m = Some r"
proof -
  have "\<not> inert (snd r)" unfolding inert_def using assms(2) replicates_simps(1) by blast
  moreover have "AdvanceHighWatermark h \<notin> set (snd (handle_fetch_response log l e dv now m))" for l e dv
    by (auto simp: handle_fetch_response_def Let_def split: role.splits option.splits)
  ultimately show ?thesis using on_event_replicates[OF assms(1)] assms(2) that by metis
qed

lemma truncate_from_response:
  assumes "on_event V ev log now m = Some r" "TruncateTo p \<in> set (snd r)"
  obtains l e dv where "ev = ReceiveFetchResponse l e (Some dv)" "e = m_epoch m"
    "lom_offset p = follower_truncation_offset dv log" "lom_epoch p = lom_epoch dv"
proof -
  have inert: "\<not> inert (snd r)" unfolding inert_def using assms(2) replicates_simps(2) by blast
  have "TruncateTo p \<notin> set (snd r)" if "handle_fetch V log n e off now m = Some r" for n e off
    using handle_fetch_local(4)[of V log n e off now m "fst r" "snd r" "TruncateTo p"] that by auto
  then obtain l e dv where "ev = ReceiveFetchResponse l e dv" "r = handle_fetch_response log l e dv now m"
    using on_event_replicates[OF assms(1) inert] assms(2) by metis
  with assms(2) show ?thesis
    using that by (auto simp: handle_fetch_response_def Let_def split: role.splits option.splits if_splits)
qed

section \<open>Properties\<close>

text \<open>A leader of three voters at epoch 1 whose log starts that epoch at offset 2, for the witnesses.\<close>

definition leader_of_three :: "node_id list machine" where
  "leader_of_three =
     \<lparr>me = 1, qstate = \<lparr>cluster_id = 7, kraft_version = 0, leader_epoch = 1, leader_id = Some 1,
        voted_key = Some \<lparr>rk_id = 1, rk_directory_id = 0\<rparr>, voters = [1, 2, 3]\<rparr>,
      adjacent_voters = None,
      mrole = Leader [(2, default_progress), (3, default_progress)] {} 0 2,
      election_timeout_ms = 1000, fetch_timeout_ms = 2000\<rparr>"

lemmas leader_eval = leader_of_three_def machine_defs simulation_voters_def sim_log_view_def Let_def
  runs_check_quorum_def check_quorum_reset_threshold_def majority_def majority_size_def is_voter_def
  leader_high_watermark_def recompute_high_watermark_def majority_offset_def candidate_has_majority_def
  bt_modify_def bt_values_def record_fetch_def default_progress_def end_of_epoch_in_def last_epoch_in_def
  option_list_def check_quorum_deadline_def saturating_add_ms_def saturating_add_def saturating_mul_def
  CHECK_QUORUM_FACTOR_NUM_def CHECK_QUORUM_FACTOR_DEN_def

lemma leader_of_three_fetch:
  "\<exists>m acts. on_event simulation_voters (ReceiveFetch 2 1 4) (sim_log_view [0, 0, 1, 1]) 500 leader_of_three = Some (m, acts)
     \<and> mrole m = Leader [(2, \<lparr>fetch_offset = 4, last_fetch = 500, last_caught_up = 500, last_fetch_leader_log_end = 4\<rparr>),
          (3, default_progress)] {} 4 2
     \<and> m_epoch m = 1 \<and> AdvanceHighWatermark 4 \<in> set acts"
  by (simp add: leader_eval i64_min_def)

lemma leader_of_three_ok: "role_ok simulation_voters leader_of_three"
  by (auto simp: role_ok_def leader_of_three_def tracks_voters_def window_ok_def simulation_voters_def)

text \<open>
  C13: the core never panics: whatever the event, the machine and the log, as long as
  the log end is an \<open>i64\<close>, \<open>on_event\<close> returns.
\<close>

theorem on_event_returns:
  assumes "i64_range (end_offset log)"
  shows "\<exists>m' acts. on_event V ev log now m = Some (m', acts)"
proof -
  have "i64_min \<le> end_offset log" using assms by (simp add: i64_range_def)
  then have "\<exists>r. on_event V ev log now m = Some r" by (cases ev) (simp_all add: handle_fetch_total del: split_paired_Ex)
  then show ?thesis by auto
qed

theorem on_event_returns_witness:
  "\<exists>m' acts. on_event simulation_voters (ReceiveFetch 2 1 4) (sim_log_view [0, 0, 1, 1]) 500 leader_of_three
     = Some (m', acts)"
  by (rule on_event_returns) (simp add: sim_log_view_def i64_range_def i64_min_def i64_max_def)

text \<open>
  C17: while a leadership lasts, no event lowers its high watermark or moves the
  start of its epoch.
\<close>

theorem high_watermark_monotone:
  assumes "on_event V ev log now m = Some (m', acts)"
    and "mrole m = Leader rs f h s" "mrole m' = Leader rs' f' h' s'" "m_epoch m' = m_epoch m" "m_epoch m \<noteq> - 1"
  shows "h \<le> h' \<and> s' = s"
proof -
  have "continues m m'" using on_event_continues[OF assms(1)] by simp
  with assms(2-5) show ?thesis unfolding continues_def by blast
qed

theorem high_watermark_monotone_witness:
  "\<exists>m' acts rs' f' h' s'. on_event simulation_voters (ReceiveFetch 2 1 4) (sim_log_view [0, 0, 1, 1]) 500
     leader_of_three = Some (m', acts) \<and> mrole m' = Leader rs' f' h' s' \<and> 0 \<le> h' \<and> s' = 2"
proof -
  obtain m' acts where ev: "on_event simulation_voters (ReceiveFetch 2 1 4) (sim_log_view [0, 0, 1, 1]) 500
      leader_of_three = Some (m', acts)" and role: "\<exists>rs'. mrole m' = Leader rs' {} 4 2" and e: "m_epoch m' = 1"
    using leader_of_three_fetch by blast
  from role obtain rs' where rs': "mrole m' = Leader rs' {} 4 2" by blast
  have "0 \<le> (4 :: int) \<and> (2 :: int) = 2"
    by (rule high_watermark_monotone[OF ev _ rs'])
      (simp_all add: e, simp_all add: leader_of_three_def)
  with ev rs' show ?thesis by blast
qed

text \<open>
  C8: a leader advances its high watermark to \<open>h\<close> only if \<open>h\<close> lies past the start
  of its own epoch, within its log, and a majority of the voters hold their log up
  to \<open>h\<close>.
\<close>

theorem high_watermark_backed_by_majority:
  assumes "voter_contract V" "role_ok V m" "on_event V ev log now m = Some (m', acts)"
    and "AdvanceHighWatermark h \<in> set acts" "mrole m = Leader rs f hwm start" "i64_range start"
  shows "\<exists>rs' f'. mrole m' = Leader rs' f' h start \<and> hwm < h \<and> start < h \<and> h \<le> end_offset log
    \<and> has_majority V m (holders m rs' h)"
proof -
  obtain n e off where fetch: "handle_fetch V log n e off now m = Some (m', acts)"
    using advance_from_fetch[OF assms(3), of h] assms(4) by auto
  note lead = role_okD(3)[OF assms(2,5)]
  then have w: "window_ok V m f" by simp
  obtain f' rs' h' where s: "m' = m\<lparr>mrole := Leader rs' f' h' start\<rparr>" and
      rs: "rs' = rs \<or> rs' = bt_modify n (record_fetch now off (end_offset log)) rs" and
      adv: "\<And>x. AdvanceHighWatermark x \<in> set acts \<Longrightarrow> x = h' \<and> hwm < h'
        \<and> leader_high_watermark V (end_offset log) (m\<lparr>mrole := Leader rs' f' hwm start\<rparr>) = Some h'"
    by (rule handle_fetch_leader[OF assms(5) w fetch]) auto
  let ?m = "m\<lparr>mrole := Leader rs' f' hwm start\<rparr>"
  have "tracks_voters V m rs'" using rs lead by auto
  then have tracks: "tracks_voters V ?m rs'" by (simp add: tracks_voters_def)
  have "hwm < h" "h' = h" "leader_high_watermark V (end_offset log) ?m = Some h" using adv[OF assms(4)] by auto
  moreover have "start < h \<and> h \<le> end_offset log \<and> has_majority V ?m (holders ?m rs' h)"
    by (rule voter_contract.leader_high_watermark_backed[OF assms(1) tracks])
      (use calculation assms(6) in \<open>simp_all add: i64_range_def\<close>)
  ultimately show ?thesis using s by (simp add: holders_def)
qed

theorem high_watermark_backed_by_majority_witness:
  "\<exists>m' acts rs'. on_event simulation_voters (ReceiveFetch 2 1 4) (sim_log_view [0, 0, 1, 1]) 500
     leader_of_three = Some (m', acts) \<and> has_majority simulation_voters leader_of_three (holders leader_of_three rs' 4)"
proof -
  obtain m' acts where ev: "on_event simulation_voters (ReceiveFetch 2 1 4) (sim_log_view [0, 0, 1, 1]) 500
      leader_of_three = Some (m', acts)" and adv: "AdvanceHighWatermark 4 \<in> set acts"
    using leader_of_three_fetch by blast
  have role: "mrole leader_of_three = Leader [(2, default_progress), (3, default_progress)] {} 0 2"
    by (simp add: leader_of_three_def)
  from high_watermark_backed_by_majority[OF sim_voters.voter_contract_axioms leader_of_three_ok ev adv role] ev
  show ?thesis by (auto simp: i64_range_def i64_min_def i64_max_def)
qed

text \<open>
  A fetch above offset zero whose epoch the leader's log does not hold, or holds
  only below the fetched offset, is answered with the divergence point, and the
  leader credits the follower with nothing.
\<close>

theorem diverging_fetch_gets_no_credit:
  assumes "mrole m = Leader rs f hwm start" "0 < off"
    and "lom_epoch (end_offset_for_epoch log e) \<noteq> e \<or> lom_offset (end_offset_for_epoch log e) < off"
  shows "\<exists>f' acts m'. on_event V (ReceiveFetch n e off) log now m = Some (m', acts)
    \<and> ReplyDivergingEpoch (end_offset_for_epoch log e) \<in> set acts \<and> mrole m' = Leader rs f' hwm start"
  using assms by (auto simp: handle_fetch_def record_quorum_contact_def Let_def)

theorem diverging_fetch_gets_no_credit_witness:
  "\<exists>f' acts m'. on_event simulation_voters (ReceiveFetch 2 0 3) (sim_log_view [0, 0, 1, 1]) 500 leader_of_three
     = Some (m', acts) \<and> ReplyDivergingEpoch \<lparr>lom_offset = 2, lom_epoch = 0\<rparr> \<in> set acts
     \<and> mrole m' = Leader [(2, default_progress), (3, default_progress)] f' 0 2"
proof -
  have found: "end_offset_for_epoch (sim_log_view [0, 0, 1, 1]) 0 = \<lparr>lom_offset = 2, lom_epoch = 0\<rparr>"
    by (simp add: sim_log_view_def end_of_epoch_in_def last_epoch_in_def Let_def)
  show ?thesis
    using diverging_fetch_gets_no_credit[of leader_of_three "[(2, default_progress), (3, default_progress)]" "{}" 0 2 3
        "sim_log_view [0, 0, 1, 1]" 0 simulation_voters 2 500] found
    by (simp add: leader_of_three_def)
qed

text \<open>
  C27: a follower truncates only in answer to a fetch response of its own epoch, and
  never below zero or past its log end, if its log view keeps the contract and the
  leader's divergence point is an offset.
\<close>

theorem truncation_within_log:
  assumes "log_contract log" "on_event V ev log now m = Some (m', acts)" "TruncateTo p \<in> set acts"
    and "\<And>l e dv. ev = ReceiveFetchResponse l e (Some dv) \<Longrightarrow> 0 \<le> lom_offset dv"
  shows "0 \<le> lom_offset p \<and> lom_offset p \<le> end_offset log \<and> (\<exists>l dv. ev = ReceiveFetchResponse l (m_epoch m) dv)"
proof -
  have t: "TruncateTo p \<in> set (snd (m', acts))" using assms(3) by simp
  obtain l e dv where ev: "ev = ReceiveFetchResponse l e (Some dv)" "e = m_epoch m"
      and p: "lom_offset p = follower_truncation_offset dv log"
    by (rule truncate_from_response[OF assms(2) t])
  with log_contract.truncation_bounds[OF assms(1) assms(4)[OF ev(1)]] show ?thesis by auto
qed

definition follower_of_two :: "node_id list machine" where
  "follower_of_two = leader_of_three\<lparr>me := 1, qstate := (qstate leader_of_three)\<lparr>leader_id := Some 2\<rparr>,
     mrole := Follower 2 9000 False\<rparr>"

theorem truncation_within_log_witness:
  "lom_offset \<lparr>lom_offset = 3, lom_epoch = 0\<rparr> \<le> end_offset (sim_log_view [0, 0, 1, 1])
   \<and> (\<exists>acts m'. on_event simulation_voters (ReceiveFetchResponse 2 1 (Some \<lparr>lom_offset = 3, lom_epoch = 0\<rparr>))
        (sim_log_view [0, 0, 1, 1]) 10 follower_of_two = Some (m', acts)
      \<and> TruncateTo \<lparr>lom_offset = 3, lom_epoch = 0\<rparr> \<in> set acts)"
proof -
  have "\<exists>acts m'. on_event simulation_voters (ReceiveFetchResponse 2 1 (Some \<lparr>lom_offset = 3, lom_epoch = 0\<rparr>))
        (sim_log_view [0, 0, 1, 1]) 10 follower_of_two = Some (m', acts)
      \<and> TruncateTo \<lparr>lom_offset = follower_truncation_offset \<lparr>lom_offset = 3, lom_epoch = 0\<rparr> (sim_log_view [0, 0, 1, 1]),
           lom_epoch = 0\<rparr> \<in> set acts"
    by (simp add: follower_of_two_def leader_of_three_def handle_fetch_response_def Let_def)
  then obtain acts m' where r: "on_event simulation_voters (ReceiveFetchResponse 2 1 (Some \<lparr>lom_offset = 3, lom_epoch = 0\<rparr>))
        (sim_log_view [0, 0, 1, 1]) 10 follower_of_two = Some (m', acts)"
      "TruncateTo \<lparr>lom_offset = 3, lom_epoch = 0\<rparr> \<in> set acts"
    by (auto simp: follower_truncation_offset_def sim_log_view_def)
  show ?thesis
    using truncation_within_log[OF sim_log.log_contract_axioms r] r by auto
qed

text \<open>
  A fetch resets the check-quorum deadline of a leader only when the voters that
  fetched in the current window, with the leader itself, are a majority.
\<close>

theorem check_quorum_reset_needs_majority:
  assumes "role_ok V m" "mrole m = Leader rs f hwm start"
    and "on_event V (ReceiveFetch n e off) log now m = Some (m', acts)"
    and "ResetTimer CheckQuorumTimer d \<in> set acts"
  shows "has_majority V m (insert (me m) (insert n f)) \<and> d = check_quorum_deadline m now"
proof -
  have c: "snd (record_quorum_contact V n now m) = Some (ResetTimer CheckQuorumTimer d)
      \<and> d = check_quorum_deadline m now"
    using assms(2-4)
    by (auto simp: handle_fetch_def record_quorum_contact_def option_list_def Let_def
        split: if_splits option.splits)
  note k = contact_reset[OF assms(2) conjunct1[OF c]]
  have "window_ok V m f" using role_okD(3)[OF assms(1,2)] by simp
  from contact_majority[OF this k(2-4)] c show ?thesis by simp
qed

theorem check_quorum_reset_needs_majority_witness:
  "has_majority simulation_voters leader_of_three {1, 2}"
proof -
  have "\<exists>m' acts d. on_event simulation_voters (ReceiveFetch 2 1 4) (sim_log_view [0, 0, 1, 1]) 500 leader_of_three
      = Some (m', acts) \<and> ResetTimer CheckQuorumTimer d \<in> set acts"
    by (simp add: leader_eval i64_min_def)
  then obtain m' acts d where ev: "on_event simulation_voters (ReceiveFetch 2 1 4) (sim_log_view [0, 0, 1, 1]) 500
      leader_of_three = Some (m', acts)" "ResetTimer CheckQuorumTimer d \<in> set acts" by blast
  have role: "mrole leader_of_three = Leader [(2, default_progress), (3, default_progress)] {} 0 2"
    and me: "me leader_of_three = 1"
    by (simp_all add: leader_of_three_def)
  show ?thesis using check_quorum_reset_needs_majority[OF leader_of_three_ok role ev] me by simp
qed

text \<open>
  A leader that steps down names every other voter once as a successor, ordered
  by the offset it last fetched, the furthest first, and by identifier among equals.
\<close>

theorem preferred_successors_order:
  assumes "voter_contract V" "mrole m = Leader rs f hwm start"
  shows "set (preferred_successors V m) = voter_ids V m - {me m} \<and> distinct (preferred_successors V m)
    \<and> sorted_wrt (\<lambda>a b. reported_offset rs b < reported_offset rs a
          \<or> reported_offset rs a = reported_offset rs b \<and> a \<le> b) (preferred_successors V m)"
proof -
  let ?ids = "filter (\<lambda>n. n \<noteq> me m) (vs_ids V (m_voters m))"
  let ?xs = "sort_by successor_before (map (\<lambda>n. (reported_offset rs n, n)) ?ids)"
  have eq: "preferred_successors V m = map snd ?xs"
    by (simp add: preferred_successors_def assms(2) reported_offset_def)
  have set: "set ?xs = (\<lambda>n. (reported_offset rs n, n)) ` set ?ids" by simp
  have "set (map snd ?xs) = set ?ids" by (simp add: image_image)
  then have s: "set (map snd ?xs) = voter_ids V m - {me m}"
    using voter_contract.ids_members[OF assms(1)] by auto
  have inj: "inj_on snd (set ?xs)" unfolding set by (auto simp: inj_on_def)
  have "distinct ?xs"
    using voter_contract.ids_distinct[OF assms(1)] by (simp add: distinct_map inj_on_def)
  with inj have d: "distinct (map snd ?xs)" by (simp add: distinct_map)
  have "sorted_wrt successor_before ?xs"
    by (rule sorted_sort_by[OF successor_before_total successor_before_trans])
  then have "sorted_wrt (\<lambda>a b. successor_before (reported_offset rs a, a) (reported_offset rs b, b)) (map snd ?xs)"
    by (rule sorted_map_snd) (auto simp: set)
  then show ?thesis unfolding eq using s d by (auto simp: successor_before_def elim!: sorted_wrt_mono_rel[rotated])
qed

theorem preferred_successors_order_witness:
  "set (preferred_successors simulation_voters leader_of_three) = {2, 3}
   \<and> distinct (preferred_successors simulation_voters leader_of_three)"
proof -
  have role: "mrole leader_of_three = Leader [(2, default_progress), (3, default_progress)] {} 0 2"
    by (simp add: leader_of_three_def)
  have "voter_ids simulation_voters leader_of_three - {me leader_of_three} = {2, 3}"
    by (auto simp: leader_of_three_def simulation_voters_def)
  with preferred_successors_order[OF sim_voters.voter_contract_axioms role] show ?thesis by simp
qed

text \<open>
  The wait of a successor before it campaigns never exceeds the election timeout,
  and the first named successor does not wait.
\<close>

theorem end_epoch_backoff_bounded:
  "end_epoch_election_backoff_ms rank max_ms \<le> max_ms
   \<and> end_epoch_election_backoff_ms (rank\<lparr>sr_position := 0\<rparr>) max_ms = 0"
  by (auto simp: end_epoch_election_backoff_ms_def Let_def split: option.splits)

end
