(* ===== verification/Text_Format.thy ===== *)
theory Text_Format
  imports Prelude
begin

text \<open>
  The text primitives of Rust's standard library that the checkpoint files use:
  decimal printing and \<open>FromStr\<close> of integers, \<open>str::lines\<close>,
  \<open>str::split_whitespace\<close>, \<open>str::trim\<close>, \<open>strip_prefix\<close>, \<open>strip_suffix\<close>, \<open>split_once\<close>
  and \<open>split\<close>, with the round trips between printing and reading. A character is a code point below 256; the white space of that
  range is U+0009 to U+000D, U+0020, U+0085 and U+00A0.
\<close>

section \<open>Decimal integers\<close>

definition digit_char :: "nat \<Rightarrow> char" where
  "digit_char d = char_of (48 + d)"

definition is_digit :: "char \<Rightarrow> bool" where
  "is_digit c \<longleftrightarrow> 48 \<le> (of_char c :: nat) \<and> (of_char c :: nat) \<le> 57"

definition digit_value :: "char \<Rightarrow> nat" where
  "digit_value c = of_char c - 48"

fun show_nat :: "nat \<Rightarrow> string" where
  "show_nat n = (if n < 10 then [digit_char n] else show_nat (n div 10) @ [digit_char (n mod 10)])"

declare show_nat.simps [simp del]

definition show_int :: "int \<Rightarrow> string" where
  "show_int i = (if i < 0 then CHR ''-'' # show_nat (nat (- i)) else show_nat (nat i))"

definition parse_digits :: "string \<Rightarrow> nat option" where
  "parse_digits s =
     (if s \<noteq> [] \<and> list_all is_digit s then Some (foldl (\<lambda>a c. 10 * a + digit_value c) 0 s) else None)"

text \<open>
  \<open>FromStr\<close> of an integer type with the range \<open>lo .. hi\<close>: a sign is accepted before
  the digits, a minus only for a signed type, and a value out of range is an error.
\<close>

definition in_range :: "int \<Rightarrow> int \<Rightarrow> int \<Rightarrow> int option" where
  "in_range lo hi i = (if lo \<le> i \<and> i \<le> hi then Some i else None)"

definition parse_int :: "int \<Rightarrow> int \<Rightarrow> string \<Rightarrow> int option" where
  "parse_int lo hi s =
     (case s of
        [] \<Rightarrow> None
      | c # ds \<Rightarrow>
          if c = CHR ''+'' then Option.bind (parse_digits ds) (\<lambda>n. in_range lo hi (int n))
          else if c = CHR ''-'' \<and> lo < 0 then Option.bind (parse_digits ds) (\<lambda>n. in_range lo hi (- int n))
          else Option.bind (parse_digits s) (\<lambda>n. in_range lo hi (int n)))"

lemma digit_char_props [simp]:
  assumes "d < 10"
  shows "is_digit (digit_char d)" "digit_value (digit_char d) = d"
  using assms by (simp_all add: is_digit_def digit_value_def digit_char_def of_char_of)

lemma show_nat_digits: "list_all is_digit (show_nat n)"
proof (induction n rule: show_nat.induct)
  case (1 n)
  then show ?case by (simp add: show_nat.simps[of n])
qed

lemma show_nat_nonempty [simp]: "show_nat n \<noteq> []"
  by (simp add: show_nat.simps[of n])

lemma parse_digits_show_nat [simp]: "parse_digits (show_nat n) = Some n"
proof -
  have "foldl (\<lambda>a c. 10 * a + digit_value c) 0 (show_nat n) = n"
  proof (induction n rule: show_nat.induct)
    case (1 n)
    then show ?case by (simp add: show_nat.simps[of n])
  qed
  then show ?thesis by (simp add: parse_digits_def show_nat_digits)
qed

lemma is_digit_not_sign: "is_digit c \<Longrightarrow> c \<noteq> CHR ''+'' \<and> c \<noteq> CHR ''-''"
  by (auto simp: is_digit_def)

lemma show_nat_Cons: obtains c ds where "show_nat n = c # ds" "is_digit c"
  using show_nat_digits[of n] by (cases "show_nat n") auto

lemma parse_int_show_int:
  assumes "lo \<le> i" "i \<le> hi"
  shows "parse_int lo hi (show_int i) = Some i"
proof (cases "i < 0")
  case True
  with assms show ?thesis by (simp add: show_int_def parse_int_def in_range_def)
next
  case False
  obtain c ds where "show_nat (nat i) = c # ds" "is_digit c" by (rule show_nat_Cons)
  with False assms is_digit_not_sign[of c] parse_digits_show_nat[of "nat i"] show ?thesis
    by (simp add: show_int_def parse_int_def in_range_def)
qed

section \<open>Lines and words\<close>

definition is_space :: "char \<Rightarrow> bool" where
  "is_space c = (let n = (of_char c :: nat) in 9 \<le> n \<and> n \<le> 13 \<or> n = 32 \<or> n = 133 \<or> n = 160)"

abbreviation newline :: char where "newline \<equiv> CHR 0x0A"
abbreviation carriage_return :: char where "carriage_return \<equiv> CHR 0x0D"

definition strip_cr :: "string \<Rightarrow> string" where
  "strip_cr l = (if l \<noteq> [] \<and> last l = carriage_return then butlast l else l)"

function lines :: "string \<Rightarrow> string list" where
  "lines s =
     (if s = [] then []
      else case dropWhile (\<lambda>c. c \<noteq> newline) s of
          [] \<Rightarrow> [s]
        | _ # rest \<Rightarrow> strip_cr (takeWhile (\<lambda>c. c \<noteq> newline) s) # lines rest)"
  by pat_completeness auto
termination
proof (relation "measure length", simp)
  fix s :: string and x xs
  assume "dropWhile (\<lambda>c. c \<noteq> newline) s = x # xs"
  then have "length (x # xs) \<le> length s" by (metis length_dropWhile_le)
  then show "(xs, s) \<in> measure length" by simp
qed

declare lines.simps [simp del]

function split_whitespace :: "string \<Rightarrow> string list" where
  "split_whitespace s =
     (let t = dropWhile is_space s in
      if t = [] then []
      else takeWhile (\<lambda>c. \<not> is_space c) t # split_whitespace (dropWhile (\<lambda>c. \<not> is_space c) t))"
  by pat_completeness auto
termination
proof (relation "measure length", simp)
  fix s t :: string
  assume t: "t = dropWhile is_space s" "t \<noteq> []"
  then have "\<not> is_space (hd t)" by (metis hd_dropWhile)
  then have "length (dropWhile (\<lambda>c. \<not> is_space c) t) < length t"
    using t(2) by (cases t) (auto simp: le_imp_less_Suc length_dropWhile_le)
  moreover have "length t \<le> length s" using t(1) by (simp add: length_dropWhile_le)
  ultimately show "(dropWhile (\<lambda>c. \<not> is_space c) t, s) \<in> measure length" by simp
qed

declare split_whitespace.simps [simp del]

definition trim :: "string \<Rightarrow> string" where
  "trim s = rev (dropWhile is_space (rev (dropWhile is_space s)))"

text \<open>A line that a writer ended with a newline is read back as it was.\<close>

definition plain :: "string \<Rightarrow> bool" where
  "plain s \<longleftrightarrow> newline \<notin> set s \<and> carriage_return \<notin> set s"

lemma lines_Nil [simp]: "lines [] = []"
  by (simp add: lines.simps)

lemma lines_line [simp]:
  assumes "plain l"
  shows "lines (l @ newline # rest) = l # lines rest"
proof -
  have n: "\<forall>c \<in> set l. c \<noteq> newline" and cr: "l \<noteq> [] \<Longrightarrow> last l \<noteq> carriage_return"
    using assms by (auto simp: plain_def dest: last_in_set)
  have "dropWhile (\<lambda>c. c \<noteq> newline) (l @ newline # rest) = newline # rest"
    using n by (simp add: dropWhile_append2)
  moreover have "takeWhile (\<lambda>c. c \<noteq> newline) (l @ newline # rest) = l"
    using n by (simp add: takeWhile_append2)
  moreover have "strip_cr l = l" using cr by (auto simp: strip_cr_def)
  ultimately show ?thesis by (simp add: lines.simps[of "l @ newline # rest"])
qed

lemma lines_concat:
  assumes "\<forall>l \<in> set ls. plain l"
  shows "lines (concat (map (\<lambda>l. l @ [newline]) ls)) = ls"
  using assms by (induction ls) simp_all

lemma digits_plain: "list_all is_digit s \<Longrightarrow> plain s \<and> (\<forall>c \<in> set s. \<not> is_space c)"
  by (auto simp: list_all_iff plain_def is_digit_def is_space_def Let_def of_char_of)

lemma show_int_word: "plain (show_int i) \<and> (\<forall>c \<in> set (show_int i). \<not> is_space c) \<and> show_int i \<noteq> []"
  using digits_plain[OF show_nat_digits, of "nat i"] digits_plain[OF show_nat_digits, of "nat (- i)"]
  by (auto simp: show_int_def plain_def is_space_def Let_def of_char_of)

lemma split_whitespace_two:
  assumes "\<forall>c \<in> set a. \<not> is_space c" "a \<noteq> []" "\<forall>c \<in> set b. \<not> is_space c" "b \<noteq> []"
  shows "split_whitespace (a @ CHR '' '' # b) = [a, b]"
proof -
  have sp: "is_space (CHR '' '')" by (simp add: is_space_def)
  have drop: "dropWhile is_space a = a" "dropWhile is_space b = b"
    using assms by (cases a; cases b; simp)+
  have da: "dropWhile is_space (a @ CHR '' '' # b) = a @ CHR '' '' # b"
    using assms(1,2) by (cases a) simp_all
  have b: "dropWhile (\<lambda>c. \<not> is_space c) b = []" "takeWhile (\<lambda>c. \<not> is_space c) b = b"
    using assms(3) by simp_all
  have tail: "split_whitespace (CHR '' '' # b) = [b]"
    using assms(3,4) drop(2) sp
    by (simp add: split_whitespace.simps[of "CHR '' '' # b"] split_whitespace.simps[of "[]"] Let_def b
        del: dropWhile_eq_Nil_conv)
  show ?thesis
    using assms(1,2) sp da tail
    by (subst split_whitespace.simps)
      (simp add: Let_def takeWhile_append2 dropWhile_append2)
qed

lemma trim_word:
  assumes "\<forall>c \<in> set a. \<not> is_space c"
  shows "trim a = a"
proof -
  have "dropWhile is_space xs = xs" if "\<forall>c \<in> set xs. \<not> is_space c" for xs
    using that by (cases xs) simp_all
  from this[of a] this[of "rev a"] assms show ?thesis by (simp add: trim_def)
qed

section \<open>Prefixes, suffixes and separators\<close>

definition strip_suffix :: "string \<Rightarrow> string \<Rightarrow> string option" where
  "strip_suffix suf s =
     (let n = length s - length suf in
      if length suf \<le> length s \<and> drop n s = suf then Some (take n s) else None)"

definition split_once :: "char \<Rightarrow> string \<Rightarrow> (string \<times> string) option" where
  "split_once c s =
     (case dropWhile (\<lambda>x. x \<noteq> c) s of
        [] \<Rightarrow> None
      | _ # rest \<Rightarrow> Some (takeWhile (\<lambda>x. x \<noteq> c) s, rest))"

lemma strip_suffix_append [simp]: "strip_suffix suf (s @ suf) = Some s"
  by (simp add: strip_suffix_def Let_def)

lemma split_once_append:
  assumes "c \<notin> set a"
  shows "split_once c (a @ c # b) = Some (a, b)"
proof -
  have "\<forall>x \<in> set a. x \<noteq> c" using assms by auto
  then show ?thesis by (simp add: split_once_def dropWhile_append2 takeWhile_append2)
qed

fun strip_prefix :: "string \<Rightarrow> string \<Rightarrow> string option" where
  "strip_prefix [] s = Some s"
| "strip_prefix (c # cs) [] = None"
| "strip_prefix (c # cs) (x # xs) = (if c = x then strip_prefix cs xs else None)"

lemma strip_prefix_iff: "strip_prefix pre s = Some rest \<longleftrightarrow> s = pre @ rest"
  by (induction pre s rule: strip_prefix.induct) auto

text \<open>\<open>str::split\<close> at a character, and the text it splits.\<close>

fun split_on :: "char \<Rightarrow> string \<Rightarrow> string list" where
  "split_on c [] = [[]]"
| "split_on c (x # xs) =
     (if x = c then [] # split_on c xs
      else case split_on c xs of [] \<Rightarrow> [[x]] | w # ws \<Rightarrow> (x # w) # ws)"

fun join_with :: "char \<Rightarrow> string list \<Rightarrow> string" where
  "join_with c [] = []"
| "join_with c [w] = w"
| "join_with c (w # v # ws) = w @ c # join_with c (v # ws)"

lemma split_on_word: "c \<notin> set w \<Longrightarrow> split_on c w = [w]"
  by (induction w) auto

lemma split_on_append: "c \<notin> set w \<Longrightarrow> split_on c (w @ c # rest) = w # split_on c rest"
  by (induction w) auto

lemma split_join:
  assumes "ws \<noteq> []" "\<forall>w \<in> set ws. c \<notin> set w"
  shows "split_on c (join_with c ws) = ws"
  using assms by (induction c ws rule: join_with.induct) (auto simp: split_on_word split_on_append)

lemma join_with_Cons: "ws \<noteq> [] \<Longrightarrow> join_with c (w # ws) = w @ c # join_with c ws"
  by (cases ws) simp_all

lemma set_join_with: "set (join_with c ws) \<subseteq> insert c (\<Union> (set ` set ws))"
  by (induction c ws rule: join_with.induct) auto

end
