(* ===== verification/Leader_Epoch.thy ===== *)
theory Leader_Epoch
  imports Text_Format
begin

text \<open>
  The leader-epoch history of a partition: \<open>crates/log/src/leader_epoch_checkpoint.rs\<close>
  with its submodules \<open>mutation\<close>, \<open>lookup\<close> and \<open>file\<close>, and the lookup kernel
  \<open>crates/verified/src/leader_epoch.rs\<close>. The state is the entry list and the text
  of the file. Writing the file atomically is I/O: whether it succeeds is an
  argument of every mutation, and a failed write leaves the file as it was.

  The history is read as a function from offsets to epochs; the lookups are shown
  to answer from that function, and the mutations to change it as they should.
\<close>

section \<open>Entries and lookups\<close>

record epoch_entry =
  ee_epoch :: int
  ee_start :: int

definition UNDEFINED_EPOCH :: int where "UNDEFINED_EPOCH = - 1"
definition UNDEFINED_EPOCH_OFFSET :: int where "UNDEFINED_EPOCH_OFFSET = - 1"

definition is_strict_successor :: "epoch_entry \<Rightarrow> epoch_entry \<Rightarrow> bool" where
  "is_strict_successor previous nxt \<longleftrightarrow>
     ee_epoch previous < ee_epoch nxt \<and> ee_start previous < ee_start nxt"

text \<open>The scan of \<open>epoch_and_offset_for_entries\<close>: the position of the first epoch above the requested one.\<close>

fun higher_position :: "int \<Rightarrow> nat \<Rightarrow> epoch_entry list \<Rightarrow> nat" where
  "higher_position requested i [] = i"
| "higher_position requested i (e # es) =
     (if ee_epoch e \<le> requested then higher_position requested (i + 1) es else i)"

definition epoch_and_offset_for_entries :: "epoch_entry list \<Rightarrow> int \<Rightarrow> int \<Rightarrow> int \<times> int" where
  "epoch_and_offset_for_entries entries requested log_end_offset =
     (if requested = UNDEFINED_EPOCH then (UNDEFINED_EPOCH, UNDEFINED_EPOCH_OFFSET)
      else
        let i = higher_position requested 0 entries in
        if i = length entries
        then (if i > 0 \<and> ee_epoch (entries ! (i - 1)) = requested
              then (requested, log_end_offset)
              else (UNDEFINED_EPOCH, UNDEFINED_EPOCH_OFFSET))
        else if i = 0 then (requested, ee_start (entries ! i))
        else (ee_epoch (entries ! (i - 1)), ee_start (entries ! i)))"

definition end_offset_for_recorded_epoch :: "epoch_entry list \<Rightarrow> int \<Rightarrow> int \<Rightarrow> int" where
  "end_offset_for_recorded_epoch entries e log_end_offset =
     (if \<not> list_ex (\<lambda>x. ee_epoch x = e) entries then UNDEFINED_EPOCH_OFFSET
      else
        let starts = map ee_start (filter (\<lambda>x. ee_epoch x > e) entries)
        in if starts = [] then log_end_offset else Min (set starts))"

text \<open>\<open>Iterator::max_by_key\<close>: the last of the entries with the greatest key.\<close>

fun max_by_start :: "epoch_entry list \<Rightarrow> epoch_entry option" where
  "max_by_start [] = None"
| "max_by_start (e # es) =
     (case max_by_start es of
        None \<Rightarrow> Some e
      | Some m \<Rightarrow> if ee_start e \<le> ee_start m then Some m else Some e)"

definition epoch_for_offset :: "epoch_entry list \<Rightarrow> int \<Rightarrow> int option" where
  "epoch_for_offset entries off =
     map_option ee_epoch (max_by_start (filter (\<lambda>e. ee_start e \<le> off) entries))"

definition latest_epoch :: "epoch_entry list \<Rightarrow> int option" where
  "latest_epoch entries = (if entries = [] then None else Some (Max (ee_epoch ` set entries)))"

section \<open>The pure cores of the mutations\<close>

definition append_to :: "epoch_entry list \<Rightarrow> int \<Rightarrow> int \<Rightarrow> epoch_entry list \<times> bool" where
  "append_to entries e off =
     (if list_ex (\<lambda>x. ee_epoch x = e) entries then (entries, False)
      else (entries @ [\<lparr>ee_epoch = e, ee_start = off\<rparr>], True))"

definition truncate_to :: "epoch_entry list \<Rightarrow> int \<Rightarrow> epoch_entry list" where
  "truncate_to entries end_off = filter (\<lambda>e. ee_start e < end_off) entries"

definition assign_needed :: "epoch_entry list \<Rightarrow> int \<Rightarrow> int \<Rightarrow> bool" where
  "assign_needed entries e off \<longleftrightarrow>
     entries = [] \<or> ee_epoch (last entries) \<noteq> e \<or> off < ee_start (last entries)"

function pop_nonmonotonic :: "epoch_entry list \<Rightarrow> int \<Rightarrow> int \<Rightarrow> epoch_entry list" where
  "pop_nonmonotonic entries e off =
     (if entries \<noteq> [] \<and> (ee_epoch (last entries) \<ge> e \<or> ee_start (last entries) \<ge> off)
      then pop_nonmonotonic (butlast entries) e off else entries)"
  by pat_completeness auto
termination by (relation "measure (\<lambda>(entries, _, _). length entries)") (auto simp: length_butlast)

declare pop_nonmonotonic.simps [simp del]

definition assign_to :: "epoch_entry list \<Rightarrow> int \<Rightarrow> int \<Rightarrow> epoch_entry list" where
  "assign_to entries e off = pop_nonmonotonic entries e off @ [\<lparr>ee_epoch = e, ee_start = off\<rparr>]"

definition truncate_start_of :: "epoch_entry list \<Rightarrow> int \<Rightarrow> epoch_entry list \<times> bool" where
  "truncate_start_of entries off =
     (let removed = length (takeWhile (\<lambda>e. ee_start e \<le> off) entries) in
      if removed = 0 then (entries, False)
      else if removed = 1 \<and> ee_start (entries ! 0) = off then (entries, False)
      else (\<lparr>ee_epoch = ee_epoch (entries ! (removed - 1)), ee_start = off\<rparr> # drop removed entries, True))"

section \<open>The file (\<open>file.rs\<close>)\<close>

datatype log_error =
    LogInvalidArgument
  | LogIo
  | LogMissingFormatVersion
  | LogUnsupportedFormatVersion int
  | LogCorrupt string

definition LEADER_EPOCH_CHECKPOINT_VERSION :: int where
  "LEADER_EPOCH_CHECKPOINT_VERSION = 0"

text \<open>\<open>parse_column\<close> takes the next word of the row.\<close>

definition parse_column :: "int \<Rightarrow> int \<Rightarrow> string list \<Rightarrow> string \<Rightarrow> log_error + int \<times> string list" where
  "parse_column lo hi parts line =
     (case parts of
        [] \<Rightarrow> Inl (LogCorrupt line)
      | token # rest \<Rightarrow>
          (case parse_int lo hi token of None \<Rightarrow> Inl (LogCorrupt line) | Some i \<Rightarrow> Inr (i, rest)))"

definition parse_row :: "string \<Rightarrow> log_error + epoch_entry" where
  "parse_row line =
     (case parse_column i32_min i32_max (split_whitespace line) line of
        Inl err \<Rightarrow> Inl err
      | Inr (e, parts) \<Rightarrow>
          (case parse_column i64_min i64_max parts line of
             Inl err \<Rightarrow> Inl err
           | Inr (off, _) \<Rightarrow> Inr \<lparr>ee_epoch = e, ee_start = off\<rparr>))"

fun parse_rows :: "string list \<Rightarrow> epoch_entry list \<Rightarrow> log_error + epoch_entry list" where
  "parse_rows [] out = Inr out"
| "parse_rows (line # rows) out =
     (case parse_row line of
        Inl err \<Rightarrow> Inl err
      | Inr entry \<Rightarrow>
          if out \<noteq> [] \<and> \<not> is_strict_successor (last out) entry then Inl (LogCorrupt line)
          else parse_rows rows (out @ [entry]))"

definition parse_checkpoint :: "string \<Rightarrow> log_error + epoch_entry list" where
  "parse_checkpoint s =
     (case lines s of
        [] \<Rightarrow> Inr []
      | header # rest \<Rightarrow>
          (case parse_int i64_min i64_max header of
             None \<Rightarrow> Inl LogMissingFormatVersion
           | Some version \<Rightarrow>
               if version \<noteq> LEADER_EPOCH_CHECKPOINT_VERSION then Inl (LogUnsupportedFormatVersion version)
               else
                 (case rest of
                    [] \<Rightarrow> Inr []
                  | count_line # rows \<Rightarrow>
                      (let count = (case parse_int 0 usize_max (trim count_line) of None \<Rightarrow> 0 | Some k \<Rightarrow> nat k)
                       in parse_rows (take count rows) []))))"

definition render_row :: "epoch_entry \<Rightarrow> string" where
  "render_row e = show_int (ee_epoch e) @ CHR '' '' # show_int (ee_start e)"

definition render_checkpoint :: "epoch_entry list \<Rightarrow> string" where
  "render_checkpoint entries =
     concat (map (\<lambda>l. l @ [newline])
       ([show_int LEADER_EPOCH_CHECKPOINT_VERSION, show_nat (length entries)] @ map render_row entries))"

section \<open>The checkpoint and its mutations (\<open>mutation.rs\<close>)\<close>

record leader_epoch_checkpoint =
  lec_entries :: "epoch_entry list"
  lec_file :: "string option"

datatype file_read = FileText string | FileNotFound | FileReadError

definition open_checkpoint :: "file_read \<Rightarrow> log_error + leader_epoch_checkpoint" where
  "open_checkpoint f =
     (case f of
        FileText s \<Rightarrow>
          (case parse_checkpoint s of
             Inl err \<Rightarrow> Inl err
           | Inr es \<Rightarrow> Inr \<lparr>lec_entries = es, lec_file = Some s\<rparr>)
      | FileNotFound \<Rightarrow> Inr \<lparr>lec_entries = [], lec_file = None\<rparr>
      | FileReadError \<Rightarrow> Inl LogIo)"

definition flush_checkpoint ::
    "bool \<Rightarrow> leader_epoch_checkpoint \<Rightarrow> leader_epoch_checkpoint \<times> (log_error + unit)" where
  "flush_checkpoint write_ok c =
     (if write_ok then (c\<lparr>lec_file := Some (render_checkpoint (lec_entries c))\<rparr>, Inr ())
      else (c, Inl LogIo))"

definition flush_or_restore ::
    "bool \<Rightarrow> epoch_entry list \<Rightarrow> leader_epoch_checkpoint \<Rightarrow> leader_epoch_checkpoint \<times> (log_error + unit)" where
  "flush_or_restore write_ok previous c =
     (case flush_checkpoint write_ok c of
        (c', Inr u) \<Rightarrow> (c', Inr u)
      | (c', Inl err) \<Rightarrow> (c'\<lparr>lec_entries := previous\<rparr>, Inl err))"

definition append_epoch ::
    "bool \<Rightarrow> int \<Rightarrow> int \<Rightarrow> leader_epoch_checkpoint \<Rightarrow> leader_epoch_checkpoint \<times> (log_error + unit)" where
  "append_epoch write_ok e off c =
     (if list_ex (\<lambda>x. ee_epoch x = e) (lec_entries c) then (c, Inr ())
      else if lec_entries c \<noteq> [] \<and> \<not> is_strict_successor (last (lec_entries c)) \<lparr>ee_epoch = e, ee_start = off\<rparr>
      then (c, Inl LogInvalidArgument)
      else
        let (es, added) = append_to (lec_entries c) e off;
            c' = c\<lparr>lec_entries := es\<rparr>
        in if added then flush_checkpoint write_ok c' else (c', Inr ()))"

definition assign_epoch ::
    "bool \<Rightarrow> int \<Rightarrow> int \<Rightarrow> leader_epoch_checkpoint \<Rightarrow> leader_epoch_checkpoint \<times> (log_error + unit)" where
  "assign_epoch write_ok e off c =
     (if e < 0 \<or> off < 0 then (c, Inl LogInvalidArgument)
      else if \<not> assign_needed (lec_entries c) e off then (c, Inr ())
      else flush_or_restore write_ok (lec_entries c) (c\<lparr>lec_entries := assign_to (lec_entries c) e off\<rparr>))"

definition truncate_from_end ::
    "bool \<Rightarrow> int \<Rightarrow> leader_epoch_checkpoint \<Rightarrow> leader_epoch_checkpoint \<times> (log_error + unit)" where
  "truncate_from_end write_ok end_off c =
     (let before = length (lec_entries c);
          c' = c\<lparr>lec_entries := truncate_to (lec_entries c) end_off\<rparr>
      in if length (lec_entries c') \<noteq> before then flush_checkpoint write_ok c' else (c', Inr ()))"

definition truncate_from_start ::
    "bool \<Rightarrow> int \<Rightarrow> leader_epoch_checkpoint \<Rightarrow> leader_epoch_checkpoint \<times> (log_error + unit)" where
  "truncate_from_start write_ok off c =
     (let (es, changed) = truncate_start_of (lec_entries c) off;
          c' = c\<lparr>lec_entries := es\<rparr>
      in if changed then flush_or_restore write_ok (lec_entries c) c' else (c', Inr ()))"

definition clear_epochs ::
    "bool \<Rightarrow> leader_epoch_checkpoint \<Rightarrow> leader_epoch_checkpoint \<times> (log_error + unit)" where
  "clear_epochs write_ok c =
     (if lec_entries c = [] then (c, Inr ())
      else flush_checkpoint write_ok (c\<lparr>lec_entries := []\<rparr>))"

section \<open>The history as a function of the offset\<close>

abbreviation strictly_increasing :: "epoch_entry list \<Rightarrow> bool" where
  "strictly_increasing es \<equiv> sorted_wrt is_strict_successor es"

lemma strict_append:
  "strictly_increasing (xs @ ys) \<longleftrightarrow> strictly_increasing xs \<and> strictly_increasing ys
     \<and> (\<forall>x \<in> set xs. \<forall>y \<in> set ys. ee_epoch x < ee_epoch y \<and> ee_start x < ee_start y)"
  by (auto simp: sorted_wrt_append is_strict_successor_def)

lemma strict_filter: "strictly_increasing es \<Longrightarrow> strictly_increasing (filter P es)"
  by (rule sorted_wrt_filter)

lemma strict_parts:
  assumes "strictly_increasing es"
  shows "strictly_increasing (takeWhile P es)" "strictly_increasing (dropWhile P es)"
  using assms strict_append[of "takeWhile P es" "dropWhile P es"] by simp_all

lemma max_by_start_last:
  "strictly_increasing es \<Longrightarrow> max_by_start es = (if es = [] then None else Some (last es))"
proof (induction es)
  case (Cons e es)
  then have "es \<noteq> [] \<Longrightarrow> ee_start e \<le> ee_start (last es)"
    by (auto simp: is_strict_successor_def less_imp_le)
  with Cons show ?case by simp
qed simp

lemma epoch_for_offset_strict:
  assumes "strictly_increasing es"
  shows "epoch_for_offset es off =
    (let xs = filter (\<lambda>e. ee_start e \<le> off) es in if xs = [] then None else Some (ee_epoch (last xs)))"
  using max_by_start_last[OF strict_filter[OF assms]] by (simp add: epoch_for_offset_def Let_def)

lemma epoch_for_offset_append:
  assumes "strictly_increasing (xs @ ys)"
  shows "epoch_for_offset (xs @ ys) off =
    (if \<exists>e \<in> set ys. ee_start e \<le> off then epoch_for_offset ys off else epoch_for_offset xs off)"
proof -
  have s: "strictly_increasing xs" "strictly_increasing ys" using assms by (simp_all add: strict_append)
  show ?thesis
    by (auto simp: epoch_for_offset_strict[OF assms] epoch_for_offset_strict[OF s(1)]
        epoch_for_offset_strict[OF s(2)] filter_empty_conv Let_def)
qed

lemma epoch_for_offset_mem:
  assumes "strictly_increasing es" "epoch_for_offset es off = Some k"
  shows "\<exists>e \<in> set es. ee_epoch e = k \<and> ee_start e \<le> off"
proof -
  let ?xs = "filter (\<lambda>e. ee_start e \<le> off) es"
  have "?xs \<noteq> []" "k = ee_epoch (last ?xs)"
    using assms by (auto simp: epoch_for_offset_strict Let_def split: if_splits)
  with last_in_set[of ?xs] show ?thesis by auto
qed

lemma epoch_for_offset_defined:
  assumes "strictly_increasing es" "es \<noteq> []" "ee_start (hd es) \<le> off"
  shows "epoch_for_offset es off \<noteq> None"
  using assms by (cases es) (auto simp: epoch_for_offset_strict Let_def)

lemma higher_position_eq:
  "higher_position r i es = i + length (takeWhile (\<lambda>e. ee_epoch e \<le> r) es)"
  by (induction es arbitrary: i) auto

text \<open>The mutations, on strictly increasing entries, as filters.\<close>

lemma pop_nonmonotonic_filter:
  "strictly_increasing es \<Longrightarrow>
   pop_nonmonotonic es e off = filter (\<lambda>x. ee_epoch x < e \<and> ee_start x < off) es"
proof (induction es rule: rev_induct)
  case Nil
  show ?case by (simp add: pop_nonmonotonic.simps)
next
  case (snoc x xs)
  have xs: "strictly_increasing xs" and below: "\<forall>y \<in> set xs. ee_epoch y < ee_epoch x \<and> ee_start y < ee_start x"
    using snoc.prems by (auto simp: strict_append)
  note IH = snoc.IH[OF xs]
  show ?case
  proof (cases "ee_epoch x < e \<and> ee_start x < off")
    case True
    then have "filter (\<lambda>x. ee_epoch x < e \<and> ee_start x < off) xs = xs"
      using below by (auto simp: filter_id_conv)
    with True show ?thesis by (simp add: pop_nonmonotonic.simps[of "xs @ [x]" e off])
  next
    case False
    then have "pop_nonmonotonic (xs @ [x]) e off = pop_nonmonotonic xs e off"
      by (subst pop_nonmonotonic.simps) auto
    with False IH show ?thesis by simp
  qed
qed

lemma strict_assign: "strictly_increasing es \<Longrightarrow> strictly_increasing (assign_to es e off)"
  by (auto simp: assign_to_def pop_nonmonotonic_filter strict_append strict_filter)

lemma strict_truncate_to: "strictly_increasing es \<Longrightarrow> strictly_increasing (truncate_to es off)"
  by (simp add: truncate_to_def strict_filter)

lemma truncate_start_cases:
  obtains (keep) "truncate_start_of es off = (es, False)"
  | (cut) xs e ys where "es = xs @ e # ys" "xs @ [e] = takeWhile (\<lambda>x. ee_start x \<le> off) es"
      "truncate_start_of es off = (\<lparr>ee_epoch = ee_epoch e, ee_start = off\<rparr> # ys, True)"
proof (cases "takeWhile (\<lambda>x. ee_start x \<le> off) es" rule: rev_cases)
  case Nil
  then show ?thesis using keep by (simp add: truncate_start_of_def)
next
  case (snoc xs e)
  let ?ys = "dropWhile (\<lambda>x. ee_start x \<le> off) es"
  have es: "es = xs @ e # ?ys"
    using takeWhile_dropWhile_id[of "\<lambda>x. ee_start x \<le> off" es] unfolding snoc by simp
  have pos: "drop (Suc (length xs)) es = ?ys" "es ! length xs = e"
    by (subst es, simp)+
  show ?thesis
  proof (cases "xs = [] \<and> ee_start (es ! 0) = off")
    case True
    with snoc show ?thesis by (intro keep) (simp add: truncate_start_of_def Let_def)
  next
    case False
    with snoc pos show ?thesis
      by (intro cut[OF es snoc[symmetric]]) (auto simp: truncate_start_of_def Let_def)
  qed
qed

lemma strict_truncate_start:
  assumes "strictly_increasing es"
  shows "strictly_increasing (fst (truncate_start_of es off))"
proof (cases rule: truncate_start_cases[of es off])
  case (cut xs e ys)
  have "ys = dropWhile (\<lambda>x. ee_start x \<le> off) es"
    using takeWhile_dropWhile_id[of "\<lambda>x. ee_start x \<le> off" es] cut(1,2)
    by (metis append_Cons append_Nil append_assoc same_append_eq)
  then have ys: "strictly_increasing ys" "ys \<noteq> [] \<Longrightarrow> off < ee_start (hd ys)"
    using strict_parts(2)[OF assms] hd_dropWhile[of "\<lambda>x. ee_start x \<le> off" es] by (auto simp: not_le)
  have "\<forall>y \<in> set ys. off < ee_start y"
  proof (cases ys)
    case (Cons y zs)
    with ys show ?thesis by (auto simp: is_strict_successor_def)
  qed simp
  with assms cut show ?thesis by (auto simp: strict_append is_strict_successor_def)
qed (use assms in simp)

text \<open>
  The split of a history at a requested epoch: \<open>xs\<close> up to it, \<open>ys\<close> above it, with
  the positions the lookup reads.
\<close>

definition epoch_split :: "epoch_entry list \<Rightarrow> int \<Rightarrow> epoch_entry list \<Rightarrow> epoch_entry list \<Rightarrow> bool" where
  "epoch_split es r xs ys \<longleftrightarrow>
     es = xs @ ys \<and> higher_position r 0 es = length xs
     \<and> (\<forall>e \<in> set xs. ee_epoch e \<le> r \<and> ee_epoch e \<le> ee_epoch (last xs))
     \<and> (\<forall>e \<in> set ys. r < ee_epoch e \<and> ee_start (hd ys) \<le> ee_start e)
     \<and> (xs \<noteq> [] \<longrightarrow> es ! (length xs - 1) = last xs) \<and> (ys \<noteq> [] \<longrightarrow> es ! length xs = hd ys)"

lemma epoch_split_exists:
  assumes s: "strictly_increasing es"
  shows "\<exists>xs ys. epoch_split es r xs ys"
proof -
  define xs where "xs = takeWhile (\<lambda>e. ee_epoch e \<le> r) es"
  define ys where "ys = dropWhile (\<lambda>e. ee_epoch e \<le> r) es"
  have es: "es = xs @ ys" by (simp add: xs_def ys_def)
  have low: "\<forall>e \<in> set xs. ee_epoch e \<le> r" by (auto simp: xs_def dest: set_takeWhileD)
  have sx: "strictly_increasing xs" "strictly_increasing ys" using s by (simp_all add: xs_def ys_def strict_parts)
  have hd: "ys \<noteq> [] \<Longrightarrow> r < ee_epoch (hd ys)"
    using hd_dropWhile[of "\<lambda>e. ee_epoch e \<le> r" es] by (auto simp: ys_def not_le)
  have high: "\<forall>e \<in> set ys. r < ee_epoch e \<and> ee_start (hd ys) \<le> ee_start e"
    using hd sx(2) by (cases ys) (auto simp: is_strict_successor_def)
  have last: "\<forall>e \<in> set xs. ee_epoch e \<le> ee_epoch (last xs)"
    using sx(1) by (cases xs rule: rev_cases) (auto simp: strict_append)
  have nth: "xs \<noteq> [] \<longrightarrow> es ! (length xs - 1) = last xs" "ys \<noteq> [] \<longrightarrow> es ! length xs = hd ys"
    unfolding es by (simp_all add: nth_append last_conv_nth hd_conv_nth)
  have "higher_position r 0 es = length xs" by (simp add: higher_position_eq xs_def)
  with es low last high nth show ?thesis unfolding epoch_split_def by blast
qed

lemma epoch_split_owner:
  assumes s: "strictly_increasing es" and sp: "epoch_split es r xs ys" and k: "epoch_for_offset es off = Some k"
  shows "ys = [] \<Longrightarrow> k \<le> r" "ys \<noteq> [] \<Longrightarrow> k \<le> r \<longleftrightarrow> off < ee_start (hd ys)"
proof -
  have es: "es = xs @ ys" using sp by (simp add: epoch_split_def)
  have sx: "strictly_increasing xs" "strictly_increasing ys" using s by (simp_all add: es strict_append)
  let ?in = "\<exists>e \<in> set ys. ee_start e \<le> off"
  have owner: "epoch_for_offset es off = (if ?in then epoch_for_offset ys off else epoch_for_offset xs off)"
    using epoch_for_offset_append[of xs ys off] s es by simp
  have "k \<le> r \<longleftrightarrow> \<not> ?in"
  proof (cases ?in)
    case True
    with owner k have "epoch_for_offset ys off = Some k" by simp
    from epoch_for_offset_mem[OF sx(2) this] sp True show ?thesis by (fastforce simp: epoch_split_def)
  next
    case False
    with owner k have "epoch_for_offset xs off = Some k" by simp
    from epoch_for_offset_mem[OF sx(1) this] sp False show ?thesis by (fastforce simp: epoch_split_def)
  qed
  moreover have "?in \<longleftrightarrow> \<not> off < ee_start (hd ys)" if "ys \<noteq> []"
    using sp that list.set_sel(1)[OF that] by (fastforce simp: epoch_split_def not_less)
  ultimately show "ys = [] \<Longrightarrow> k \<le> r" "ys \<noteq> [] \<Longrightarrow> k \<le> r \<longleftrightarrow> off < ee_start (hd ys)" by auto
qed

lemma strict_snoc:
  assumes "strictly_increasing es" "es = [] \<or> is_strict_successor (last es) e"
  shows "strictly_increasing (es @ [e])"
  using assms by (cases es rule: rev_cases) (auto simp: sorted_wrt_append is_strict_successor_def)

section \<open>The contract of an epoch history\<close>

text \<open>
  What the log relies on: a history gives each offset the epoch that owned it;
  recording an epoch at an offset changes it from there on, and the two
  truncations change nothing inside the range they keep.
\<close>

locale epoch_history =
  fixes invar :: "'h \<Rightarrow> bool"
    and own :: "'h \<Rightarrow> int \<Rightarrow> int option"
    and put :: "'h \<Rightarrow> int \<Rightarrow> int \<Rightarrow> 'h"
    and cut_end :: "'h \<Rightarrow> int \<Rightarrow> 'h"
    and cut_start :: "'h \<Rightarrow> int \<Rightarrow> 'h"
  assumes invar_put: "invar h \<Longrightarrow> invar (put h e x)"
    and invar_cut_end: "invar h \<Longrightarrow> invar (cut_end h x)"
    and invar_cut_start: "invar h \<Longrightarrow> invar (cut_start h x)"
    and own_put: "invar h \<Longrightarrow> x \<le> off \<Longrightarrow> own (put h e x) off = Some e"
    and own_put_below: "invar h \<Longrightarrow> off < x \<Longrightarrow> \<forall>y k. own h y = Some k \<longrightarrow> k < e \<Longrightarrow>
      own (put h e x) off = own h off"
    and own_cut_end: "invar h \<Longrightarrow> off < x \<Longrightarrow> own (cut_end h x) off = own h off"
    and own_cut_start: "invar h \<Longrightarrow> x \<le> off \<Longrightarrow> own (cut_start h x) off = own h off"
begin

text \<open>An epoch that wrote nothing is undone by truncating the log to its start.\<close>

lemma put_undone:
  assumes "invar h" "\<forall>y k. own h y = Some k \<longrightarrow> k < e" "off < x"
  shows "own (cut_end (put h e x) x) off = own h off"
  using assms by (simp add: own_cut_end invar_put own_put_below)

text \<open>Between the two ends of the log every offset keeps its epoch.\<close>

lemma window_kept:
  assumes "invar h" "x \<le> off" "off < y"
  shows "own (cut_end (cut_start h x) y) off = own h off"
  using assms by (simp add: own_cut_end own_cut_start invar_cut_start)

end

lemma truncate_to_lookup:
  assumes "strictly_increasing es" "off < x"
  shows "epoch_for_offset (truncate_to es x) off = epoch_for_offset es off"
proof -
  have "filter (\<lambda>e. ee_start e \<le> off) (truncate_to es x) = filter (\<lambda>e. ee_start e \<le> off) es"
    using assms(2) by (auto simp: truncate_to_def intro: filter_cong)
  then show ?thesis by (simp add: epoch_for_offset_def)
qed

lemma truncate_start_lookup:
  assumes "strictly_increasing es" "x \<le> off"
  shows "epoch_for_offset (fst (truncate_start_of es x)) off = epoch_for_offset es off"
proof (cases rule: truncate_start_cases[of es x])
  case (cut xs e ys)
  have all: "\<forall>y \<in> set (xs @ [e]). ee_start y \<le> x" unfolding cut(2) by (auto dest: set_takeWhileD)
  have s: "strictly_increasing (\<lparr>ee_epoch = ee_epoch e, ee_start = x\<rparr> # ys)"
    using strict_truncate_start[OF assms(1), of x] cut(3) by simp
  have l: "strictly_increasing (xs @ e # ys)" using assms(1) cut(1) by simp
  have "epoch_for_offset (\<lparr>ee_epoch = ee_epoch e, ee_start = x\<rparr> # ys) off = epoch_for_offset (xs @ e # ys) off"
    using all assms(2) by (auto simp: epoch_for_offset_strict[OF s] epoch_for_offset_strict[OF l] Let_def)
  then show ?thesis unfolding cut(3) using cut(1) by simp
qed simp

lemma assign_lookup:
  assumes "strictly_increasing es"
  shows "epoch_for_offset (assign_to es e x) off =
    (if x \<le> off then Some e else epoch_for_offset (filter (\<lambda>y. ee_epoch y < e) es) off)"
proof (cases "x \<le> off")
  case True
  then show ?thesis
    using epoch_for_offset_strict[OF strict_assign[OF assms, of e x], of off] by (simp add: assign_to_def Let_def)
next
  case False
  have "filter (\<lambda>y. ee_start y \<le> off) (assign_to es e x)
      = filter (\<lambda>y. ee_start y \<le> off) (filter (\<lambda>y. ee_epoch y < e) es)"
    using False by (auto simp: assign_to_def pop_nonmonotonic_filter[OF assms] intro: filter_cong)
  with False show ?thesis by (simp add: epoch_for_offset_def)
qed

lemma all_below:
  assumes "strictly_increasing es" "\<forall>y k. epoch_for_offset es y = Some k \<longrightarrow> k < e" "x \<in> set es"
  shows "ee_epoch x < e"
proof -
  obtain xs ys where es: "es = xs @ x # ys" using split_list[OF assms(3)] by blast
  have "epoch_for_offset es (ee_start x) = Some (ee_epoch x)"
  proof -
    have "filter (\<lambda>y. ee_start y \<le> ee_start x) ys = []"
      using assms(1) unfolding es by (auto simp: strict_append is_strict_successor_def filter_empty_conv)
    then show ?thesis using epoch_for_offset_strict[OF assms(1)] by (simp add: es Let_def)
  qed
  with assms(2) show ?thesis by blast
qed

interpretation entry_history: epoch_history strictly_increasing epoch_for_offset assign_to truncate_to
  "\<lambda>es x. fst (truncate_start_of es x)"
proof
  fix es :: "epoch_entry list" and e x off :: int
  assume s: "strictly_increasing es"
  show "strictly_increasing (assign_to es e x)" by (rule strict_assign[OF s])
  show "strictly_increasing (truncate_to es x)" by (rule strict_truncate_to[OF s])
  show "strictly_increasing (fst (truncate_start_of es x))" by (rule strict_truncate_start[OF s])
  show "x \<le> off \<Longrightarrow> epoch_for_offset (assign_to es e x) off = Some e" by (simp add: assign_lookup[OF s])
  show "off < x \<Longrightarrow> epoch_for_offset (truncate_to es x) off = epoch_for_offset es off"
    by (rule truncate_to_lookup[OF s])
  show "x \<le> off \<Longrightarrow> epoch_for_offset (fst (truncate_start_of es x)) off = epoch_for_offset es off"
    by (rule truncate_start_lookup[OF s])
  assume "off < x" and "\<forall>y k. epoch_for_offset es y = Some k \<longrightarrow> k < e"
  then have "filter (\<lambda>y. ee_epoch y < e) es = es" using all_below[OF s] by (auto simp: filter_id_conv)
  with \<open>off < x\<close> show "epoch_for_offset (assign_to es e x) off = epoch_for_offset es off"
    by (simp add: assign_lookup[OF s])
qed

section \<open>The file round trip\<close>

definition entry_ok :: "epoch_entry \<Rightarrow> bool" where
  "entry_ok e \<longleftrightarrow> i32_min \<le> ee_epoch e \<and> ee_epoch e \<le> i32_max \<and> i64_range (ee_start e)"

lemma render_row_plain: "plain (render_row e)"
  using show_int_word[of "ee_epoch e"] show_int_word[of "ee_start e"] by (auto simp: render_row_def plain_def)

lemma parse_render_row: "entry_ok e \<Longrightarrow> parse_row (render_row e) = Inr e"
  using show_int_word[of "ee_epoch e"] show_int_word[of "ee_start e"]
  by (simp add: parse_row_def render_row_def split_whitespace_two parse_column_def parse_int_show_int
      entry_ok_def i64_range_def)

lemma parse_rows_render:
  "list_all entry_ok es \<Longrightarrow> strictly_increasing (out @ es) \<Longrightarrow>
   parse_rows (map render_row es) out = Inr (out @ es)"
proof (induction es arbitrary: out)
  case (Cons e es)
  have "out = [] \<or> is_strict_successor (last out) e"
    using Cons.prems(2) last_in_set[of out] unfolding sorted_wrt_append by (cases "out = []") auto
  with Cons show ?case by (auto simp: parse_render_row)
qed simp

lemma parse_rows_strict:
  "parse_rows rows out = Inr es \<Longrightarrow> strictly_increasing out \<Longrightarrow> strictly_increasing es"
proof (induction rows out rule: parse_rows.induct)
  case (2 line rows out)
  then show ?case using strict_snoc[of out] by (auto split: sum.splits if_splits)
qed simp

lemma open_checkpoint_strict: "open_checkpoint f = Inr c \<Longrightarrow> strictly_increasing (lec_entries c)"
  by (auto simp: open_checkpoint_def parse_checkpoint_def Let_def dest!: parse_rows_strict
      split: file_read.splits sum.splits list.splits option.splits if_splits)

text \<open>Strictly increasing 32-bit epochs cannot outgrow the row count of the header.\<close>

lemma entry_count_fits:
  assumes "strictly_increasing es" "list_all entry_ok es"
  shows "int (length es) \<le> usize_max"
proof -
  have "sorted_wrt (<) (map ee_epoch es)"
    unfolding sorted_wrt_map
    by (rule sorted_wrt_mono_rel[OF _ assms(1)]) (simp add: is_strict_successor_def)
  then have "length es = card (ee_epoch ` set es)"
    using distinct_card[of "map ee_epoch es"] strict_sorted_iff[of "map ee_epoch es"] by simp
  also have "\<dots> \<le> card {i32_min..i32_max}"
    using assms(2) by (intro card_mono) (auto simp: list_all_iff entry_ok_def)
  finally show ?thesis by (simp add: i32_min_def i32_max_def usize_max_def)
qed

lemma parse_render_checkpoint:
  assumes "strictly_increasing es" "list_all entry_ok es"
  shows "parse_checkpoint (render_checkpoint es) = Inr es"
proof -
  let ?rows = "[show_int LEADER_EPOCH_CHECKPOINT_VERSION, show_nat (length es)] @ map render_row es"
  have count: "show_nat (length es) = show_int (int (length es))" by (simp add: show_int_def)
  have "\<forall>l \<in> set ?rows. plain l"
    using show_int_word render_row_plain by (auto simp: count)
  then have "lines (render_checkpoint es) = ?rows" unfolding render_checkpoint_def by (rule lines_concat)
  moreover have "parse_int 0 usize_max (trim (show_nat (length es))) = Some (int (length es))"
    using show_int_word[of "int (length es)"] entry_count_fits[OF assms]
    by (simp add: count trim_word parse_int_show_int)
  moreover have "parse_int i64_min i64_max (show_int 0) = Some 0"
    by (rule parse_int_show_int) (simp_all add: i64_min_def i64_max_def)
  ultimately show ?thesis
    using parse_rows_render[of es "[]"] assms
    by (simp add: parse_checkpoint_def LEADER_EPOCH_CHECKPOINT_VERSION_def)
qed

text \<open>Memory and file agree: opening the file again gives the entries in memory.\<close>

definition in_sync :: "leader_epoch_checkpoint \<Rightarrow> bool" where
  "in_sync c \<longleftrightarrow>
     open_checkpoint (case lec_file c of None \<Rightarrow> FileNotFound | Some s \<Rightarrow> FileText s) = Inr c"

lemma in_sync_written:
  "strictly_increasing es \<Longrightarrow> list_all entry_ok es \<Longrightarrow>
   in_sync \<lparr>lec_entries = es, lec_file = Some (render_checkpoint es)\<rparr>"
  by (simp add: in_sync_def open_checkpoint_def parse_render_checkpoint)

lemma flush_in_sync:
  assumes "strictly_increasing (lec_entries c)" "list_all entry_ok (lec_entries c)"
  shows "in_sync (fst (flush_checkpoint True c))"
  using in_sync_written[OF assms] by (cases c) (simp add: flush_checkpoint_def)

lemma truncate_start_unchanged: "truncate_start_of es off = (es', False) \<Longrightarrow> es' = es"
  by (auto simp: truncate_start_of_def Let_def split: if_splits)

lemma truncate_to_unchanged: "length (truncate_to es x) = length es \<Longrightarrow> truncate_to es x = es"
  unfolding truncate_to_def by (metis filter_id_conv length_filter_less less_irrefl)

lemma entries_ok_kept:
  assumes "list_all entry_ok es"
  shows "list_all entry_ok (truncate_to es x)"
    and "entry_ok \<lparr>ee_epoch = e, ee_start = x\<rparr> \<Longrightarrow> list_all entry_ok (assign_to es e x)"
    and "i64_range x \<Longrightarrow> list_all entry_ok (fst (truncate_start_of es x))"
proof -
  show "list_all entry_ok (truncate_to es x)" using assms by (auto simp: truncate_to_def list_all_iff)
  have "set (pop_nonmonotonic es e x) \<subseteq> set es"
    by (induction es e x rule: pop_nonmonotonic.induct)
      (subst pop_nonmonotonic.simps, auto dest: in_set_butlastD)
  then show "entry_ok \<lparr>ee_epoch = e, ee_start = x\<rparr> \<Longrightarrow> list_all entry_ok (assign_to es e x)"
    using assms by (auto simp: assign_to_def list_all_iff)
  have "entry_ok (es ! (length (takeWhile P es) - 1))" if "0 < length (takeWhile P es)" for P
  proof -
    have "length (takeWhile P es) - 1 < length es"
      using that length_takeWhile_le[of P es] by linarith
    then show ?thesis using assms by (simp add: list_all_iff)
  qed
  then show "i64_range x \<Longrightarrow> list_all entry_ok (fst (truncate_start_of es x))"
    using assms by (auto simp: truncate_start_of_def Let_def list_all_iff entry_ok_def dest: in_set_dropD)
qed

section \<open>Properties\<close>

text \<open>
  C20: the divergence lookup separates the log: for a requested epoch it can place,
  the offsets of the log below the end offset it returns are exactly those owned by
  an epoch up to the requested one, and the epoch it names is the greatest recorded
  one up to it, or the requested one if none is.
\<close>

theorem divergence_lookup_separates:
  assumes s: "strictly_increasing es" and ans: "epoch_and_offset_for_entries es r log_end = (found, x)"
    and "found \<noteq> UNDEFINED_EPOCH" "ee_start (hd es) \<le> off" "off < log_end"
  shows "\<exists>k. epoch_for_offset es off = Some k \<and> (off < x \<longleftrightarrow> k \<le> r) \<and> found \<le> r
    \<and> (\<forall>e \<in> set es. ee_epoch e \<le> r \<longrightarrow> ee_epoch e \<le> found)"
proof -
  obtain xs ys where sp: "epoch_split es r xs ys" using epoch_split_exists[OF s] by blast
  have "es \<noteq> []" using ans assms(3) by (auto simp: epoch_and_offset_for_entries_def split: if_splits)
  then obtain k where k: "epoch_for_offset es off = Some k"
    using epoch_for_offset_defined[OF s _ assms(4)] by blast
  note own = epoch_split_owner[OF s sp k]
  show ?thesis
  proof (cases "ys = []")
    case True
    with ans assms(3) sp \<open>es \<noteq> []\<close> have "found = r" "x = log_end"
      by (auto simp: epoch_and_offset_for_entries_def epoch_split_def split: if_splits)
    with k own True sp assms(5) show ?thesis by (auto simp: epoch_split_def)
  next
    case False
    have "x = ee_start (hd ys)" "found = (if xs = [] then r else ee_epoch (last xs))"
      using ans assms(3) sp False
      by (auto simp: epoch_and_offset_for_entries_def epoch_split_def Let_def split: if_splits)
    moreover have "\<forall>e \<in> set es. ee_epoch e \<le> r \<longrightarrow> e \<in> set xs \<and> ee_epoch e \<le> ee_epoch (last xs)"
      using sp by (fastforce simp: epoch_split_def)
    moreover have "xs \<noteq> [] \<longrightarrow> ee_epoch (last xs) \<le> r" using sp by (simp add: epoch_split_def)
    ultimately show ?thesis using k own(2)[OF False] by auto
  qed
qed

theorem divergence_lookup_separates_witness:
  "\<exists>k. epoch_for_offset [\<lparr>ee_epoch = 1, ee_start = 0\<rparr>, \<lparr>ee_epoch = 4, ee_start = 50\<rparr>] 60 = Some k
     \<and> (60 < (50 :: int)) = (k \<le> 2)"
proof -
  let ?es = "[\<lparr>ee_epoch = 1, ee_start = 0\<rparr>, \<lparr>ee_epoch = 4, ee_start = 50\<rparr>]"
  have "strictly_increasing ?es" by (simp add: is_strict_successor_def)
  moreover have "epoch_and_offset_for_entries ?es 2 90 = (1, 50)"
    by (simp add: epoch_and_offset_for_entries_def UNDEFINED_EPOCH_def)
  ultimately show ?thesis
    using divergence_lookup_separates[of ?es 2 90 1 50 60] by (auto simp: UNDEFINED_EPOCH_def)
qed



text \<open>
  C24: every mutation keeps the entries strictly increasing in epoch and offset,
  whether or not the file could be written, and a file that opens gives strictly
  increasing entries.
\<close>

theorem mutations_keep_order:
  assumes "strictly_increasing (lec_entries c)"
  shows "strictly_increasing (lec_entries (fst (append_epoch w e off c)))
    \<and> strictly_increasing (lec_entries (fst (assign_epoch w e off c)))
    \<and> strictly_increasing (lec_entries (fst (truncate_from_end w off c)))
    \<and> strictly_increasing (lec_entries (fst (truncate_from_start w off c)))
    \<and> strictly_increasing (lec_entries (fst (clear_epochs w c)))
    \<and> (\<forall>f c0. open_checkpoint f = Inr c0 \<longrightarrow> strictly_increasing (lec_entries c0))"
proof -
  have "strictly_increasing (lec_entries c @ [\<lparr>ee_epoch = e, ee_start = off\<rparr>])"
    if "lec_entries c = [] \<or> is_strict_successor (last (lec_entries c)) \<lparr>ee_epoch = e, ee_start = off\<rparr>"
    using assms that by (rule strict_snoc)
  then show ?thesis
    using assms open_checkpoint_strict strict_assign strict_truncate_to strict_truncate_start[OF assms, of off]
    by (auto simp: append_epoch_def append_to_def assign_epoch_def truncate_from_end_def truncate_from_start_def
        clear_epochs_def flush_or_restore_def flush_checkpoint_def Let_def case_prod_beta)
qed

theorem mutations_keep_order_witness:
  "strictly_increasing (lec_entries (fst (append_epoch True 4 50
     \<lparr>lec_entries = [\<lparr>ee_epoch = 1, ee_start = 0\<rparr>], lec_file = None\<rparr>)))"
  using mutations_keep_order[of "\<lparr>lec_entries = [\<lparr>ee_epoch = 1, ee_start = 0\<rparr>], lec_file = None\<rparr>" True 4 50]
  by simp

text \<open>
  C23: the file format round-trips: reading what was written for strictly increasing
  entries with 32-bit epochs and 64-bit offsets gives the entries back.
\<close>

theorem checkpoint_file_round_trip:
  assumes "strictly_increasing es" "list_all entry_ok es"
  shows "parse_checkpoint (render_checkpoint es) = Inr es"
  using assms by (rule parse_render_checkpoint)

theorem checkpoint_file_round_trip_witness:
  "parse_checkpoint (render_checkpoint [\<lparr>ee_epoch = 0, ee_start = 0\<rparr>, \<lparr>ee_epoch = 2, ee_start = 100\<rparr>])
     = Inr [\<lparr>ee_epoch = 0, ee_start = 0\<rparr>, \<lparr>ee_epoch = 2, ee_start = 100\<rparr>]"
  by (rule checkpoint_file_round_trip)
    (simp_all add: is_strict_successor_def entry_ok_def i64_range_def i32_min_def i32_max_def i64_min_def
      i64_max_def)

text \<open>
  C25: when the file cannot be written, \<open>assign\<close> and \<open>truncate_from_start\<close> report the
  error and leave the checkpoint as it was, so a retry does the work again.
\<close>

theorem failed_write_changes_nothing:
  "fst (assign_epoch False e off c) = c \<and> fst (truncate_from_start False off c) = c"
proof -
  have "es = lec_entries c \<or> changed" if "truncate_start_of (lec_entries c) off = (es, changed)" for es changed
    using that by (auto simp: truncate_start_of_def Let_def split: if_splits)
  then show ?thesis
    by (auto simp: assign_epoch_def truncate_from_start_def flush_or_restore_def flush_checkpoint_def Let_def
        split: prod.splits)
qed

text \<open>
  C22: memory and file stay in step: when every write succeeds, each mutation of a
  checkpoint whose file opens to it gives a checkpoint whose file opens to it.
\<close>

theorem mutations_are_durable:
  assumes "in_sync c" "list_all entry_ok (lec_entries c)" "entry_ok \<lparr>ee_epoch = e, ee_start = off\<rparr>"
  shows "in_sync (fst (append_epoch True e off c)) \<and> in_sync (fst (assign_epoch True e off c))
    \<and> in_sync (fst (truncate_from_end True off c)) \<and> in_sync (fst (truncate_from_start True off c))
    \<and> in_sync (fst (clear_epochs True c))"
proof -
  have s: "strictly_increasing (lec_entries c)" using assms(1) open_checkpoint_strict by (auto simp: in_sync_def)
  have "i64_range off" using assms(3) by (simp add: entry_ok_def)
  note ok = entries_ok_kept(1)[OF assms(2)] entries_ok_kept(2)[OF assms(2,3)] entries_ok_kept(3)[OF assms(2) this]
  have restore: "fst (flush_or_restore True es c1) = fst (flush_checkpoint True c1)" for es c1
    by (simp add: flush_or_restore_def flush_checkpoint_def)
  have "in_sync (fst (append_epoch True e off c))"
    using assms strict_snoc[OF s] flush_in_sync
    by (auto simp: append_epoch_def append_to_def Let_def list_ex_iff)
  moreover have "in_sync (fst (assign_epoch True e off c))"
    using assms(1) strict_assign[OF s] ok(2) by (simp add: assign_epoch_def restore flush_in_sync)
  moreover have "in_sync (fst (truncate_from_end True off c))"
    using assms(1) strict_truncate_to[OF s] ok(1) by (simp add: truncate_from_end_def Let_def flush_in_sync truncate_to_unchanged)
  moreover have "in_sync (fst (truncate_from_start True off c))"
    using assms(1) strict_truncate_start[OF s, of off] ok(3) truncate_start_unchanged[of "lec_entries c" off]
    by (auto simp: truncate_from_start_def restore flush_in_sync Let_def split: prod.splits)
  moreover have "in_sync (fst (clear_epochs True c))"
    using assms(1) by (simp add: clear_epochs_def flush_in_sync)
  ultimately show ?thesis by blast
qed

theorem mutations_are_durable_witness:
  "in_sync (fst (append_epoch True 4 50 \<lparr>lec_entries = [], lec_file = None\<rparr>))"
  using mutations_are_durable[of "\<lparr>lec_entries = [], lec_file = None\<rparr>" 4 50]
  by (simp add: in_sync_def open_checkpoint_def entry_ok_def i64_range_def i32_min_def i32_max_def i64_min_def i64_max_def)

text \<open>
  \<open>append\<close>, \<open>truncate_from_end\<close> and \<open>clear\<close> keep the new entries in memory when the
  write fails; a retry then finds nothing to do and reports success with the old
  file still in place.
\<close>

lemma failed_append_lost_on_retry:
  "\<exists>c. append_epoch False 4 50 \<lparr>lec_entries = [], lec_file = None\<rparr> = (c, Inl LogIo)
     \<and> append_epoch True 4 50 c = (c, Inr ()) \<and> lec_file c = None \<and> lec_entries c \<noteq> []"
  by (simp add: append_epoch_def append_to_def flush_checkpoint_def)

end
