(* ===== verification/Quorum_State_File.thy ===== *)
theory Quorum_State_File
  imports Text_Format Quorum_Types
begin

text \<open>
  The durable quorum state of a controller
  (\<open>crates/raft/src/kraft/controller/quorum_state_file.rs\<close> and the kernels of
  \<open>crates/verified/src/quorum_state.rs\<close>): what is written for a state, what is
  refused, and what a restart reads back.

  The JSON text itself comes from the crate \<open>serde_json\<close>; a file is the document
  it parses to, its \<open>data_version\<close> and the fields if they parse at that version.
  The textual forms of a UUID come from the crates \<open>uuid\<close> and \<open>base64\<close> and are the
  parameters \<open>uuid_text\<close>; the law a reader relies on is that decoding undoes
  encoding.
\<close>

record uuid_text =
  ut_show :: "uuid \<Rightarrow> string"
  ut_encode :: "uuid \<Rightarrow> string"
  ut_decode :: "string \<Rightarrow> uuid option"

section \<open>Write and load decisions (\<open>verified/src/quorum_state.rs\<close>)\<close>

datatype quorum_state_write_decision = WriteReject | WriteAccept

definition decide_quorum_state_write ::
    "u16 \<Rightarrow> u32 \<Rightarrow> bool \<Rightarrow> u64 \<Rightarrow> bool \<Rightarrow> u64 \<Rightarrow> bool \<Rightarrow> quorum_state_write_decision" where
  "decide_quorum_state_write version epoch' has_leader leader has_vote voted all_voter_ids_fit =
     (if version > 1 \<or> epoch' > 2147483647 \<or> (has_leader \<and> leader > 2147483647)
         \<or> (has_vote \<and> voted > 2147483647) \<or> (version = 0 \<and> \<not> all_voter_ids_fit)
      then WriteReject else WriteAccept)"

datatype quorum_state_load_decision = LoadReject | RestoreNoVote | RestoreVote

definition decide_quorum_state_load ::
    "int \<Rightarrow> int \<Rightarrow> int \<Rightarrow> bool \<Rightarrow> bool \<Rightarrow> bool \<Rightarrow> quorum_state_load_decision" where
  "decide_quorum_state_load version epoch' voted fields_valid directory_valid directory_nil =
     (if (version \<noteq> 0 \<and> version \<noteq> 1) \<or> epoch' < 0 \<or> voted < - 1 \<or> \<not> fields_valid
         \<or> (version = 1 \<and> \<not> directory_valid) \<or> (version = 1 \<and> voted = - 1 \<and> \<not> directory_nil)
      then LoadReject
      else if voted = - 1 then RestoreNoVote
      else RestoreVote)"

section \<open>The file (\<open>quorum_state_file.rs\<close>)\<close>

definition QUORUM_STATE_LOWEST_DATA_VERSION :: int where "QUORUM_STATE_LOWEST_DATA_VERSION = 0"
definition QUORUM_STATE_HIGHEST_DATA_VERSION :: int where "QUORUM_STATE_HIGHEST_DATA_VERSION = 1"

record quorum_state_json =
  qj_cluster_id :: "string option"
  qj_leader_id :: int
  qj_leader_epoch :: int
  qj_voted_id :: int
  qj_voted_directory_id :: "string option"
  qj_applied_offset :: "int option"
  qj_current_voters :: "int list option"
  qj_data_version :: int

datatype quorum_file =
    QuorumFileMissing
  | QuorumFileUnreadable
  | QuorumFileMalformed
  | QuorumFileDocument int "quorum_state_json option"

datatype quorum_file_error =
    QuorumUnrepresentable
  | QuorumStorage
  | QuorumMalformed
  | QuorumUnsupportedVersion int

definition i32_try_from :: "'a::len word \<Rightarrow> int option" where
  "i32_try_from w = (if uint w \<le> i32_max then Some (uint w) else None)"

fun collect_some :: "'a option list \<Rightarrow> 'a list option" where
  "collect_some [] = Some []"
| "collect_some (None # _) = None"
| "collect_some (Some x # xs) = map_option (Cons x) (collect_some xs)"

definition quorum_state_document ::
    "('vs, 'vt) voter_ops \<Rightarrow> uuid_text \<Rightarrow> 'vs quorum_state \<Rightarrow> quorum_file_error + quorum_state_json" where
  "quorum_state_document V ut st =
     (let ids = vs_ids V (voters st);
          all_fit = list_all (\<lambda>n. i32_try_from n \<noteq> None) ids;
          leader_value = (case leader_id st of None \<Rightarrow> 0 | Some l \<Rightarrow> l);
          voted_value = (case voted_key st of None \<Rightarrow> 0 | Some k \<Rightarrow> rk_id k)
      in if decide_quorum_state_write (kraft_version st) (leader_epoch st) (leader_id st \<noteq> None) leader_value
              (voted_key st \<noteq> None) voted_value all_fit = WriteReject
         then Inl QuorumUnrepresentable
         else
           (case (case leader_id st of None \<Rightarrow> Some (- 1) | Some l \<Rightarrow> i32_try_from l,
                  i32_try_from (leader_epoch st),
                  case voted_key st of None \<Rightarrow> Some (- 1) | Some k \<Rightarrow> i32_try_from (rk_id k)) of
              (Some leader, Some epoch', Some voted) \<Rightarrow>
                if kraft_version st = 0
                then
                  (case collect_some (map i32_try_from ids) of
                     None \<Rightarrow> Inl QuorumUnrepresentable
                   | Some current \<Rightarrow>
                       Inr \<lparr>qj_cluster_id = Some (ut_show ut (cluster_id st)), qj_leader_id = leader,
                         qj_leader_epoch = epoch', qj_voted_id = voted, qj_voted_directory_id = None,
                         qj_applied_offset = Some 0, qj_current_voters = Some current, qj_data_version = 0\<rparr>)
                else
                  Inr \<lparr>qj_cluster_id = None, qj_leader_id = leader, qj_leader_epoch = epoch', qj_voted_id = voted,
                    qj_voted_directory_id =
                      Some (ut_encode ut (case voted_key st of None \<Rightarrow> 0 | Some k \<Rightarrow> rk_directory_id k)),
                    qj_applied_offset = None, qj_current_voters = None, qj_data_version = 1\<rparr>
            | _ \<Rightarrow> Inl QuorumUnrepresentable))"

text \<open>
  \<open>write_file_atomic\<close>: a failure before the rename leaves the old file, a failed
  sync of the directory reports an error with the new file in place.
\<close>

datatype write_outcome = Written | WriteFailed | DirectorySyncFailed

definition save_quorum_state ::
    "('vs, 'vt) voter_ops \<Rightarrow> uuid_text \<Rightarrow> write_outcome \<Rightarrow> 'vs quorum_state \<Rightarrow> quorum_file
      \<Rightarrow> quorum_file \<times> (quorum_file_error + unit)" where
  "save_quorum_state V ut w st f =
     (case quorum_state_document V ut st of
        Inl err \<Rightarrow> (f, Inl err)
      | Inr data \<Rightarrow>
          (let new = QuorumFileDocument (qj_data_version data) (Some data) in
           case w of
             Written \<Rightarrow> (new, Inr ())
           | WriteFailed \<Rightarrow> (f, Inl QuorumStorage)
           | DirectorySyncFailed \<Rightarrow> (new, Inl QuorumStorage)))"

definition parse_quorum_state :: "quorum_file \<Rightarrow> quorum_file_error + quorum_state_json" where
  "parse_quorum_state f =
     (case f of
        QuorumFileDocument version data \<Rightarrow>
          if version < QUORUM_STATE_LOWEST_DATA_VERSION \<or> QUORUM_STATE_HIGHEST_DATA_VERSION < version
          then Inl (QuorumUnsupportedVersion version)
          else (case data of None \<Rightarrow> Inl QuorumMalformed | Some d \<Rightarrow> Inr d)
      | _ \<Rightarrow> Inl QuorumMalformed)"

definition v0_voters_match :: "int list option \<Rightarrow> node_id list \<Rightarrow> bool" where
  "v0_voters_match persisted configured =
     (case persisted of
        None \<Rightarrow> False
      | Some ids \<Rightarrow>
          length ids = length configured
          \<and> list_all (\<lambda>(stored, n). stored \<ge> 0 \<and> stored = uint n) (zip ids configured))"

definition version_fields_valid :: "uuid_text \<Rightarrow> uuid \<Rightarrow> node_id list \<Rightarrow> quorum_state_json \<Rightarrow> bool" where
  "version_fields_valid ut cid configured d \<longleftrightarrow>
     (if qj_data_version d = 0
      then qj_cluster_id d = Some (ut_show ut cid) \<and> qj_voted_directory_id d = None
           \<and> qj_applied_offset d = Some 0 \<and> v0_voters_match (qj_current_voters d) configured
      else if qj_data_version d = 1
      then qj_cluster_id d = None \<and> qj_voted_directory_id d \<noteq> None
           \<and> qj_applied_offset d = None \<and> qj_current_voters d = None
      else False)"

definition load_quorum_state ::
    "('vs, 'vt) voter_ops \<Rightarrow> uuid_text \<Rightarrow> quorum_file \<Rightarrow> uuid \<Rightarrow> 'vs
      \<Rightarrow> quorum_file_error + 'vs quorum_state option" where
  "load_quorum_state V ut f cid vs =
     (case f of
        QuorumFileMissing \<Rightarrow> Inr None
      | QuorumFileUnreadable \<Rightarrow> Inl QuorumStorage
      | _ \<Rightarrow>
          (case parse_quorum_state f of
             Inl err \<Rightarrow> Inl err
           | Inr d \<Rightarrow>
               (let directory = Option.bind (qj_voted_directory_id d) (ut_decode ut);
                    valid = version_fields_valid ut cid (vs_ids V vs) d;
                    state = (\<lambda>vote. \<lparr>cluster_id = cid, kraft_version = word_of_int (qj_data_version d),
                      leader_epoch = word_of_int (qj_leader_epoch d), leader_id = None, voted_key = vote, voters = vs\<rparr>)
                in case decide_quorum_state_load (qj_data_version d) (qj_leader_epoch d) (qj_voted_id d) valid
                          (directory \<noteq> None) (directory = Some 0) of
                     LoadReject \<Rightarrow> Inl QuorumMalformed
                   | RestoreNoVote \<Rightarrow> Inr (Some (state None))
                   | RestoreVote \<Rightarrow>
                       Inr (Some (state (Some \<lparr>rk_id = word_of_int (qj_voted_id d),
                         rk_directory_id =
                           (if qj_data_version d = 1
                            then (case directory of None \<Rightarrow> 0 | Some u \<Rightarrow> u) else 0)\<rparr>))))))"

section \<open>Representable states\<close>

definition fits_i32 :: "'a::len word \<Rightarrow> bool" where
  "fits_i32 w \<longleftrightarrow> uint w \<le> i32_max"

text \<open>The states schema v0 or v1 can hold exactly.\<close>

definition representable :: "('vs, 'vt) voter_ops \<Rightarrow> 'vs quorum_state \<Rightarrow> bool" where
  "representable V st \<longleftrightarrow>
     kraft_version st \<le> 1 \<and> fits_i32 (leader_epoch st)
     \<and> (\<forall>l. leader_id st = Some l \<longrightarrow> fits_i32 l) \<and> (\<forall>k. voted_key st = Some k \<longrightarrow> fits_i32 (rk_id k))
     \<and> (kraft_version st = 0 \<longrightarrow> (\<forall>n \<in> set (vs_ids V (voters st)). fits_i32 n))"

text \<open>What of a state survives: no leader, and at level 0 no directory of the vote.\<close>

definition restored :: "'vs quorum_state \<Rightarrow> 'vs quorum_state" where
  "restored st =
     st\<lparr>leader_id := None,
        voted_key := map_option (\<lambda>k. if kraft_version st = 0 then k\<lparr>rk_directory_id := 0\<rparr> else k) (voted_key st)\<rparr>"

lemma i32_try_from_some [simp]: "i32_try_from w = Some i \<longleftrightarrow> fits_i32 w \<and> i = uint w"
  by (auto simp: i32_try_from_def fits_i32_def)

lemma i32_try_from_none [simp]: "i32_try_from w = None \<longleftrightarrow> \<not> fits_i32 w"
  by (simp add: i32_try_from_def fits_i32_def)

lemma i32_try_from_fits [simp]: "fits_i32 w \<Longrightarrow> i32_try_from w = Some (uint w)"
  by simp

lemma fits_i32_iff: "fits_i32 (w :: 32 word) \<longleftrightarrow> \<not> w > 2147483647" "fits_i32 (v :: 64 word) \<longleftrightarrow> \<not> v > 2147483647"
  by (simp_all add: fits_i32_def i32_max_def word_less_def not_less)

lemma version_cases:
  assumes "(v :: u16) \<le> 1"
  shows "v = 0 \<or> v = 1"
proof -
  have "uint v \<le> 1" "0 \<le> uint v" using assms by (simp_all add: word_le_def)
  then have "uint v = 0 \<or> uint v = 1" by linarith
  then show ?thesis by (simp add: word_uint_eq_iff)
qed

text \<open>The fields written for a representable state.\<close>

definition document_of :: "('vs, 'vt) voter_ops \<Rightarrow> uuid_text \<Rightarrow> 'vs quorum_state \<Rightarrow> quorum_state_json" where
  "document_of V ut st =
     \<lparr>qj_cluster_id = (if kraft_version st = 0 then Some (ut_show ut (cluster_id st)) else None),
      qj_leader_id = (case leader_id st of None \<Rightarrow> - 1 | Some l \<Rightarrow> uint l),
      qj_leader_epoch = uint (leader_epoch st),
      qj_voted_id = (case voted_key st of None \<Rightarrow> - 1 | Some k \<Rightarrow> uint (rk_id k)),
      qj_voted_directory_id =
        (if kraft_version st = 0 then None
         else Some (ut_encode ut (case voted_key st of None \<Rightarrow> 0 | Some k \<Rightarrow> rk_directory_id k))),
      qj_applied_offset = (if kraft_version st = 0 then Some 0 else None),
      qj_current_voters = (if kraft_version st = 0 then Some (map uint (vs_ids V (voters st))) else None),
      qj_data_version = (if kraft_version st = 0 then 0 else 1)\<rparr>"

lemma collect_i32: "(\<forall>n \<in> set ids. fits_i32 n) \<Longrightarrow> collect_some (map i32_try_from ids) = Some (map uint ids)"
  by (induction ids) (auto simp: i32_try_from_def fits_i32_def)

lemma quorum_state_document_eq:
  "quorum_state_document V ut st = (if representable V st then Inr (document_of V ut st) else Inl QuorumUnrepresentable)"
proof (cases "representable V st")
  case True
  have fit: "list_all (\<lambda>n. i32_try_from n \<noteq> None) (vs_ids V (voters st))" if "kraft_version st = 0"
    using True that by (auto simp: representable_def list_all_iff)
  have "decide_quorum_state_write (kraft_version st) (leader_epoch st) (leader_id st \<noteq> None)
      (case leader_id st of None \<Rightarrow> 0 | Some l \<Rightarrow> l) (voted_key st \<noteq> None)
      (case voted_key st of None \<Rightarrow> 0 | Some k \<Rightarrow> rk_id k)
      (list_all (\<lambda>n. i32_try_from n \<noteq> None) (vs_ids V (voters st))) = WriteAccept"
    using True fit by (auto simp: decide_quorum_state_write_def representable_def fits_i32_iff split: option.splits)
  moreover have "(case leader_id st of None \<Rightarrow> Some (- 1) | Some l \<Rightarrow> i32_try_from l)
      = Some (case leader_id st of None \<Rightarrow> - 1 | Some l \<Rightarrow> uint l)"
    "i32_try_from (leader_epoch st) = Some (uint (leader_epoch st))"
    "(case voted_key st of None \<Rightarrow> Some (- 1) | Some k \<Rightarrow> i32_try_from (rk_id k))
      = Some (case voted_key st of None \<Rightarrow> - 1 | Some k \<Rightarrow> uint (rk_id k))"
    using True by (auto simp: representable_def split: option.splits)
  moreover have "collect_some (map i32_try_from (vs_ids V (voters st))) = Some (map uint (vs_ids V (voters st)))"
    if "kraft_version st = 0" using True that by (intro collect_i32) (simp add: representable_def)
  ultimately show ?thesis using True by (simp add: quorum_state_document_def document_of_def Let_def)
next
  case False
  have "decide_quorum_state_write (kraft_version st) (leader_epoch st) (leader_id st \<noteq> None)
      (case leader_id st of None \<Rightarrow> 0 | Some l \<Rightarrow> l) (voted_key st \<noteq> None)
      (case voted_key st of None \<Rightarrow> 0 | Some k \<Rightarrow> rk_id k)
      (list_all (\<lambda>n. i32_try_from n \<noteq> None) (vs_ids V (voters st))) = WriteReject"
    using False
    by (auto simp: decide_quorum_state_write_def representable_def fits_i32_iff list_all_iff not_le)
  with False show ?thesis by (simp add: quorum_state_document_def Let_def)
qed

lemma uint_not_negative: "uint w \<noteq> - 1" "\<not> uint w < - 1" "\<not> uint w < 0"
  using uint_ge_0[of w] by linarith+

lemma load_document:
  assumes "representable V st" "\<forall>u. ut_decode ut (ut_encode ut u) = Some u"
    and "kraft_version st = 0 \<longrightarrow> vs_ids V vs = vs_ids V (voters st)"
  shows "load_quorum_state V ut (QuorumFileDocument (qj_data_version (document_of V ut st)) (Some (document_of V ut st)))
      (cluster_id st) vs = Inr (Some ((restored st)\<lparr>voters := vs\<rparr>))"
proof -
  have "v0_voters_match (Some (map uint (vs_ids V vs))) (vs_ids V vs)"
    by (auto simp: v0_voters_match_def list_all_iff set_zip)
  then show ?thesis
    using assms version_cases[of "kraft_version st"]
    by (cases st; cases "voted_key st")
      (auto simp: uint_not_negative load_quorum_state_def parse_quorum_state_def document_of_def version_fields_valid_def
        QUORUM_STATE_LOWEST_DATA_VERSION_def QUORUM_STATE_HIGHEST_DATA_VERSION_def decide_quorum_state_load_def
        restored_def representable_def Let_def)
qed

lemma restored_voters [simp]: "(restored st)\<lparr>voters := voters st\<rparr> = restored st"
  by (simp add: restored_def)

section \<open>Properties\<close>

text \<open>
  C16: a saved quorum state is the state a restart loads, without the leader, which
  is volatile, and at level 0 without the directory of the vote; a state the file
  format cannot hold is refused and leaves the file as it was.
\<close>

theorem quorum_state_round_trip:
  assumes "\<forall>u. ut_decode ut (ut_encode ut u) = Some u"
  shows "(representable V st \<longrightarrow> load_quorum_state V ut (fst (save_quorum_state V ut Written st f)) (cluster_id st)
        (voters st) = Inr (Some (restored st)) \<and> snd (save_quorum_state V ut Written st f) = Inr ())
    \<and> (\<not> representable V st \<longrightarrow> save_quorum_state V ut w st f = (f, Inl QuorumUnrepresentable))"
  by (auto simp: save_quorum_state_def quorum_state_document_eq load_document[OF _ assms, of _ _ "voters st"])

definition decimal_uuids :: uuid_text where
  "decimal_uuids = \<lparr>ut_show = show_nat \<circ> unat, ut_encode = show_nat \<circ> unat,
     ut_decode = (\<lambda>s. map_option word_of_nat (parse_digits s))\<rparr>"

definition listed_voters :: "(node_id list, node_id) voter_ops" where
  "listed_voters = \<lparr>vs_contains = (\<lambda>vs n. n \<in> set vs), vs_get = (\<lambda>vs n. if n \<in> set vs then Some n else None),
     vs_ids = (\<lambda>vs. vs), vs_len = length, vs_is_empty = (\<lambda>vs. vs = []), vt_directory_id = (\<lambda>_. 0)\<rparr>"

theorem quorum_state_round_trip_witness:
  "load_quorum_state listed_voters decimal_uuids
     (fst (save_quorum_state listed_voters decimal_uuids Written
       \<lparr>cluster_id = 7, kraft_version = 1, leader_epoch = 4, leader_id = Some 2,
        voted_key = Some \<lparr>rk_id = 2, rk_directory_id = 9\<rparr>, voters = [1, 2]\<rparr> QuorumFileMissing)) 7 [1, 2]
   = Inr (Some \<lparr>cluster_id = 7, kraft_version = 1, leader_epoch = 4, leader_id = None,
        voted_key = Some \<lparr>rk_id = 2, rk_directory_id = 9\<rparr>, voters = [1, 2]\<rparr>)"
proof -
  have codec: "\<forall>u. ut_decode decimal_uuids (ut_encode decimal_uuids u) = Some u" by (simp add: decimal_uuids_def)
  let ?st = "\<lparr>cluster_id = 7, kraft_version = 1, leader_epoch = 4, leader_id = Some 2,
        voted_key = Some \<lparr>rk_id = 2, rk_directory_id = 9\<rparr>, voters = [1 :: node_id, 2]\<rparr>"
  have "representable listed_voters ?st" by (simp add: representable_def fits_i32_def i32_max_def)
  then show ?thesis
    using quorum_state_round_trip[OF codec, of listed_voters ?st QuorumFileMissing] by (simp add: restored_def)
qed

end
