(* ===== verification/Checkpoint_Store.thy ===== *)
theory Checkpoint_Store
  imports Text_Format "HOL-Library.AList" "HOL-Library.Multiset"
begin

text \<open>
  The metadata snapshots a controller keeps on disk
  (\<open>crates/raft/src/kraft/controller/checkpoint.rs\<close> and the kernels of
  \<open>crates/verified/src/checkpoint.rs\<close>): the file name that carries a snapshot's
  identifier, the order of identifiers, writing, retention of the two newest
  snapshots, and reading one chunk of a snapshot.

  A directory is the list of its files in directory order, a file a name and its
  bytes; a directory that cannot be listed is the empty list. A removal that fails
  is ignored by the code, so the names that can be removed are a parameter.
\<close>

type_synonym snapshot_id = "int \<times> int"
type_synonym bytes = "8 word list"
type_synonym checkpoint_dir = "(string \<times> bytes) list"

definition BOOTSTRAP_SNAPSHOT_ID :: snapshot_id where
  "BOOTSTRAP_SNAPSHOT_ID = (0, 0)"

section \<open>Identifiers (\<open>verified/src/checkpoint.rs\<close>)\<close>

definition checkpoint_id_newer :: "int \<Rightarrow> int \<Rightarrow> int \<Rightarrow> int \<Rightarrow> bool" where
  "checkpoint_id_newer candidate_end candidate_epoch current_end current_epoch \<longleftrightarrow>
     candidate_end > current_end \<or> (candidate_end = current_end \<and> candidate_epoch > current_epoch)"

function latest_from :: "snapshot_id list \<Rightarrow> nat \<Rightarrow> nat \<Rightarrow> nat" where
  "latest_from ids selected i =
     (if i < length ids then
        latest_from ids
          (if checkpoint_id_newer (fst (ids ! i)) (snd (ids ! i)) (fst (ids ! selected)) (snd (ids ! selected))
           then i else selected) (i + 1)
      else selected)"
  by pat_completeness auto
termination by (relation "measure (\<lambda>(ids, _, i). length ids - i)") auto

declare latest_from.simps [simp del]

definition latest_checkpoint_index :: "snapshot_id list \<Rightarrow> nat option" where
  "latest_checkpoint_index ids = (if ids = [] then None else Some (latest_from ids 0 1))"

definition checkpoint_id_retained :: "int \<Rightarrow> int \<Rightarrow> int \<Rightarrow> int \<Rightarrow> int \<Rightarrow> int \<Rightarrow> bool" where
  "checkpoint_id_retained candidate_end candidate_epoch selected_end selected_epoch previous_end previous_epoch \<longleftrightarrow>
     (candidate_end = selected_end \<and> candidate_epoch = selected_epoch)
     \<or> (candidate_end = previous_end \<and> candidate_epoch = previous_epoch)"

section \<open>File names (\<open>controller/checkpoint.rs\<close>)\<close>

text \<open>\<open>{:0w}\<close>: zeroes after the sign up to the width.\<close>

definition show_padded :: "nat \<Rightarrow> int \<Rightarrow> string" where
  "show_padded w i =
     (let digits = show_nat (nat \<bar>i\<bar>) in
      if i < 0 then CHR ''-'' # replicate (w - 1 - length digits) (CHR ''0'') @ digits
      else replicate (w - length digits) (CHR ''0'') @ digits)"

definition checkpoint_name :: "int \<Rightarrow> int \<Rightarrow> string" where
  "checkpoint_name end_off e = show_padded 20 end_off @ CHR ''-'' # show_padded 10 e @ ''.checkpoint''"

definition parse_checkpoint_name :: "string \<Rightarrow> snapshot_id option" where
  "parse_checkpoint_name name =
     (case strip_suffix ''.checkpoint'' name of
        None \<Rightarrow> None
      | Some stem \<Rightarrow>
          (case split_once (CHR ''-'') stem of
             None \<Rightarrow> None
           | Some (off, ep) \<Rightarrow>
               (case (parse_int i64_min i64_max off, parse_int i32_min i32_max ep) of
                  (Some o', Some e') \<Rightarrow>
                    if o' < 0 \<or> e' < 0 then None
                    else if checkpoint_name o' e' = name then Some (o', e') else None
                | _ \<Rightarrow> None)))"

section \<open>The directory\<close>

definition checkpoint_ids :: "checkpoint_dir \<Rightarrow> snapshot_id list" where
  "checkpoint_ids dir = List.map_filter (\<lambda>f. parse_checkpoint_name (fst f)) dir"

definition latest_checkpoint_id :: "checkpoint_dir \<Rightarrow> snapshot_id option" where
  "latest_checkpoint_id dir =
     (let ids = checkpoint_ids dir in
      case latest_checkpoint_index ids of None \<Rightarrow> None | Some i \<Rightarrow> Some (ids ! i))"

definition write_checkpoint :: "int \<Rightarrow> int \<Rightarrow> bytes \<Rightarrow> checkpoint_dir \<Rightarrow> checkpoint_dir" where
  "write_checkpoint end_off e bs dir = AList.update (checkpoint_name end_off e) bs dir"

definition load_checkpoint_by_id :: "checkpoint_dir \<Rightarrow> int \<Rightarrow> int \<Rightarrow> bytes option" where
  "load_checkpoint_by_id dir end_off e = map_of dir (checkpoint_name end_off e)"

definition load_latest_checkpoint :: "checkpoint_dir \<Rightarrow> bytes option" where
  "load_latest_checkpoint dir =
     (case latest_checkpoint_id dir of
        None \<Rightarrow> None
      | Some (end_off, e) \<Rightarrow> map_of dir (checkpoint_name end_off e))"

text \<open>\<open>Vec::swap_remove\<close>: the last element takes the place of the removed one.\<close>

definition swap_remove :: "'a list \<Rightarrow> nat \<Rightarrow> 'a \<times> 'a list" where
  "swap_remove xs i = (xs ! i, if i = length xs - 1 then butlast xs else butlast (xs[i := last xs]))"

definition recent_checkpoint_ids :: "checkpoint_dir \<Rightarrow> (snapshot_id \<times> snapshot_id) option" where
  "recent_checkpoint_ids dir =
     (let ids = checkpoint_ids dir in
      case latest_checkpoint_index ids of
        None \<Rightarrow> None
      | Some index \<Rightarrow>
          (let (latest, others) = swap_remove ids index;
               previous = (case latest_checkpoint_index others of None \<Rightarrow> latest | Some i \<Rightarrow> others ! i)
           in Some (latest, previous)))"

definition checkpoint_id_is_newer :: "snapshot_id \<Rightarrow> snapshot_id \<Rightarrow> bool" where
  "checkpoint_id_is_newer candidate current =
     checkpoint_id_newer (fst candidate) (snd candidate) (fst current) (snd current)"

definition retain_checkpoints ::
    "(string \<Rightarrow> bool) \<Rightarrow> snapshot_id \<Rightarrow> snapshot_id \<Rightarrow> checkpoint_dir \<Rightarrow> checkpoint_dir" where
  "retain_checkpoints removable latest previous dir =
     filter (\<lambda>f. case parse_checkpoint_name (fst f) of
         None \<Rightarrow> True
       | Some (off, ep) \<Rightarrow>
           checkpoint_id_retained off ep (fst latest) (snd latest) (fst previous) (snd previous)
           \<or> \<not> removable (fst f)) dir"

definition retain_recent_checkpoints :: "(string \<Rightarrow> bool) \<Rightarrow> checkpoint_dir \<Rightarrow> checkpoint_dir" where
  "retain_recent_checkpoints removable dir =
     (case recent_checkpoint_ids dir of
        None \<Rightarrow> dir
      | Some (latest, previous) \<Rightarrow> retain_checkpoints removable latest previous dir)"

definition retain_latest_checkpoint :: "(string \<Rightarrow> bool) \<Rightarrow> checkpoint_dir \<Rightarrow> checkpoint_dir" where
  "retain_latest_checkpoint removable dir =
     (case latest_checkpoint_id dir of
        None \<Rightarrow> dir
      | Some latest \<Rightarrow> retain_checkpoints removable latest latest dir)"

section \<open>Reading a chunk\<close>

datatype checkpoint_chunk = OutOfRange | ChunkBytes bytes

definition read_chunk :: "bytes \<Rightarrow> int \<Rightarrow> int \<Rightarrow> checkpoint_chunk" where
  "read_chunk file position max_bytes =
     (if position < 0 \<or> int (length file) \<le> position then OutOfRange
      else
        let start = nat position;
            max_len = (if max_bytes < 0 then 0 else nat max_bytes);
            len = min max_len (length file - start)
        in ChunkBytes (take len (drop start file)))"

section \<open>Names identify snapshots\<close>

lemma parse_digits_zeroes: "parse_digits (replicate k (CHR ''0'') @ show_nat n) = Some n"
proof -
  have zero: "is_digit (CHR ''0'')" "digit_value (CHR ''0'') = 0" by (simp_all add: is_digit_def digit_value_def)
  have "foldl (\<lambda>a c. 10 * a + digit_value c) 0 (replicate k (CHR ''0'')) = 0"
    by (induction k) (simp_all add: zero)
  then show ?thesis
    using parse_digits_show_nat[of n] zero show_nat_digits[of n]
    by (auto simp: parse_digits_def list_all_iff split: if_splits)
qed

lemma show_padded_digits:
  assumes "0 \<le> i"
  shows "list_all is_digit (show_padded w i)" "show_padded w i \<noteq> []"
  using assms show_nat_digits[of "nat i"]
  by (auto simp: show_padded_def Let_def list_all_iff is_digit_def)

lemma parse_int_padded:
  assumes "0 \<le> i" "lo \<le> 0" "i \<le> hi"
  shows "parse_int lo hi (show_padded w i) = Some i"
proof -
  obtain c ds where s: "show_padded w i = c # ds" "is_digit c"
    using show_padded_digits[OF assms(1), of w] by (cases "show_padded w i") auto
  have "parse_digits (show_padded w i) = Some (nat i)"
    using assms(1) by (simp add: show_padded_def Let_def parse_digits_zeroes)
  with s assms is_digit_not_sign[OF s(2)] show ?thesis by (simp add: parse_int_def in_range_def)
qed

lemma parse_checkpoint_name_of_id:
  assumes "0 \<le> off" "off \<le> i64_max" "0 \<le> e" "e \<le> i32_max"
  shows "parse_checkpoint_name (checkpoint_name off e) = Some (off, e)"
proof -
  let ?stem = "show_padded 20 off @ CHR ''-'' # show_padded 10 e"
  have "checkpoint_name off e = ?stem @ ''.checkpoint''" by (simp add: checkpoint_name_def)
  then have "strip_suffix ''.checkpoint'' (checkpoint_name off e) = Some ?stem" by (simp only: strip_suffix_append)
  moreover have "CHR ''-'' \<notin> set (show_padded 20 off)"
    using show_padded_digits(1)[OF assms(1), of 20] by (auto simp: list_all_iff is_digit_def)
  ultimately show ?thesis
    using assms by (simp add: parse_checkpoint_name_def split_once_append parse_int_padded i64_min_def i32_min_def)
qed

lemma parse_int_range: "parse_int lo hi s = Some i \<Longrightarrow> lo \<le> i \<and> i \<le> hi"
  by (auto simp: parse_int_def in_range_def bind_eq_Some_conv split: list.splits if_splits)

lemma parse_checkpoint_name_eq:
  "parse_checkpoint_name name = Some (off, e) \<longleftrightarrow>
     name = checkpoint_name off e \<and> 0 \<le> off \<and> off \<le> i64_max \<and> 0 \<le> e \<and> e \<le> i32_max"
  (is "?l \<longleftrightarrow> ?r")
proof
  assume ?l
  then show ?r
    by (auto simp: parse_checkpoint_name_def dest!: parse_int_range split: option.splits if_splits)
next
  assume ?r
  then show ?l by (simp add: parse_checkpoint_name_of_id)
qed

lemma parse_checkpoint_name_inj:
  "parse_checkpoint_name a = Some i \<Longrightarrow> parse_checkpoint_name b = Some i \<Longrightarrow> a = b"
  by (cases i) (simp add: parse_checkpoint_name_eq)

section \<open>The order of identifiers and retention\<close>

abbreviation id_le :: "snapshot_id \<Rightarrow> snapshot_id \<Rightarrow> bool" where
  "id_le a b \<equiv> \<not> checkpoint_id_is_newer a b"

lemma newer_iff: "checkpoint_id_is_newer a b \<longleftrightarrow> fst b < fst a \<or> fst b = fst a \<and> snd b < snd a"
  by (auto simp: checkpoint_id_is_newer_def checkpoint_id_newer_def)

lemma newer_trans: "checkpoint_id_is_newer a b \<Longrightarrow> checkpoint_id_is_newer b c \<Longrightarrow> checkpoint_id_is_newer a c"
  by (auto simp: newer_iff)

lemma newer_linear: "a \<noteq> b \<Longrightarrow> id_le a b \<Longrightarrow> checkpoint_id_is_newer b a"
  by (cases a; cases b) (auto simp: newer_iff)

lemma newer_irrefl [simp]: "id_le a a"
  by (simp add: newer_iff)

lemma id_le_trans: "id_le a b \<Longrightarrow> id_le b c \<Longrightarrow> id_le a c"
  by (auto simp: newer_iff)

lemma latest_from_max:
  assumes "selected < i" "i \<le> length ids" "\<forall>k < i. id_le (ids ! k) (ids ! selected)"
  shows "latest_from ids selected i < length ids \<and> (\<forall>k < length ids. id_le (ids ! k) (ids ! latest_from ids selected i))"
  using assms
proof (induction ids selected i rule: latest_from.induct)
  case (1 ids selected i)
  show ?case
  proof (cases "i < length ids")
    case True
    define next_sel where "next_sel = (if checkpoint_id_is_newer (ids ! i) (ids ! selected) then i else selected)"
    have step: "latest_from ids selected i = latest_from ids next_sel (i + 1)"
      using True by (subst latest_from.simps) (simp add: next_sel_def checkpoint_id_is_newer_def)
    have "\<forall>k < i + 1. id_le (ids ! k) (ids ! next_sel)"
    proof (intro allI impI)
      fix k
      assume "k < i + 1"
      then have "k = i \<or> id_le (ids ! k) (ids ! selected)" using "1.prems"(3) by (auto simp: less_Suc_eq)
      then show "id_le (ids ! k) (ids ! next_sel)" by (auto simp: next_sel_def newer_iff)
    qed
    moreover have "next_sel < i + 1" using "1.prems"(1) by (simp add: next_sel_def)
    ultimately show ?thesis
      using "1.IH"[OF True] True unfolding step by (simp add: next_sel_def checkpoint_id_is_newer_def)
  next
    case False
    then have "latest_from ids selected i = selected" by (simp add: latest_from.simps)
    with "1.prems" False show ?thesis by simp
  qed
qed

lemma latest_checkpoint_index_max:
  assumes "latest_checkpoint_index ids = Some i"
  shows "i < length ids" "\<forall>x \<in> set ids. id_le x (ids ! i)"
proof -
  have "i = latest_from ids 0 1" "ids \<noteq> []" using assms by (auto simp: latest_checkpoint_index_def split: if_splits)
  moreover from this have "latest_from ids 0 1 < length ids \<and> (\<forall>k < length ids. id_le (ids ! k) (ids ! latest_from ids 0 1))"
    by (intro latest_from_max) (auto simp: Suc_le_eq)
  ultimately show "i < length ids" "\<forall>x \<in> set ids. id_le x (ids ! i)" by (metis in_set_conv_nth)+
qed

lemma latest_checkpoint_index_None [simp]: "latest_checkpoint_index ids = None \<longleftrightarrow> ids = []"
  by (simp add: latest_checkpoint_index_def)

lemma fst_swap_remove [simp]: "fst (swap_remove xs i) = xs ! i"
  by (simp add: swap_remove_def)

lemma swap_remove_mset:
  assumes "i < length xs"
  shows "mset xs = add_mset (fst (swap_remove xs i)) (mset (snd (swap_remove xs i)))"
proof -
  obtain ys y where xs: "xs = ys @ [y]" using assms by (cases xs rule: rev_cases) auto
  show ?thesis
  proof (cases "i = length ys")
    case True
    then show ?thesis by (simp add: swap_remove_def xs)
  next
    case False
    with assms have "i < length ys" by (simp add: xs)
    then have "mset ys = add_mset (ys ! i) (mset ys - {#ys ! i#})" by (simp add: nth_mem_mset)
    with \<open>i < length ys\<close> show ?thesis by (simp add: swap_remove_def xs nth_append list_update_append mset_update)
  qed
qed

lemma set_checkpoint_ids: "i \<in> set (checkpoint_ids dir) \<longleftrightarrow> (\<exists>f \<in> set dir. parse_checkpoint_name (fst f) = Some i)"
  by (force simp: checkpoint_ids_def List.map_filter_def)

lemma distinct_checkpoint_ids:
  assumes "distinct (map fst dir)"
  shows "distinct (checkpoint_ids dir)"
  using assms
proof (induction dir)
  case (Cons f dir)
  have "i \<notin> set (checkpoint_ids dir)" if "parse_checkpoint_name (fst f) = Some i" for i
  proof
    assume "i \<in> set (checkpoint_ids dir)"
    then obtain g where "g \<in> set dir" "parse_checkpoint_name (fst g) = Some i" by (auto simp: set_checkpoint_ids)
    with that have "fst f \<in> set (map fst dir)" using parse_checkpoint_name_inj by fastforce
    with Cons.prems show False by simp
  qed
  with Cons show ?case by (auto simp: checkpoint_ids_def List.map_filter_simps split: option.splits)
qed (simp add: checkpoint_ids_def List.map_filter_simps)

text \<open>The identifiers of a directory newer than a given one.\<close>

definition newer_ids :: "checkpoint_dir \<Rightarrow> snapshot_id \<Rightarrow> snapshot_id set" where
  "newer_ids dir i = {j \<in> set (checkpoint_ids dir). checkpoint_id_is_newer j i}"

lemma recent_checkpoint_ids_split:
  assumes d: "distinct (map fst dir)" and r: "recent_checkpoint_ids dir = Some (latest, previous)"
  obtains others where "set (checkpoint_ids dir) = insert latest (set others)" "latest \<notin> set others"
    "\<forall>x \<in> set (checkpoint_ids dir). id_le x latest"
    "\<forall>x \<in> set others. previous \<in> set others \<and> id_le x previous"
proof -
  let ?ids = "checkpoint_ids dir"
  obtain k where k: "latest_checkpoint_index ?ids = Some k"
    using r by (auto simp: recent_checkpoint_ids_def Let_def split: option.splits)
  define others where "others = snd (swap_remove ?ids k)"
  have latest: "latest = ?ids ! k"
    and prev: "previous = (case latest_checkpoint_index others of None \<Rightarrow> latest | Some j \<Rightarrow> others ! j)"
    using r k unfolding others_def
    by (auto simp: recent_checkpoint_ids_def latest_checkpoint_index_def Let_def case_prod_beta)
  have m: "mset ?ids = add_mset latest (mset others)"
    using swap_remove_mset[OF latest_checkpoint_index_max(1)[OF k]] by (simp add: others_def latest)
  then have "set ?ids = insert latest (set others)" by (metis set_mset_add_mset_insert set_mset_mset)
  moreover have "distinct (latest # others)"
    using distinct_checkpoint_ids[OF d] m by (metis mset.simps(2) mset_eq_imp_distinct_iff)
  moreover have "\<forall>x \<in> set ?ids. id_le x latest" using latest_checkpoint_index_max(2)[OF k] by (simp add: latest)
  moreover have "\<forall>x \<in> set others. previous \<in> set others \<and> id_le x previous"
    using prev latest_checkpoint_index_max[of others] by (cases "latest_checkpoint_index others") auto
  ultimately show ?thesis by (intro that) auto
qed

lemma recent_checkpoint_ids_newest:
  assumes d: "distinct (map fst dir)" and r: "recent_checkpoint_ids dir = Some (latest, previous)"
    and i: "i \<in> set (checkpoint_ids dir)"
  shows "i = latest \<or> i = previous \<longleftrightarrow> card (newer_ids dir i) \<le> 1"
proof -
  obtain others where ids: "set (checkpoint_ids dir) = insert latest (set others)" and fresh: "latest \<notin> set others"
    and top: "\<forall>x \<in> set (checkpoint_ids dir). id_le x latest"
    and p: "\<forall>x \<in> set others. previous \<in> set others \<and> id_le x previous"
    by (rule recent_checkpoint_ids_split[OF d r]) blast
  have fin: "finite (newer_ids dir i)" by (simp add: newer_ids_def)
  consider "i = latest" | "i \<noteq> latest" "i = previous" | "i \<noteq> latest" "i \<noteq> previous" by blast
  then show ?thesis
  proof cases
    case 1
    with top have "newer_ids dir i = {}" by (auto simp: newer_ids_def)
    with 1 show ?thesis by simp
  next
    case 2
    with p have "\<forall>x \<in> set others. id_le x i" by blast
    with ids have "newer_ids dir i \<subseteq> {latest}" by (auto simp: newer_ids_def)
    then have "card (newer_ids dir i) \<le> card {latest}" by (intro card_mono) auto
    with 2 show ?thesis by simp
  next
    case 3
    with i ids have "i \<in> set others" by simp
    with p have "previous \<in> set others" "id_le i previous" by auto
    with 3 i ids top newer_linear have "{latest, previous} \<subseteq> newer_ids dir i" by (auto simp: newer_ids_def)
    then have "card {latest, previous} \<le> card (newer_ids dir i)" by (rule card_mono[OF fin])
    moreover have "latest \<noteq> previous" using fresh \<open>previous \<in> set others\<close> by auto
    ultimately show ?thesis using 3 by simp
  qed
qed

section \<open>Properties\<close>

text \<open>
  A file name is read as a snapshot identifier exactly when it is the name the
  writer gives to that identifier, and every identifier with a non-negative 64-bit
  offset and 32-bit epoch has one.
\<close>

theorem checkpoint_name_round_trip:
  "parse_checkpoint_name name = Some (off, e) \<longleftrightarrow>
     name = checkpoint_name off e \<and> 0 \<le> off \<and> off \<le> i64_max \<and> 0 \<le> e \<and> e \<le> i32_max"
  by (rule parse_checkpoint_name_eq)

text \<open>
  C26: retention keeps every file that is no snapshot and exactly the two newest
  snapshots: those with at most one newer identifier in the directory.
\<close>

theorem retention_keeps_two_newest:
  assumes "distinct (map fst dir)"
  shows "set (retain_recent_checkpoints (\<lambda>_. True) dir) =
    {f \<in> set dir. \<forall>i. parse_checkpoint_name (fst f) = Some i \<longrightarrow> card (newer_ids dir i) \<le> 1}"
proof (cases "recent_checkpoint_ids dir")
  case None
  then have "checkpoint_ids dir = []"
    by (auto simp: recent_checkpoint_ids_def Let_def split: option.splits prod.splits)
  with None show ?thesis by (auto simp: retain_recent_checkpoints_def newer_ids_def)
next
  case (Some r)
  obtain latest previous where r: "r = (latest, previous)" by (cases r)
  have "checkpoint_id_retained (fst i) (snd i) (fst latest) (snd latest) (fst previous) (snd previous)
      \<longleftrightarrow> card (newer_ids dir i) \<le> 1"
    if "f \<in> set dir" "parse_checkpoint_name (fst f) = Some i" for f i
    using recent_checkpoint_ids_newest[OF assms Some[unfolded r], of i] that
    by (auto simp: checkpoint_id_retained_def set_checkpoint_ids prod_eq_iff)
  with Some show ?thesis
    by (auto simp: retain_recent_checkpoints_def retain_checkpoints_def r split: option.splits)
qed

definition four_files :: checkpoint_dir where
  "four_files = [(checkpoint_name 9 2, [7]), (checkpoint_name 5 1, [5]), (''lock'', []), (checkpoint_name 9 1, [9])]"

theorem retention_keeps_two_newest_witness:
  "(checkpoint_name 9 1, [9]) \<in> set (retain_recent_checkpoints (\<lambda>_. True) four_files)
    \<and> (checkpoint_name 5 1, [5]) \<notin> set (retain_recent_checkpoints (\<lambda>_. True) four_files)"
proof -
  have d: "distinct (map fst four_files)" by code_simp
  have ids: "checkpoint_ids four_files = [(9, 2), (5, 1), (9, 1)]" by code_simp
  have p: "parse_checkpoint_name (checkpoint_name 9 1) = Some (9, 1)" "parse_checkpoint_name (checkpoint_name 5 1) = Some (5, 1)"
    by (simp_all add: parse_checkpoint_name_of_id i64_max_def i32_max_def)
  have "newer_ids four_files (9, 1) = {(9, 2)}" "newer_ids four_files (5, 1) = {(9, 2), (9, 1)}"
    by (auto simp: newer_ids_def ids newer_iff)
  then show ?thesis unfolding retention_keeps_two_newest[OF d] using p by (simp add: four_files_def)
qed

end
