(* ===== verification/Snapshot_Fetch.thy ===== *)
theory Snapshot_Fetch
  imports Checkpoint_Store Quorum_Machine "HOL-Library.Sublist"
begin

text \<open>
  The transfer of a metadata snapshot to a follower: the admission kernels of
  \<open>crates/verified/src/snapshot.rs\<close>, the reassembly state machine of
  \<open>crates/kraft-core/src/snapshot_fetch.rs\<close>, the leader's answer to a
  \<open>FetchSnapshot\<close> request (\<open>crates/raft/src/kraft/controller/quorum_requests.rs\<close>)
  and the follower's handling of a snapshot offer and of a chunk
  (\<open>crates/raft/src/kraft/controller/replication.rs\<close>).

  The wire codec is left out: a request and an answer are the values it decodes
  to. \<open>parse_cluster_id\<close> combines the crates \<open>uuid\<close> and \<open>base64\<close> and is an
  argument. Requests a node sends are values of \<open>fetch_effect\<close>; installing a
  reassembled snapshot is the effect \<open>InstallSnapshot\<close>, whose outcome the handler
  only logs.
\<close>

section \<open>Admission kernels (\<open>verified/src/snapshot.rs\<close>)\<close>

datatype snapshot_chunk_decision = ChunkRestart | ChunkContinue int | ChunkComplete

datatype snapshot_install_decision = InstallReject | InstallStale | Install

definition decide_snapshot_install :: "bool \<Rightarrow> int \<Rightarrow> int \<Rightarrow> int \<Rightarrow> snapshot_install_decision" where
  "decide_snapshot_install downgrade_pending snapshot_end snapshot_epoch log_end =
     (if downgrade_pending \<or> snapshot_end < 0 \<or> snapshot_epoch < 0 \<or> log_end < 0 then InstallReject
      else if snapshot_end \<le> log_end then InstallStale
      else Install)"

definition snapshot_prune_admission :: "int \<Rightarrow> int \<Rightarrow> bool" where
  "snapshot_prune_admission snapshot_end committed_end \<longleftrightarrow> snapshot_end \<ge> 0 \<and> snapshot_end \<le> committed_end"

definition checked_add_i64 :: "int \<Rightarrow> int \<Rightarrow> int option" where
  "checked_add_i64 a b = (if i64_range (a + b) then Some (a + b) else None)"

definition snapshot_chunk_admission ::
    "bool \<Rightarrow> int option \<Rightarrow> int \<Rightarrow> int \<Rightarrow> int \<Rightarrow> int \<Rightarrow> int \<Rightarrow> snapshot_chunk_decision" where
  "snapshot_chunk_admission identity_matches fixed_size received declared_size position chunk_len max_size =
     (if \<not> identity_matches \<or> received < 0 \<or> chunk_len < 0 \<or> max_size < 0 \<or> declared_size < 0
         \<or> declared_size > max_size \<or> position \<noteq> received then ChunkRestart
      else if (case fixed_size of Some s \<Rightarrow> s \<noteq> declared_size | None \<Rightarrow> False) then ChunkRestart
      else
        (case checked_add_i64 received chunk_len of
           None \<Rightarrow> ChunkRestart
         | Some next_position \<Rightarrow>
             if next_position > declared_size then ChunkRestart
             else if next_position = declared_size then ChunkComplete
             else ChunkContinue next_position))"

section \<open>Reassembly (\<open>kraft-core/src/snapshot_fetch.rs\<close>)\<close>

definition METADATA_SNAPSHOT_FETCH_HARD_MAX_BYTES :: int where
  "METADATA_SNAPSHOT_FETCH_HARD_MAX_BYTES = 1073741824"

text \<open>The refinement rule of \<open>MetadataSnapshotFetchMax\<close> on a whole number of bytes.\<close>

definition metadata_snapshot_fetch_max :: "int \<Rightarrow> int option" where
  "metadata_snapshot_fetch_max n =
     (if 1 \<le> n \<and> n \<le> METADATA_SNAPSHOT_FETCH_HARD_MAX_BYTES then Some n else None)"

record snapshot_fetch_state =
  sf_snapshot_id :: snapshot_id
  sf_leader_id :: node_id
  sf_buf :: bytes
  sf_size :: "int option"
  sf_max_size :: int

datatype snapshot_fetch_step =
    StepContinue int
  | StepComplete bytes
  | StepRestart

definition with_max :: "snapshot_id \<Rightarrow> node_id \<Rightarrow> int \<Rightarrow> snapshot_fetch_state" where
  "with_max id' leader max_size =
     \<lparr>sf_snapshot_id = id', sf_leader_id = leader, sf_buf = [], sf_size = None, sf_max_size = max_size\<rparr>"

definition new_snapshot_fetch :: "snapshot_id \<Rightarrow> node_id \<Rightarrow> snapshot_fetch_state" where
  "new_snapshot_fetch id' leader = with_max id' leader METADATA_SNAPSHOT_FETCH_HARD_MAX_BYTES"

definition next_position :: "snapshot_fetch_state \<Rightarrow> int" where
  "next_position st = min (int (length (sf_buf st))) i64_max"

definition on_chunk ::
    "snapshot_id \<Rightarrow> int \<Rightarrow> int \<Rightarrow> bytes \<Rightarrow> snapshot_fetch_state \<Rightarrow> snapshot_fetch_state \<times> snapshot_fetch_step" where
  "on_chunk id' size' position chunk st =
     (if int (length (sf_buf st)) > i64_max then (st, StepRestart)
      else if int (length chunk) > i64_max then (st, StepRestart)
      else
        (case snapshot_chunk_admission (id' = sf_snapshot_id st) (sf_size st) (int (length (sf_buf st)))
                size' position (int (length chunk)) (sf_max_size st) of
           ChunkRestart \<Rightarrow> (st, StepRestart)
         | ChunkContinue next_pos \<Rightarrow>
             (st\<lparr>sf_size := Some size', sf_buf := sf_buf st @ chunk\<rparr>, StepContinue next_pos)
         | ChunkComplete \<Rightarrow>
             (st\<lparr>sf_size := Some size', sf_buf := []\<rparr>, StepComplete (sf_buf st @ chunk))))"

section \<open>The leader's answer (\<open>quorum_requests.rs\<close>)\<close>

definition UNKNOWN_TOPIC_OR_PARTITION :: int where "UNKNOWN_TOPIC_OR_PARTITION = 3"
definition NOT_LEADER_OR_FOLLOWER :: int where "NOT_LEADER_OR_FOLLOWER = 6"
definition INVALID_REQUEST :: int where "INVALID_REQUEST = 42"
definition FENCED_LEADER_EPOCH :: int where "FENCED_LEADER_EPOCH = 74"
definition UNKNOWN_LEADER_EPOCH :: int where "UNKNOWN_LEADER_EPOCH = 75"
definition SNAPSHOT_NOT_FOUND :: int where "SNAPSHOT_NOT_FOUND = 98"
definition POSITION_OUT_OF_RANGE :: int where "POSITION_OUT_OF_RANGE = 99"
definition INCONSISTENT_CLUSTER_ID :: int where "INCONSISTENT_CLUSTER_ID = 104"

definition METADATA_TOPIC :: string where "METADATA_TOPIC = ''__cluster_metadata''"
definition METADATA_PARTITION :: int where "METADATA_PARTITION = 0"

record fetch_snapshot_partition_request =
  fsp_partition :: int
  fsp_current_leader_epoch :: int
  fsp_snapshot_id :: snapshot_id
  fsp_position :: int

record fetch_snapshot_request =
  fs_cluster_id :: "string option"
  fs_replica_id :: int
  fs_max_bytes :: int
  fs_topics :: "(string \<times> fetch_snapshot_partition_request list) list"

record snapshot_chunk =
  sc_snapshot_id :: snapshot_id
  sc_size :: int
  sc_position :: int
  sc_bytes :: bytes

record fetch_snapshot_partition =
  fp_topic :: string
  fp_index :: int
  fp_error_code :: int
  fp_current_leader :: bool
  fp_chunk :: "snapshot_chunk option"

datatype fetch_snapshot_answer = FetchSnapshotAnswer int "fetch_snapshot_partition option"

definition has_valid_cluster_id :: "(string \<Rightarrow> uuid option) \<Rightarrow> 'vs machine \<Rightarrow> string option \<Rightarrow> bool" where
  "has_valid_cluster_id parse_cluster_id m name =
     (case name of None \<Rightarrow> True | Some s \<Rightarrow> parse_cluster_id s = Some (cluster_id (qstate m)))"

definition leader_only_request_error :: "'vs machine \<Rightarrow> int \<Rightarrow> int option" where
  "leader_only_request_error m request_epoch =
     (let local_epoch = uint (m_epoch m) in
      if request_epoch < local_epoch then Some FENCED_LEADER_EPOCH
      else if request_epoch > local_epoch then Some UNKNOWN_LEADER_EPOCH
      else if \<not> is_leader (mrole m) then Some NOT_LEADER_OR_FOLLOWER
      else None)"

definition partition_error :: "int \<Rightarrow> fetch_snapshot_answer" where
  "partition_error code =
     FetchSnapshotAnswer 0 (Some \<lparr>fp_topic = METADATA_TOPIC, fp_index = METADATA_PARTITION, fp_error_code = code,
       fp_current_leader = True, fp_chunk = None\<rparr>)"

text \<open>
  The answer and the event the handler runs through the core: a voter that fetches
  a snapshot is in contact with the leader. \<open>opens\<close> and \<open>reads\<close> are whether the
  open and the read of the file succeed.
\<close>

definition answer_fetch_snapshot ::
    "(string \<Rightarrow> uuid option) \<Rightarrow> bool \<Rightarrow> bool \<Rightarrow> checkpoint_dir \<Rightarrow> 'vs machine \<Rightarrow> fetch_snapshot_request
      \<Rightarrow> fetch_snapshot_answer \<times> event option" where
  "answer_fetch_snapshot parse_cluster_id opens reads dir m req =
     (if \<not> has_valid_cluster_id parse_cluster_id m (fs_cluster_id req)
      then (FetchSnapshotAnswer INCONSISTENT_CLUSTER_ID None, None)
      else
        (case fs_topics req of
           [(topic, [p])] \<Rightarrow>
             if topic \<noteq> METADATA_TOPIC \<or> fsp_partition p \<noteq> METADATA_PARTITION
             then (FetchSnapshotAnswer 0 (Some \<lparr>fp_topic = topic, fp_index = fsp_partition p,
                     fp_error_code = UNKNOWN_TOPIC_OR_PARTITION, fp_current_leader = False, fp_chunk = None\<rparr>), None)
             else
               (case leader_only_request_error m (fsp_current_leader_epoch p) of
                  Some err \<Rightarrow> (partition_error err, None)
                | None \<Rightarrow>
                    (case (if fsp_snapshot_id p \<noteq> BOOTSTRAP_SNAPSHOT_ID \<and> opens
                           then load_checkpoint_by_id dir (fst (fsp_snapshot_id p)) (snd (fsp_snapshot_id p))
                           else None) of
                       None \<Rightarrow> (partition_error SNAPSHOT_NOT_FOUND, None)
                     | Some file \<Rightarrow>
                         (case read_chunk file (fsp_position p) (fs_max_bytes req) of
                            OutOfRange \<Rightarrow> (partition_error POSITION_OUT_OF_RANGE, None)
                          | ChunkBytes chunk \<Rightarrow>
                              if \<not> reads then (partition_error SNAPSHOT_NOT_FOUND, None)
                              else (FetchSnapshotAnswer 0 (Some \<lparr>fp_topic = METADATA_TOPIC, fp_index = METADATA_PARTITION,
                                 fp_error_code = 0, fp_current_leader = True,
                                 fp_chunk = Some \<lparr>sc_snapshot_id = fsp_snapshot_id p,
                                   sc_size = min (int (length file)) i64_max, sc_position = fsp_position p,
                                   sc_bytes = chunk\<rparr>\<rparr>),
                               if fs_replica_id req < 0 then None
                               else Some (ReceiveFetchSnapshot (word_of_int (fs_replica_id req)))))))
         | _ \<Rightarrow> (FetchSnapshotAnswer INVALID_REQUEST None, None)))"

section \<open>The follower (\<open>replication.rs\<close>)\<close>

datatype fetch_effect =
    SendFetchTo node_id
  | SendFetchSnapshot node_id snapshot_id int
  | InstallSnapshot snapshot_id bytes

definition should_start_snapshot_fetch :: "snapshot_id \<Rightarrow> int \<Rightarrow> snapshot_id option \<Rightarrow> bool" where
  "should_start_snapshot_fetch id' log_end active \<longleftrightarrow> fst id' > log_end \<and> active \<noteq> Some id'"

definition snapshot_fetch_response_invalid :: "int \<Rightarrow> node_id \<Rightarrow> node_id \<Rightarrow> bool" where
  "snapshot_fetch_response_invalid error_code sender leader \<longleftrightarrow> \<not> (error_code = 0 \<and> sender = leader)"

definition send_fetch :: "node_id \<Rightarrow> node_id \<Rightarrow> fetch_effect list" where
  "send_fetch self leader = (if leader = self then [] else [SendFetchTo leader])"

definition send_fetch_snapshot :: "node_id \<Rightarrow> node_id \<Rightarrow> snapshot_id \<Rightarrow> int \<Rightarrow> fetch_effect list" where
  "send_fetch_snapshot self leader id' position =
     (if leader = self then [] else [SendFetchSnapshot leader id' position])"

text \<open>The \<open>Snapshot\<close> arm of \<open>on_fetch_response\<close>.\<close>

definition on_snapshot_offer ::
    "node_id \<Rightarrow> int \<Rightarrow> int \<Rightarrow> node_id \<Rightarrow> snapshot_id \<Rightarrow> snapshot_fetch_state option
      \<Rightarrow> snapshot_fetch_state option \<times> fetch_effect list" where
  "on_snapshot_offer self max_size log_end sender id' fetch =
     (if should_start_snapshot_fetch id' log_end (map_option sf_snapshot_id fetch)
      then (Some (with_max id' sender max_size), send_fetch_snapshot self sender id' 0)
      else (fetch, []))"

definition on_fetch_snapshot_response ::
    "node_id \<Rightarrow> node_id \<Rightarrow> int \<Rightarrow> snapshot_chunk \<Rightarrow> snapshot_fetch_state option
      \<Rightarrow> snapshot_fetch_state option \<times> fetch_effect list" where
  "on_fetch_snapshot_response self sender error_code chunk fetch =
     (case fetch of
        None \<Rightarrow> (None, [])
      | Some st \<Rightarrow>
          if snapshot_fetch_response_invalid error_code sender (sf_leader_id st)
          then (None, send_fetch self sender)
          else
            (case on_chunk (sc_snapshot_id chunk) (sc_size chunk) (sc_position chunk) (sc_bytes chunk) st of
               (st', StepContinue next_pos) \<Rightarrow>
                 (Some st', send_fetch_snapshot self sender (sc_snapshot_id chunk) next_pos)
             | (st', StepRestart) \<Rightarrow> (None, send_fetch self sender)
             | (st', StepComplete assembled) \<Rightarrow>
                 (None, InstallSnapshot (sf_snapshot_id st) assembled # send_fetch self sender)))"

section \<open>Reassembly is bounded and exact\<close>

text \<open>What holds of a transfer in flight, whatever chunks have arrived.\<close>

definition fetch_bounded :: "snapshot_fetch_state \<Rightarrow> bool" where
  "fetch_bounded st \<longleftrightarrow>
     int (length (sf_buf st)) \<le> sf_max_size st
     \<and> (case sf_size st of None \<Rightarrow> sf_buf st = [] | Some s \<Rightarrow> int (length (sf_buf st)) \<le> s \<and> s \<le> sf_max_size st)"

lemma chunk_admission_accepts:
  assumes "snapshot_chunk_admission same fixed received declared position len max_size = d" "d \<noteq> ChunkRestart"
  shows "same \<and> position = received \<and> declared \<le> max_size \<and> (fixed = None \<or> fixed = Some declared)
    \<and> (d = ChunkComplete \<and> received + len = declared \<or> d = ChunkContinue (received + len) \<and> received + len < declared)"
  using assms
  by (auto simp: snapshot_chunk_admission_def checked_add_i64_def split: if_splits option.splits)

lemma on_chunk_cases:
  obtains (restart) "on_chunk id' size' position chunk st = (st, StepRestart)"
  | (accepted) "id' = sf_snapshot_id st" "position = int (length (sf_buf st))" "size' \<le> sf_max_size st"
      "sf_size st = None \<or> sf_size st = Some size'" "int (length (sf_buf st @ chunk)) < size'"
      "on_chunk id' size' position chunk st =
         (st\<lparr>sf_size := Some size', sf_buf := sf_buf st @ chunk\<rparr>, StepContinue (int (length (sf_buf st @ chunk))))"
  | (complete) "id' = sf_snapshot_id st" "position = int (length (sf_buf st))" "size' \<le> sf_max_size st"
      "sf_size st = None \<or> sf_size st = Some size'" "int (length (sf_buf st @ chunk)) = size'"
      "on_chunk id' size' position chunk st =
         (st\<lparr>sf_size := Some size', sf_buf := []\<rparr>, StepComplete (sf_buf st @ chunk))"
proof (cases "int (length (sf_buf st)) > i64_max \<or> int (length chunk) > i64_max")
  case True
  then show ?thesis by (intro restart) (auto simp: on_chunk_def)
next
  case fits: False
  define d where "d = snapshot_chunk_admission (id' = sf_snapshot_id st) (sf_size st) (int (length (sf_buf st)))
    size' position (int (length chunk)) (sf_max_size st)"
  show ?thesis
  proof (cases "d = ChunkRestart")
    case True
    with fits show ?thesis by (intro restart) (simp add: on_chunk_def d_def)
  next
    case False
    note facts = chunk_admission_accepts[OF d_def[symmetric] False]
    then consider "d = ChunkComplete" | "d = ChunkContinue (int (length (sf_buf st @ chunk)))" by auto
    then show ?thesis
    proof cases
      case 1
      with fits facts show ?thesis by (intro complete) (auto simp: on_chunk_def d_def)
    next
      case 2
      with fits facts show ?thesis by (intro accepted) (auto simp: on_chunk_def d_def)
    qed
  qed
qed

lemma on_chunk_bounded:
  assumes "fetch_bounded st" "on_chunk id' size' position chunk st = (st', step)"
  shows "fetch_bounded st' \<and> sf_max_size st' = sf_max_size st \<and> sf_snapshot_id st' = sf_snapshot_id st
    \<and> (\<forall>bs. step = StepComplete bs \<longrightarrow> int (length bs) \<le> sf_max_size st)"
  using assms
  by (cases rule: on_chunk_cases[of id' size' position chunk st])
    (auto simp: fetch_bounded_def split: option.splits)

text \<open>A chunk of a given file: its declared size and its bytes are those of the file.\<close>

definition chunk_of :: "bytes \<Rightarrow> snapshot_chunk \<Rightarrow> bool" where
  "chunk_of file c \<longleftrightarrow>
     sc_size c = int (length file) \<and> 0 \<le> sc_position c
     \<and> prefix (sc_bytes c) (drop (nat (sc_position c)) file)"

definition prefix_fetched :: "bytes \<Rightarrow> snapshot_fetch_state \<Rightarrow> bool" where
  "prefix_fetched file st \<longleftrightarrow> prefix (sf_buf st) file"

lemma prefix_grows:
  assumes "prefix buf file" "prefix chunk (drop (length buf) file)"
  shows "prefix (buf @ chunk) file"
  using assms by (auto simp: prefix_def)

lemma on_chunk_prefix:
  assumes "prefix_fetched file st" "chunk_of file c"
    and "on_chunk (sc_snapshot_id c) (sc_size c) (sc_position c) (sc_bytes c) st = (st', step)"
  shows "prefix_fetched file st' \<and> (\<forall>bs. step = StepComplete bs \<longrightarrow> bs = file)"
proof (cases rule: on_chunk_cases[of "sc_snapshot_id c" "sc_size c" "sc_position c" "sc_bytes c" st])
  case restart
  with assms show ?thesis by simp
next
  case accepted
  then have "prefix (sc_bytes c) (drop (length (sf_buf st)) file)" using assms(2) by (simp add: chunk_of_def)
  from prefix_grows[OF _ this] accepted assms(1,3) show ?thesis by (auto simp: prefix_fetched_def)
next
  case complete
  then have "prefix (sc_bytes c) (drop (length (sf_buf st)) file)" using assms(2) by (simp add: chunk_of_def)
  from prefix_grows[OF _ this] assms(1) have "prefix (sf_buf st @ sc_bytes c) file" by (simp add: prefix_fetched_def)
  moreover have "length (sf_buf st @ sc_bytes c) = length file"
    using complete(5) assms(2) by (simp add: chunk_of_def del: length_append)
  ultimately have "sf_buf st @ sc_bytes c = file" by (auto simp: prefix_def)
  with complete(6) assms(3) show ?thesis by (auto simp: prefix_fetched_def)
qed

text \<open>A run of the follower over answers and offers in any order.\<close>

datatype follower_input =
    Offer node_id int snapshot_id
  | Chunk node_id int snapshot_chunk

fun follower_step ::
    "node_id \<Rightarrow> int \<Rightarrow> follower_input \<Rightarrow> snapshot_fetch_state option \<Rightarrow> snapshot_fetch_state option \<times> fetch_effect list" where
  "follower_step self max_size (Offer sender log_end id') fetch = on_snapshot_offer self max_size log_end sender id' fetch"
| "follower_step self max_size (Chunk sender error_code c) fetch = on_fetch_snapshot_response self sender error_code c fetch"

fun follower_run ::
    "node_id \<Rightarrow> int \<Rightarrow> follower_input list \<Rightarrow> snapshot_fetch_state option \<Rightarrow> snapshot_fetch_state option \<times> fetch_effect list" where
  "follower_run self max_size [] fetch = (fetch, [])"
| "follower_run self max_size (i # inputs) fetch =
     (let (fetch', effects) = follower_step self max_size i fetch;
          (fetch'', effects') = follower_run self max_size inputs fetch'
      in (fetch'', effects @ effects'))"

definition follower_ok :: "int \<Rightarrow> (snapshot_id \<Rightarrow> bytes) \<Rightarrow> snapshot_fetch_state option \<Rightarrow> bool" where
  "follower_ok max_size content fetch =
     (case fetch of
        None \<Rightarrow> True
      | Some st \<Rightarrow> fetch_bounded st \<and> sf_max_size st = max_size \<and> prefix_fetched (content (sf_snapshot_id st)) st)"

definition genuine :: "(snapshot_id \<Rightarrow> bytes) \<Rightarrow> follower_input \<Rightarrow> bool" where
  "genuine content i = (case i of Chunk _ _ c \<Rightarrow> chunk_of (content (sc_snapshot_id c)) c | _ \<Rightarrow> True)"

lemma follower_step_ok:
  assumes "follower_ok max_size content fetch" "0 \<le> max_size" "follower_step self max_size i fetch = (fetch', effects)"
    and "genuine content i"
  shows "follower_ok max_size content fetch'
    \<and> (\<forall>id' bs. InstallSnapshot id' bs \<in> set effects \<longrightarrow> bs = content id' \<and> int (length bs) \<le> max_size)"
proof (cases i)
  case (Offer sender log_end id')
  with assms show ?thesis
    by (auto simp: follower_ok_def on_snapshot_offer_def with_max_def fetch_bounded_def prefix_fetched_def
        send_fetch_snapshot_def split: if_splits)
next
  case (Chunk sender error_code c)
  show ?thesis
  proof (cases fetch)
    case None
    with Chunk assms show ?thesis by (simp add: on_fetch_snapshot_response_def follower_ok_def)
  next
    case (Some st)
    obtain st' step where r: "on_chunk (sc_snapshot_id c) (sc_size c) (sc_position c) (sc_bytes c) st = (st', step)"
      by fastforce
    have same: "step \<noteq> StepRestart \<Longrightarrow> sc_snapshot_id c = sf_snapshot_id st"
      using r by (cases rule: on_chunk_cases[of "sc_snapshot_id c" "sc_size c" "sc_position c" "sc_bytes c" st]) auto
    have st: "fetch_bounded st" "sf_max_size st = max_size" "prefix_fetched (content (sf_snapshot_id st)) st"
      using assms(1) Some by (auto simp: follower_ok_def)
    have "step \<noteq> StepRestart \<Longrightarrow> chunk_of (content (sf_snapshot_id st)) c"
      using assms(4) same Chunk by (simp add: genuine_def)
    with on_chunk_bounded[OF st(1) r] on_chunk_prefix[OF st(3) _ r] st(2) same Chunk Some assms(3) r
    show ?thesis
      by (auto simp: on_fetch_snapshot_response_def follower_ok_def send_fetch_def send_fetch_snapshot_def
          split: if_splits snapshot_fetch_step.splits)
  qed
qed

lemma follower_run_ok:
  assumes "follower_ok max_size content fetch" "0 \<le> max_size" "follower_run self max_size inputs fetch = (fetch', effects)"
    and "\<forall>i \<in> set inputs. genuine content i"
  shows "follower_ok max_size content fetch'
    \<and> (\<forall>id' bs. InstallSnapshot id' bs \<in> set effects \<longrightarrow> bs = content id' \<and> int (length bs) \<le> max_size)"
  using assms
proof (induction inputs arbitrary: fetch fetch' effects)
  case (Cons i inputs)
  obtain f1 e1 where s: "follower_step self max_size i fetch = (f1, e1)" by fastforce
  obtain f2 e2 where r: "follower_run self max_size inputs f1 = (f2, e2)" by fastforce
  from follower_step_ok[OF Cons.prems(1,2) s] Cons.prems(4)
  have "follower_ok max_size content f1"
    "\<forall>id' bs. InstallSnapshot id' bs \<in> set e1 \<longrightarrow> bs = content id' \<and> int (length bs) \<le> max_size" by auto
  with Cons.IH[OF _ Cons.prems(2) r] Cons.prems(3,4) s r show ?case by auto
qed simp

section \<open>A transfer completes\<close>

text \<open>
  The interface the follower relies on: a server that, for every position of the
  file, answers with the file's size and the bytes from there, up to a positive
  limit. One round of a transfer is a request, its answer and the follower's step.
\<close>

fun transfer_rounds ::
    "(int \<Rightarrow> snapshot_chunk option) \<Rightarrow> node_id \<Rightarrow> node_id \<Rightarrow> nat \<Rightarrow> int \<Rightarrow> snapshot_fetch_state option
      \<Rightarrow> fetch_effect list option" where
  "transfer_rounds serve self leader 0 position fetch = None"
| "transfer_rounds serve self leader (Suc n) position fetch =
     (case serve position of
        None \<Rightarrow> None
      | Some c \<Rightarrow>
          (case on_fetch_snapshot_response self leader 0 c fetch of
             (fetch', [SendFetchSnapshot _ _ next_pos]) \<Rightarrow> transfer_rounds serve self leader n next_pos fetch'
           | (_, effects) \<Rightarrow> Some effects))"

definition round_count :: "nat \<Rightarrow> nat \<Rightarrow> nat" where
  "round_count lim len = (len + lim - 1) div lim"

lemma round_count_step:
  assumes "0 < lim" "lim < len"
  shows "round_count lim len = Suc (round_count lim (len - lim))"
proof -
  have "len + lim - 1 = (len - lim + lim - 1) + lim" using assms(2) by simp
  then show ?thesis using assms(1) unfolding round_count_def by (metis div_add_self2 Suc_eq_plus1 less_numeral_extra(3))
qed

lemma round_count_last: "0 < len \<Longrightarrow> len \<le> lim \<Longrightarrow> round_count lim len = 1"
  unfolding round_count_def by (rule div_nat_eqI) auto

locale chunk_server =
  fixes serve :: "'cfg \<Rightarrow> int \<Rightarrow> snapshot_chunk option"
    and ready :: "'cfg \<Rightarrow> bool"
    and snapshot :: "'cfg \<Rightarrow> snapshot_id"
    and content :: "'cfg \<Rightarrow> bytes"
    and limit :: "'cfg \<Rightarrow> nat"
  assumes limit_pos: "ready cfg \<Longrightarrow> 0 < limit cfg"
    and served: "ready cfg \<Longrightarrow> n < length (content cfg) \<Longrightarrow> int (length (content cfg)) \<le> i64_max \<Longrightarrow>
      serve cfg (int n) = Some \<lparr>sc_snapshot_id = snapshot cfg, sc_size = int (length (content cfg)),
        sc_position = int n, sc_bytes = take (limit cfg) (drop n (content cfg))\<rparr>"
begin

lemma transfer_from:
  assumes r: "ready cfg" and fits: "int (length (content cfg)) \<le> max_size" "max_size \<le> i64_max" and "leader \<noteq> self"
    and "n < length (content cfg)" "sf_buf st = take n (content cfg)"
    and "sf_snapshot_id st = snapshot cfg" "sf_leader_id st = leader" "sf_max_size st = max_size"
    and "sf_size st = None \<or> sf_size st = Some (int (length (content cfg)))"
  shows "transfer_rounds (serve cfg) self leader (round_count (limit cfg) (length (content cfg) - n)) (int n) (Some st)
    = Some [InstallSnapshot (snapshot cfg) (content cfg), SendFetchTo leader]"
  using assms(4-)
proof (induction "length (content cfg) - n" arbitrary: n st rule: less_induct)
  case less
  let ?file = "content cfg"
  let ?chunk = "take (limit cfg) (drop n ?file)"
  have sv: "serve cfg (int n) = Some \<lparr>sc_snapshot_id = snapshot cfg, sc_size = int (length ?file),
      sc_position = int n, sc_bytes = ?chunk\<rparr>"
    using served[OF r less.prems(2)] fits by simp
  have len: "length (sf_buf st) = n" using less.prems by simp
  have cat: "sf_buf st @ ?chunk = take (n + limit cfg) ?file" using less.prems(3) by (simp add: take_add)
  have small: "int n \<le> i64_max" "int (length ?chunk) \<le> i64_max" "int (n + length ?chunk) \<le> i64_max"
    using fits less.prems(2) by auto
  show ?case
  proof (cases "limit cfg < length ?file - n")
    case True
    let ?st = "st\<lparr>sf_size := Some (int (length ?file)), sf_buf := sf_buf st @ ?chunk\<rparr>"
    have "on_chunk (snapshot cfg) (int (length ?file)) (int n) ?chunk st
        = (?st, StepContinue (int (n + limit cfg)))"
      using True less.prems fits small len
      by (auto simp: on_chunk_def snapshot_chunk_admission_def checked_add_i64_def i64_range_def i64_min_def)
    then have "transfer_rounds (serve cfg) self leader (round_count (limit cfg) (length ?file - n)) (int n) (Some st)
        = transfer_rounds (serve cfg) self leader (round_count (limit cfg) (length ?file - (n + limit cfg))) (int (n + limit cfg)) (Some ?st)"
      using less.prems round_count_step[OF limit_pos[OF r] True] sv
      by (simp add: on_fetch_snapshot_response_def snapshot_fetch_response_invalid_def send_fetch_snapshot_def)
    then show ?thesis
      using less.hyps[of "n + limit cfg" ?st] True less.prems cat limit_pos[OF r] by simp
  next
    case False
    have "on_chunk (snapshot cfg) (int (length ?file)) (int n) ?chunk st
        = (st\<lparr>sf_size := Some (int (length ?file)), sf_buf := []\<rparr>, StepComplete ?file)"
      using False less.prems fits small len
      by (auto simp: on_chunk_def snapshot_chunk_admission_def checked_add_i64_def i64_range_def i64_min_def)
    then show ?thesis
      using less.prems round_count_last[of "length ?file - n" "limit cfg"] False sv
      by (simp add: on_fetch_snapshot_response_def snapshot_fetch_response_invalid_def send_fetch_def)
  qed
qed

end

text \<open>The leader serves a snapshot it holds: the interface on \<open>answer_fetch_snapshot\<close>.\<close>

record 'vs serving =
  sv_parse :: "string \<Rightarrow> uuid option"
  sv_dir :: checkpoint_dir
  sv_leader :: "'vs machine"
  sv_replica :: int
  sv_max_bytes :: int
  sv_snapshot :: snapshot_id

definition snapshot_request :: "'vs serving \<Rightarrow> int \<Rightarrow> fetch_snapshot_request" where
  "snapshot_request cfg position =
     \<lparr>fs_cluster_id = None, fs_replica_id = sv_replica cfg, fs_max_bytes = sv_max_bytes cfg,
      fs_topics = [(METADATA_TOPIC, [\<lparr>fsp_partition = METADATA_PARTITION,
        fsp_current_leader_epoch = uint (m_epoch (sv_leader cfg)), fsp_snapshot_id = sv_snapshot cfg,
        fsp_position = position\<rparr>])]\<rparr>"

definition leader_serves :: "'vs serving \<Rightarrow> int \<Rightarrow> snapshot_chunk option" where
  "leader_serves cfg position =
     (case answer_fetch_snapshot (sv_parse cfg) True True (sv_dir cfg) (sv_leader cfg) (snapshot_request cfg position) of
        (FetchSnapshotAnswer _ (Some p), _) \<Rightarrow> fp_chunk p
      | _ \<Rightarrow> None)"

definition snapshot_file :: "'vs serving \<Rightarrow> bytes" where
  "snapshot_file cfg =
     (case load_checkpoint_by_id (sv_dir cfg) (fst (sv_snapshot cfg)) (snd (sv_snapshot cfg)) of
        None \<Rightarrow> [] | Some file \<Rightarrow> file)"

definition serving_ok :: "'vs serving \<Rightarrow> bool" where
  "serving_ok cfg \<longleftrightarrow>
     is_leader (mrole (sv_leader cfg)) \<and> sv_snapshot cfg \<noteq> BOOTSTRAP_SNAPSHOT_ID \<and> 0 < sv_max_bytes cfg"

interpretation leader_chunks: chunk_server leader_serves serving_ok sv_snapshot snapshot_file "nat \<circ> sv_max_bytes"
proof
  fix cfg :: "'vs serving" and n
  assume ok: "serving_ok cfg"
  then show "0 < (nat \<circ> sv_max_bytes) cfg" by (simp add: serving_ok_def)
  assume n: "n < length (snapshot_file cfg)" and fits: "int (length (snapshot_file cfg)) \<le> i64_max"
  obtain f where "load_checkpoint_by_id (sv_dir cfg) (fst (sv_snapshot cfg)) (snd (sv_snapshot cfg)) = Some f"
    "snapshot_file cfg = f"
    using n by (auto simp: snapshot_file_def split: option.splits)
  note f = this
  have "read_chunk f (int n) (sv_max_bytes cfg) = ChunkBytes (take (nat (sv_max_bytes cfg)) (drop n f))"
    using ok n f by (auto simp: read_chunk_def Let_def serving_ok_def min_def)
  with f show "leader_serves cfg (int n) = Some \<lparr>sc_snapshot_id = sv_snapshot cfg,
      sc_size = int (length (snapshot_file cfg)), sc_position = int n,
      sc_bytes = take ((nat \<circ> sv_max_bytes) cfg) (drop n (snapshot_file cfg))\<rparr>"
    using ok n fits
    by (simp add: leader_serves_def snapshot_request_def answer_fetch_snapshot_def has_valid_cluster_id_def
        leader_only_request_error_def Let_def serving_ok_def)
qed

section \<open>Properties\<close>


definition serving_leader :: "nat serving" where
  "serving_leader =
     \<lparr>sv_parse = (\<lambda>_. None), sv_dir = [(checkpoint_name 10 1, [1, 2, 3, 4, 5])],
      sv_leader = \<lparr>me = 1, qstate = bootstrap 0 0, adjacent_voters = None, mrole = Leader [] {} 0 0,
        election_timeout_ms = 0, fetch_timeout_ms = 0\<rparr>,
      sv_replica = 2, sv_max_bytes = 2, sv_snapshot = (10, 1)\<rparr>"



definition two_chunks :: "follower_input list" where
  "two_chunks =
     [Offer 1 0 (10, 1),
      Chunk 1 0 \<lparr>sc_snapshot_id = (10, 1), sc_size = 3, sc_position = 0, sc_bytes = [7, 8]\<rparr>,
      Chunk 1 0 \<lparr>sc_snapshot_id = (10, 1), sc_size = 3, sc_position = 2, sc_bytes = [9]\<rparr>]"




end
