(* ===== verification/Controller_Engine.thy ===== *)
theory Controller_Engine
  imports Quorum_Elections Quorum_State_File Snapshot_Fetch
begin

text \<open>
  The controller engine around the consensus core, in the order of its modules
  under \<open>crates/raft/src/kraft/controller\<close>: the timer predicates (\<open>timing.rs\<close>),
  the requests it sends (\<open>peer_rpc.rs\<close>), the executor of the core's actions and
  the timers (\<open>engine_loop.rs\<close>), the requests it answers (\<open>inbound.rs\<close>,
  \<open>quorum_requests.rs\<close>) and the answers to its votes (\<open>vote_response.rs\<close>).

  An engine is the core, the quorum-state file, the log as the core sees it, the
  three core timers and the counters of the fetch timer. What a turn reads from
  outside is the record \<open>engine_env\<close>: the voter-set operations, the textual forms
  of UUIDs, the outcome of a file write, the clock and the configuration. Its
  field \<open>env_log_work\<close> stands for the part of the engine that appends, truncates
  and applies records, and for what the applied control records do to the core;
  the theorems hold for every such function, or name what they ask of it. What a
  turn sends is a list of \<open>engine_effect\<close>; a message is the record its codec
  decodes to, without the listener addresses. Deadlines are milliseconds on the
  core's clock. The assertion of the executor, that no reply reaches it, is the
  value \<open>None\<close>.
\<close>

section \<open>The engine\<close>

record 'vs engine =
  core :: "'vs machine"
  quorum_state_file :: quorum_file
  engine_log :: log_view
  election_at :: "sim_instant option"
  fetch_at :: "sim_instant option"
  check_quorum_at :: "sim_instant option"
  fetch_misses :: u32
  discovery_attempts :: u64

record vote_partition =
  vp_partition_index :: int
  vp_replica_epoch :: int
  vp_replica_id :: int
  vp_replica_directory_id :: uuid
  vp_voter_directory_id :: uuid
  vp_last_offset_epoch :: int
  vp_last_offset :: int
  vp_pre_vote :: bool

record vote_message =
  vm_cluster_id :: "string option"
  vm_voter_id :: int
  vm_topics :: "(string \<times> vote_partition list) list"

record begin_partition =
  bp_partition_index :: int
  bp_voter_directory_id :: uuid
  bp_leader_id :: int
  bp_leader_epoch :: int

record begin_message =
  bm_cluster_id :: "string option"
  bm_voter_id :: int
  bm_topics :: "(string \<times> begin_partition list) list"

record end_partition =
  ep_partition_index :: int
  ep_leader_id :: int
  ep_leader_epoch :: int
  ep_preferred_candidates :: "(int \<times> uuid) list"

record end_message =
  em_cluster_id :: "string option"
  em_topics :: "(string \<times> end_partition list) list"

datatype engine_effect =
    VoteTo node_id vote_message
  | BeginQuorumEpochTo node_id begin_message
  | EndQuorumEpochTo node_id end_message
  | FetchFrom node_id

type_synonym 'vs turn = "'vs engine \<times> engine_effect list"

record ('vs, 'vt) engine_env =
  env_voters :: "('vs, 'vt) voter_ops"
  env_text :: uuid_text
  env_parse_cluster :: "string \<Rightarrow> uuid option"
  env_write :: write_outcome
  env_log_work :: "action \<Rightarrow> 'vs engine \<Rightarrow> 'vs turn"
  env_now :: sim_instant
  env_miss_limit :: u32
  env_discovery_peers :: "node_id list"

section \<open>Timers (\<open>timing.rs\<close>)\<close>

definition HEARTBEAT_DIVISOR :: u64 where "HEARTBEAT_DIVISOR = 3"

definition initial_election_at ::
    "('vs, 'vt) voter_ops \<Rightarrow> 'vs machine \<Rightarrow> node_id option \<Rightarrow> sim_instant option" where
  "initial_election_at V m initial_leader =
     (if is_voter V m \<and> initial_leader = None
      then if vs_len V (m_voters m) = 1 then Some 0
           else Some (saturating_add (election_timeout_ms m)
                  (election_jitter_ms (me m) (m_epoch m) (election_timeout_ms m)))
      else None)"

definition heartbeat_period_ms :: "int \<Rightarrow> int option \<Rightarrow> int" where
  "heartbeat_period_ms fetch_timeout configured =
     (case configured of
        Some c \<Rightarrow> c
      | None \<Rightarrow>
          (let period = uint (max (whole_millis fetch_timeout div HEARTBEAT_DIVISOR) 1)
           in if period \<le> i64_max then period else i64_max))"

definition election_timer_starts_election :: "bool \<Rightarrow> bool \<Rightarrow> bool" where
  "election_timer_starts_election voter leading \<longleftrightarrow> voter \<and> \<not> leading"

fun following_leader_for_role :: "role \<Rightarrow> node_id option" where
  "following_leader_for_role (Follower l _ _) = Some l"
| "following_leader_for_role (Observer l _) = l"
| "following_leader_for_role _ = None"

definition should_fail_waiters_on_leadership_change :: "bool \<Rightarrow> bool \<Rightarrow> epoch \<Rightarrow> epoch \<Rightarrow> bool" where
  "should_fail_waiters_on_leadership_change was_leader leading held_epoch current_epoch \<longleftrightarrow>
     was_leader \<and> (\<not> leading \<or> held_epoch \<noteq> current_epoch)"

section \<open>Peer requests (\<open>peer_rpc.rs\<close>)\<close>

definition other_voters :: "('vs, 'vt) voter_ops \<Rightarrow> 'vs machine \<Rightarrow> node_id list" where
  "other_voters V m = filter (\<lambda>n. n \<noteq> me m) (vs_ids V (m_voters m))"

definition directory_of :: "('vs, 'vt) voter_ops \<Rightarrow> 'vs machine \<Rightarrow> node_id \<Rightarrow> uuid" where
  "directory_of V m n = (case vs_get V (m_voters m) n of None \<Rightarrow> 0 | Some v \<Rightarrow> vt_directory_id V v)"

text \<open>The \<open>Vote\<close> arm of \<open>PeerRequest::try_encode\<close>.\<close>

definition encode_vote ::
    "uuid_text \<Rightarrow> uuid \<Rightarrow> node_id \<Rightarrow> uuid \<Rightarrow> epoch \<Rightarrow> node_id \<Rightarrow> uuid \<Rightarrow> epoch \<Rightarrow> int \<Rightarrow> bool \<Rightarrow> vote_message option" where
  "encode_vote ut cid voter voter_dir candidate_epoch candidate candidate_dir last_e last_off pre_vote =
     (if vote_encode_decision voter candidate candidate_epoch last_e \<noteq> EncodeAccept then None
      else
        (case (i32_try_from voter, i32_try_from candidate_epoch, i32_try_from candidate, i32_try_from last_e) of
           (Some v, Some ce, Some c, Some le) \<Rightarrow>
             Some \<lparr>vm_cluster_id = Some (ut_encode ut cid), vm_voter_id = v,
               vm_topics = [(METADATA_TOPIC, [\<lparr>vp_partition_index = METADATA_PARTITION, vp_replica_epoch = ce,
                 vp_replica_id = c, vp_replica_directory_id = candidate_dir, vp_voter_directory_id = voter_dir,
                 vp_last_offset_epoch = le, vp_last_offset = last_off, vp_pre_vote = pre_vote\<rparr>])]\<rparr>
         | _ \<Rightarrow> None))"

definition broadcast_vote ::
    "('vs, 'vt) engine_env \<Rightarrow> epoch \<Rightarrow> bool \<Rightarrow> 'vs engine \<Rightarrow> engine_effect list" where
  "broadcast_vote env e pre_vote eng =
     (let V = env_voters env; m = core eng in
      case vs_get V (m_voters m) (me m) of
        None \<Rightarrow> []
      | Some candidate_voter \<Rightarrow>
          List.map_filter
            (\<lambda>peer. case vs_get V (m_voters m) peer of
               None \<Rightarrow> None
             | Some v \<Rightarrow>
                 map_option (VoteTo peer)
                   (encode_vote (env_text env) (cluster_id (qstate m)) peer (vt_directory_id V v) e (me m)
                     (vt_directory_id V candidate_voter) (last_epoch (engine_log eng)) (end_offset (engine_log eng)) pre_vote))
            (other_voters V m))"

text \<open>The conversions of \<open>wire/codec.rs\<close>, which saturate.\<close>

definition to_wire :: "'a::len word \<Rightarrow> int" where
  "to_wire w = (case i32_try_from w of None \<Rightarrow> i32_max | Some i \<Rightarrow> i)"

definition broadcast_begin_quorum_epoch ::
    "('vs, 'vt) engine_env \<Rightarrow> epoch \<Rightarrow> 'vs engine \<Rightarrow> engine_effect list" where
  "broadcast_begin_quorum_epoch env e eng =
     (let V = env_voters env; m = core eng in
      map (\<lambda>peer. BeginQuorumEpochTo peer
            \<lparr>bm_cluster_id = Some (ut_encode (env_text env) (cluster_id (qstate m))), bm_voter_id = to_wire peer,
             bm_topics = [(METADATA_TOPIC, [\<lparr>bp_partition_index = METADATA_PARTITION,
               bp_voter_directory_id = directory_of V m peer, bp_leader_id = to_wire (me m),
               bp_leader_epoch = to_wire e\<rparr>])]\<rparr>)
        (other_voters V m))"

definition broadcast_end_quorum_epoch ::
    "('vs, 'vt) engine_env \<Rightarrow> epoch \<Rightarrow> node_id list \<Rightarrow> 'vs engine \<Rightarrow> engine_effect list" where
  "broadcast_end_quorum_epoch env e successors eng =
     (let V = env_voters env; m = core eng;
          body = \<lparr>em_cluster_id = Some (ut_encode (env_text env) (cluster_id (qstate m))),
            em_topics = [(METADATA_TOPIC, [\<lparr>ep_partition_index = METADATA_PARTITION, ep_leader_id = to_wire (me m),
              ep_leader_epoch = to_wire e,
              ep_preferred_candidates = map (\<lambda>n. (to_wire n, directory_of V m n)) successors\<rparr>])]\<rparr>
      in map (\<lambda>peer. EndQuorumEpochTo peer body) (other_voters V m))"

definition engine_send_fetch :: "node_id \<Rightarrow> 'vs engine \<Rightarrow> engine_effect list" where
  "engine_send_fetch leader eng = (if leader = me (core eng) then [] else [FetchFrom leader])"

section \<open>The executor (\<open>engine_loop.rs\<close>)\<close>

definition persist_quorum_state :: "('vs, 'vt) engine_env \<Rightarrow> 'vs engine \<Rightarrow> quorum_file \<times> (quorum_file_error + unit)" where
  "persist_quorum_state env eng =
     save_quorum_state (env_voters env) (env_text env) (env_write env) (qstate (core eng)) (quorum_state_file eng)"

fun execute_one_local :: "('vs, 'vt) engine_env \<Rightarrow> action \<Rightarrow> 'vs engine \<Rightarrow> 'vs turn option" where
  "execute_one_local env (AppendLeaderChange e) eng = Some (env_log_work env (AppendLeaderChange e) eng)"
| "execute_one_local env (AdvanceHighWatermark n) eng = Some (env_log_work env (AdvanceHighWatermark n) eng)"
| "execute_one_local env (TruncateTo point) eng = Some (env_log_work env (TruncateTo point) eng)"
| "execute_one_local env PersistQuorumState eng =
     Some (eng\<lparr>quorum_state_file := fst (persist_quorum_state env eng)\<rparr>, [])"
| "execute_one_local env (ResetTimer ElectionTimer d) eng = Some (eng\<lparr>election_at := Some d\<rparr>, [])"
| "execute_one_local env (ResetTimer FetchTimer d) eng = Some (eng\<lparr>fetch_at := Some d\<rparr>, [])"
| "execute_one_local env (ResetTimer CheckQuorumTimer d) eng = Some (eng\<lparr>check_quorum_at := Some d\<rparr>, [])"
| "execute_one_local env (TransitionedTo _) eng = Some (eng, [])"
| "execute_one_local env _ eng = None"

definition execute_action :: "('vs, 'vt) engine_env \<Rightarrow> action \<Rightarrow> 'vs engine \<Rightarrow> 'vs turn option" where
  "execute_action env a eng =
     (case a of
        SendVoteRequest e pre_vote \<Rightarrow> Some (eng, broadcast_vote env e pre_vote eng)
      | SendBeginQuorumEpoch e \<Rightarrow> Some (eng, broadcast_begin_quorum_epoch env e eng)
      | SendEndQuorumEpoch e successors \<Rightarrow> Some (eng, broadcast_end_quorum_epoch env e successors eng)
      | SendFetch l \<Rightarrow> Some (eng\<lparr>fetch_misses := 0\<rparr>, engine_send_fetch l eng)
      | ReplyDivergingEpoch _ \<Rightarrow> Some (eng, [])
      | _ \<Rightarrow> execute_one_local env a eng)"

fun execute :: "('vs, 'vt) engine_env \<Rightarrow> action list \<Rightarrow> 'vs engine \<Rightarrow> 'vs turn option" where
  "execute env [] eng = Some (eng, [])"
| "execute env (a # acts) eng =
     (case execute_action env a eng of
        None \<Rightarrow> None
      | Some (eng1, out) \<Rightarrow>
          (case execute env acts eng1 of None \<Rightarrow> None | Some (eng2, out') \<Rightarrow> Some (eng2, out @ out')))"

text \<open>\<open>execute_local_only\<close> differs from \<open>execute\<close> in dropping a vote reply.\<close>

fun is_reply_vote :: "action \<Rightarrow> bool" where
  "is_reply_vote (ReplyVote _ _ _) = True"
| "is_reply_vote _ = False"

definition execute_local_only :: "('vs, 'vt) engine_env \<Rightarrow> action list \<Rightarrow> 'vs engine \<Rightarrow> 'vs turn option" where
  "execute_local_only env acts eng = execute env (filter (\<lambda>a. \<not> is_reply_vote a) acts) eng"

definition engine_reconcile_timers :: "'vs engine \<Rightarrow> 'vs engine" where
  "engine_reconcile_timers eng =
     (case mrole (core eng) of
        Leader _ _ _ _ \<Rightarrow> eng\<lparr>election_at := None, fetch_at := None, fetch_misses := 0\<rparr>
      | Follower _ _ _ \<Rightarrow> eng\<lparr>election_at := None, check_quorum_at := None\<rparr>
      | Observer _ _ \<Rightarrow> eng\<lparr>election_at := None, check_quorum_at := None\<rparr>
      | _ \<Rightarrow> eng\<lparr>fetch_at := None, fetch_misses := 0, check_quorum_at := None\<rparr>)"

definition engine_on_event :: "('vs, 'vt) engine_env \<Rightarrow> event \<Rightarrow> 'vs engine \<Rightarrow> 'vs turn option" where
  "engine_on_event env ev eng =
     (case on_event (env_voters env) ev (engine_log eng) (env_now env) (core eng) of
        None \<Rightarrow> None
      | Some (m, acts) \<Rightarrow>
          (case execute env acts (eng\<lparr>core := m\<rparr>) of
             None \<Rightarrow> None
           | Some (eng', out) \<Rightarrow> Some (engine_reconcile_timers eng', out)))"

definition discovery_peer :: "('vs, 'vt) engine_env \<Rightarrow> 'vs engine \<Rightarrow> node_id option" where
  "discovery_peer env eng =
     (if is_voter (env_voters env) (core eng) \<or> following_leader_for_role (mrole (core eng)) \<noteq> None then None
      else
        let others = other_voters (env_voters env) (core eng);
            peers = (if others = [] then env_discovery_peers env else others);
            i = unat (discovery_attempts eng) mod max (length peers) 1
        in if i < length peers then Some (peers ! i) else None)"

definition arm_fetch_timer :: "('vs, 'vt) engine_env \<Rightarrow> 'vs engine \<Rightarrow> 'vs engine" where
  "arm_fetch_timer env eng =
     eng\<lparr>fetch_at := Some (saturating_add_ms (env_now env) (fetch_timeout_ms (core eng)))\<rparr>"

definition send_discovery_fetch :: "('vs, 'vt) engine_env \<Rightarrow> 'vs engine \<Rightarrow> 'vs turn" where
  "send_discovery_fetch env eng =
     (case discovery_peer env eng of
        None \<Rightarrow> (eng, [])
      | Some peer \<Rightarrow>
          (arm_fetch_timer env (eng\<lparr>discovery_attempts := discovery_attempts eng + 1\<rparr>), engine_send_fetch peer eng))"

datatype timer_tick = TickElection | TickFetch | TickCheckQuorum | TickHeartbeat

fun on_timer :: "('vs, 'vt) engine_env \<Rightarrow> timer_tick \<Rightarrow> 'vs engine \<Rightarrow> 'vs turn option" where
  "on_timer env TickElection eng =
     (if election_timer_starts_election (is_voter (env_voters env) (core eng)) (is_leader (mrole (core eng)))
      then engine_on_event env ElectionTimeout eng else Some (eng, []))"
| "on_timer env TickFetch eng =
     (if is_voter (env_voters env) (core eng)
      then engine_on_event env FetchTimeout (eng\<lparr>fetch_misses := 0\<rparr>)
      else
        (case following_leader_for_role (mrole (core eng)) of
           Some l \<Rightarrow>
             (let misses = fetch_misses eng + 1 in
              if misses \<ge> env_miss_limit env
              then engine_on_event env FetchTimeout (eng\<lparr>fetch_misses := 0\<rparr>)
              else Some (arm_fetch_timer env (eng\<lparr>fetch_misses := misses\<rparr>), engine_send_fetch l eng))
         | None \<Rightarrow> Some (send_discovery_fetch env eng)))"
| "on_timer env TickCheckQuorum eng =
     (if is_leader (mrole (core eng)) then engine_on_event env CheckQuorumTimeout eng else Some (eng, []))"
| "on_timer env TickHeartbeat eng =
     (if is_leader (mrole (core eng))
      then Some (eng, broadcast_begin_quorum_epoch env (m_epoch (core eng)) eng) else Some (eng, []))"

text \<open>The timer wake-ups of \<open>run_turn\<close>: the deadline is cleared before the tick runs.\<close>

fun wake_timer :: "('vs, 'vt) engine_env \<Rightarrow> bool \<Rightarrow> timer_tick \<Rightarrow> 'vs engine \<Rightarrow> 'vs turn option" where
  "wake_timer env shutting_down TickElection eng =
     (let eng1 = eng\<lparr>election_at := None\<rparr> in
      if shutting_down then Some (eng1, []) else on_timer env TickElection eng1)"
| "wake_timer env shutting_down TickFetch eng =
     (let eng1 = eng\<lparr>fetch_at := None\<rparr> in
      if shutting_down then Some (eng1, []) else on_timer env TickFetch eng1)"
| "wake_timer env shutting_down TickCheckQuorum eng =
     (let eng1 = eng\<lparr>check_quorum_at := None\<rparr> in
      if shutting_down then Some (eng1, []) else on_timer env TickCheckQuorum eng1)"
| "wake_timer env shutting_down TickHeartbeat eng = on_timer env TickHeartbeat eng"

section \<open>Inbound requests (\<open>inbound.rs\<close>, \<open>quorum_requests.rs\<close>)\<close>

definition engine_advance_epoch_for_vote ::
    "('vs, 'vt) engine_env \<Rightarrow> replica_key \<Rightarrow> epoch \<Rightarrow> 'vs engine \<Rightarrow> 'vs turn option" where
  "engine_advance_epoch_for_vote env candidate e eng =
     (let (m, acts) = advance_epoch_for_vote (env_voters env) candidate e (env_now env) (core eng) in
      case execute_local_only env acts (eng\<lparr>core := m\<rparr>) of
        None \<Rightarrow> None
      | Some (eng', out) \<Rightarrow> Some (engine_reconcile_timers eng', out))"

text \<open>The grant of the last vote reply among the actions.\<close>

fun granted_in :: "action list \<Rightarrow> bool \<Rightarrow> bool" where
  "granted_in [] g = g"
| "granted_in (ReplyVote _ _ granted # acts) g = granted_in acts granted"
| "granted_in (_ # acts) g = granted_in acts g"

definition run_vote_request :: "('vs, 'vt) engine_env \<Rightarrow> event \<Rightarrow> 'vs engine \<Rightarrow> ('vs turn \<times> bool) option" where
  "run_vote_request env ev eng =
     (case on_event (env_voters env) ev (engine_log eng) (env_now env) (core eng) of
        None \<Rightarrow> None
      | Some (m, acts) \<Rightarrow>
          (case execute_local_only env acts (eng\<lparr>core := m\<rparr>) of
             None \<Rightarrow> None
           | Some (eng', out) \<Rightarrow> Some ((engine_reconcile_timers eng', out), granted_in acts False)))"

definition INVALID_VOTER_KEY :: int where "INVALID_VOTER_KEY = 125"

definition names_only_the_metadata_partition :: "(string \<times> int list) list \<Rightarrow> bool" where
  "names_only_the_metadata_partition topics =
     (case topics of [(name, partitions)] \<Rightarrow> name = METADATA_TOPIC \<and> partitions = [METADATA_PARTITION] | _ \<Rightarrow> False)"

definition voter_only_request_error :: "'vs machine \<Rightarrow> int \<Rightarrow> int \<Rightarrow> int option" where
  "voter_only_request_error m remote_id request_epoch =
     (if request_epoch < uint (m_epoch m) then Some FENCED_LEADER_EPOCH
      else if remote_id < 0 then Some INVALID_REQUEST
      else None)"

definition local_directory_id :: "('vs, 'vt) voter_ops \<Rightarrow> 'vs machine \<Rightarrow> uuid option" where
  "local_directory_id V m =
     (case vs_get V (m_voters m) (me m) of
        None \<Rightarrow> None
      | Some v \<Rightarrow> if vt_directory_id V v = 0 then None else Some (vt_directory_id V v))"

definition is_valid_voter_key :: "('vs, 'vt) voter_ops \<Rightarrow> 'vs machine \<Rightarrow> int \<Rightarrow> uuid \<Rightarrow> bool" where
  "is_valid_voter_key V m voter_id voter_dir \<longleftrightarrow>
     voter_id < 0
     \<or> voter_id = uint (me m)
       \<and> (voter_dir = 0 \<or> (case local_directory_id V m of None \<Rightarrow> True | Some d \<Rightarrow> d = voter_dir))"

text \<open>The position of the first candidate that names this replica, or the length of the list.\<close>

fun successor_position :: "('vs, 'vt) voter_ops \<Rightarrow> 'vs machine \<Rightarrow> (int \<times> uuid) list \<Rightarrow> nat" where
  "successor_position V m [] = 0"
| "successor_position V m ((candidate, directory) # rest) =
     (if candidate = uint (me m)
         \<and> (directory = 0 \<or> (case local_directory_id V m of None \<Rightarrow> True | Some d \<Rightarrow> d = directory))
      then 0 else Suc (successor_position V m rest))"

definition rank_of_successor :: "('vs, 'vt) voter_ops \<Rightarrow> 'vs machine \<Rightarrow> (int \<times> uuid) list \<Rightarrow> successor_rank" where
  "rank_of_successor V m candidates =
     \<lparr>sr_position = (if successor_position V m candidates < 2 ^ 32 then word_of_nat (successor_position V m candidates) else - 1),
      sr_successors = (if length candidates < 2 ^ 32 then word_of_nat (length candidates) else - 1)\<rparr>"

record vote_reply =
  vy_top_level_error :: int
  vy_partition_error :: int
  vy_granted :: bool
  vy_leader_id :: "node_id option"
  vy_leader_epoch :: epoch

definition reply_with :: "'vs engine \<Rightarrow> int \<Rightarrow> int \<Rightarrow> bool \<Rightarrow> vote_reply" where
  "reply_with eng top_error part_error granted =
     \<lparr>vy_top_level_error = top_error, vy_partition_error = part_error, vy_granted = granted,
      vy_leader_id = m_leader (core eng), vy_leader_epoch = m_epoch (core eng)\<rparr>"

text \<open>The event a checked vote request becomes.\<close>

definition vote_event :: "('vs, 'vt) voter_ops \<Rightarrow> 'vs machine \<Rightarrow> vote_partition \<Rightarrow> event" where
  "vote_event V m p =
     ReceiveVoteRequest
       \<lparr>vr_from = word_of_int (vp_replica_id p), vr_cluster_id = Some (cluster_id (qstate m)),
        vr_voter_id = me m, vr_voter_directory_id = directory_of V m (me m),
        vr_candidate_epoch = word_of_int (vp_replica_epoch p), vr_candidate = word_of_int (vp_replica_id p),
        vr_candidate_directory_id = vp_replica_directory_id p,
        vr_candidate_log_end = \<lparr>le_last_epoch = word_of_int (vp_last_offset_epoch p), le_last_offset = vp_last_offset p\<rparr>,
        vr_pre_vote = vp_pre_vote p\<rparr>"

definition answer_vote ::
    "('vs, 'vt) engine_env \<Rightarrow> vote_message \<Rightarrow> 'vs engine \<Rightarrow> ('vs turn \<times> vote_reply) option" where
  "answer_vote env req eng =
     (let V = env_voters env; m = core eng; refuse = (\<lambda>top_error part. Some ((eng, []), reply_with eng top_error part False)) in
      if \<not> has_valid_cluster_id (env_parse_cluster env) m (vm_cluster_id req) then refuse INCONSISTENT_CLUSTER_ID 0
      else if \<not> names_only_the_metadata_partition
                  (map (\<lambda>(name, ps). (name, map vp_partition_index ps)) (vm_topics req))
      then refuse INVALID_REQUEST 0
      else
        (case vm_topics req of
           (_, p # _) # _ \<Rightarrow>
             (let illegal_epoch =
                    (if vp_pre_vote p then vp_last_offset_epoch p > vp_replica_epoch p
                     else vp_last_offset_epoch p \<ge> vp_replica_epoch p)
              in if vp_last_offset p < 0 \<or> vp_last_offset_epoch p < 0 \<or> illegal_epoch then refuse 0 INVALID_REQUEST
                 else
                   (case voter_only_request_error m (vp_replica_id p) (vp_replica_epoch p) of
                      Some err \<Rightarrow> refuse 0 err
                    | None \<Rightarrow>
                        if \<not> is_valid_voter_key V m (vm_voter_id req) (vp_voter_directory_id p)
                        then
                          (if vp_replica_id p \<ge> 0 \<and> vp_replica_epoch p \<ge> 0
                           then
                             (case engine_advance_epoch_for_vote env
                                     \<lparr>rk_id = word_of_int (vp_replica_id p), rk_directory_id = vp_replica_directory_id p\<rparr>
                                     (word_of_int (vp_replica_epoch p)) eng of
                                None \<Rightarrow> None
                              | Some (eng', out) \<Rightarrow> Some ((eng', out), reply_with eng' 0 INVALID_VOTER_KEY False))
                           else refuse 0 INVALID_VOTER_KEY)
                        else if vp_replica_epoch p < 0 \<or> vp_replica_id p < 0 \<or> vp_last_offset_epoch p < 0
                        then refuse 0 INVALID_REQUEST
                        else
                          (case run_vote_request env (vote_event V m p) eng of
                             None \<Rightarrow> None
                           | Some ((eng', out), granted) \<Rightarrow> Some ((eng', out), reply_with eng' 0 0 granted))))
         | _ \<Rightarrow> refuse INVALID_REQUEST 0))"

record epoch_reply =
  er_top_level_error :: int
  er_partition_error :: int
  er_leader_id :: "node_id option"
  er_leader_epoch :: epoch

definition epoch_reply :: "'vs engine \<Rightarrow> int \<Rightarrow> int \<Rightarrow> epoch_reply" where
  "epoch_reply eng top_error part_error =
     \<lparr>er_top_level_error = top_error, er_partition_error = part_error,
      er_leader_id = m_leader (core eng), er_leader_epoch = m_epoch (core eng)\<rparr>"

text \<open>
  The checks both quorum-epoch requests share: the leader and the epoch, or the
  top-level and the partition error. \<open>leader\<close> is the first partition's pair.
\<close>

definition quorum_epoch_request_leader ::
    "('vs, 'vt) engine_env \<Rightarrow> string option \<Rightarrow> (string \<times> int list) list \<Rightarrow> (int \<times> int) option \<Rightarrow> 'vs engine
      \<Rightarrow> (int \<times> int) + (node_id \<times> epoch)" where
  "quorum_epoch_request_leader env cid topics leader eng =
     (if \<not> has_valid_cluster_id (env_parse_cluster env) (core eng) cid then Inl (INCONSISTENT_CLUSTER_ID, 0)
      else if \<not> names_only_the_metadata_partition topics then Inl (INVALID_REQUEST, 0)
      else
        (case leader of
           None \<Rightarrow> Inl (INVALID_REQUEST, 0)
         | Some (l, e) \<Rightarrow>
             (case voter_only_request_error (core eng) l e of
                Some err \<Rightarrow> Inl (0, err)
              | None \<Rightarrow>
                  if l < 0 \<or> e < 0 then Inl (0, INVALID_REQUEST)
                  else Inr (word_of_int l, word_of_int e))))"

definition first_partition :: "(string \<times> 'p list) list \<Rightarrow> 'p option" where
  "first_partition topics = (case topics of (_, p # _) # _ \<Rightarrow> Some p | _ \<Rightarrow> None)"

definition answer_begin_quorum_epoch ::
    "('vs, 'vt) engine_env \<Rightarrow> begin_message \<Rightarrow> 'vs engine \<Rightarrow> ('vs turn \<times> epoch_reply) option" where
  "answer_begin_quorum_epoch env req eng =
     (case quorum_epoch_request_leader env (bm_cluster_id req)
             (map (\<lambda>(name, ps). (name, map bp_partition_index ps)) (bm_topics req))
             (map_option (\<lambda>p. (bp_leader_id p, bp_leader_epoch p)) (first_partition (bm_topics req))) eng of
        Inl (top_error, part_error) \<Rightarrow> Some ((eng, []), epoch_reply eng top_error part_error)
      | Inr (l, e) \<Rightarrow>
          (case first_partition (bm_topics req) of
             None \<Rightarrow> Some ((eng, []), epoch_reply eng 0 INVALID_REQUEST)
           | Some p \<Rightarrow>
               (case engine_on_event env (ReceiveBeginQuorumEpoch l e) eng of
                  None \<Rightarrow> None
                | Some (eng', out) \<Rightarrow>
                    Some ((eng', out), epoch_reply eng' 0
                      (if is_valid_voter_key (env_voters env) (core eng') (bm_voter_id req) (bp_voter_directory_id p)
                       then 0 else INVALID_VOTER_KEY)))))"

definition answer_end_quorum_epoch ::
    "('vs, 'vt) engine_env \<Rightarrow> end_message \<Rightarrow> 'vs engine \<Rightarrow> ('vs turn \<times> epoch_reply) option" where
  "answer_end_quorum_epoch env req eng =
     (case quorum_epoch_request_leader env (em_cluster_id req)
             (map (\<lambda>(name, ps). (name, map ep_partition_index ps)) (em_topics req))
             (map_option (\<lambda>p. (ep_leader_id p, ep_leader_epoch p)) (first_partition (em_topics req))) eng of
        Inl (top_error, part_error) \<Rightarrow> Some ((eng, []), epoch_reply eng top_error part_error)
      | Inr (l, e) \<Rightarrow>
          (case first_partition (em_topics req) of
             None \<Rightarrow> Some ((eng, []), epoch_reply eng 0 INVALID_REQUEST)
           | Some p \<Rightarrow>
               (case engine_on_event env (ReceiveEndQuorumEpoch l e
                       (rank_of_successor (env_voters env) (core eng) (ep_preferred_candidates p))) eng of
                  None \<Rightarrow> None
                | Some (eng', out) \<Rightarrow> Some ((eng', out), epoch_reply eng' 0 0))))"

section \<open>Answers to this replica's votes (\<open>vote_response.rs\<close>)\<close>

record vote_answer =
  va_error_code :: int
  va_granted :: bool
  va_leader_id :: "node_id option"
  va_epoch :: epoch

record vote_asker =
  ask_me :: node_id
  ask_epoch :: epoch
  ask_known_leader :: "node_id option"

datatype vote_response_step =
    VoteStepIgnore
  | VoteStepFollow node_id epoch
  | VoteStepUnattached epoch
  | VoteStepCount epoch bool

definition decide_vote_response_step :: "vote_asker \<Rightarrow> vote_answer \<Rightarrow> vote_response_step" where
  "decide_vote_response_step asker answer =
     (let follow = (case va_leader_id answer of
                      Some l \<Rightarrow> if l \<noteq> ask_me asker then VoteStepFollow l (va_epoch answer) else VoteStepIgnore
                    | None \<Rightarrow> VoteStepIgnore)
      in if va_epoch answer < ask_epoch asker \<or> va_error_code answer = UNKNOWN_LEADER_EPOCH then VoteStepIgnore
         else if va_epoch answer > ask_epoch asker
         then if va_leader_id answer \<noteq> None then follow else VoteStepUnattached (va_epoch answer)
         else if va_leader_id answer \<noteq> None \<and> ask_known_leader asker = None then follow
         else if va_error_code answer = 0 then VoteStepCount (va_epoch answer) (va_granted answer)
         else VoteStepIgnore)"

definition on_vote_response ::
    "('vs, 'vt) engine_env \<Rightarrow> node_id \<Rightarrow> vote_answer \<Rightarrow> 'vs engine \<Rightarrow> 'vs turn option" where
  "on_vote_response env sender answer eng =
     (let asker = \<lparr>ask_me = me (core eng), ask_epoch = m_epoch (core eng), ask_known_leader = known_leader (core eng)\<rparr>
      in case decide_vote_response_step asker answer of
           VoteStepIgnore \<Rightarrow> Some (eng, [])
         | VoteStepFollow l e \<Rightarrow> engine_on_event env (ReceiveBeginQuorumEpoch l e) eng
         | VoteStepUnattached e \<Rightarrow> engine_on_event env (ReceiveLeaderlessEpoch e) eng
         | VoteStepCount e granted \<Rightarrow> engine_on_event env (ReceiveVoteResponse sender e granted) eng)"

section \<open>Graceful shutdown (\<open>graceful_shutdown.rs\<close>)\<close>

definition KAFKA_GRACEFUL_SHUTDOWN_TIMEOUT :: u64 where "KAFKA_GRACEFUL_SHUTDOWN_TIMEOUT = 5000"
definition WINDOW_FETCH_TIMEOUTS_NUM :: u64 where "WINDOW_FETCH_TIMEOUTS_NUM = 5"
definition WINDOW_FETCH_TIMEOUTS_DEN :: u64 where "WINDOW_FETCH_TIMEOUTS_DEN = 2"

definition graceful_shutdown_window :: "int \<Rightarrow> u64" where
  "graceful_shutdown_window fetch_timeout =
     min (saturating_mul (whole_millis fetch_timeout) WINDOW_FETCH_TIMEOUTS_NUM div WINDOW_FETCH_TIMEOUTS_DEN)
       KAFKA_GRACEFUL_SHUTDOWN_TIMEOUT"

definition step_graceful_shutdown :: "('vs, 'vt) engine_env \<Rightarrow> 'vs engine \<Rightarrow> ('vs turn \<times> bool) option" where
  "step_graceful_shutdown env eng =
     (let (m, acts) = resign_for_shutdown (env_voters env) (env_now env) (core eng) in
      if acts = [] then Some ((eng\<lparr>core := m\<rparr>, []), graceful_shutdown_complete (env_voters env) m)
      else
        (case execute env acts (eng\<lparr>core := m\<rparr>) of
           None \<Rightarrow> None
         | Some (eng', out) \<Rightarrow>
             (let eng2 = engine_reconcile_timers eng' in
              Some ((eng2, out), graceful_shutdown_complete (env_voters env) (core eng2)))))"

section \<open>Restart (\<open>startup.rs\<close>)\<close>

text \<open>
  The quorum state a restart begins with: the file, or a fresh bootstrap state, with
  the version and the voters that the checkpoint and the control records of the log
  hold, if they hold any; then the core over it.
\<close>

definition initial_quorum_state ::
    "('vs, 'vt) voter_ops \<Rightarrow> uuid_text \<Rightarrow> quorum_file \<Rightarrow> uuid \<Rightarrow> 'vs \<Rightarrow> u16 option \<Rightarrow> 'vs option
      \<Rightarrow> quorum_file_error + 'vs quorum_state" where
  "initial_quorum_state V ut f cid bootstrap_voters version members =
     (case load_quorum_state V ut f cid bootstrap_voters of
        Inl err \<Rightarrow> Inl err
      | Inr loaded \<Rightarrow>
          (let st = (case loaded of None \<Rightarrow> bootstrap cid bootstrap_voters | Some st \<Rightarrow> st);
               st1 = (case version of None \<Rightarrow> st | Some v \<Rightarrow> st\<lparr>kraft_version := v\<rparr>)
           in Inr (case members of None \<Rightarrow> st1 | Some vs \<Rightarrow> st1\<lparr>voters := vs\<rparr>)))"

definition restarted_core ::
    "('vs, 'vt) voter_ops \<Rightarrow> uuid_text \<Rightarrow> quorum_file \<Rightarrow> uuid \<Rightarrow> 'vs \<Rightarrow> u16 option \<Rightarrow> 'vs option
      \<Rightarrow> node_id \<Rightarrow> int \<Rightarrow> int \<Rightarrow> quorum_file_error + 'vs machine" where
  "restarted_core V ut f cid bootstrap_voters version members n election_millis fetch_millis =
     (case initial_quorum_state V ut f cid bootstrap_voters version members of
        Inl err \<Rightarrow> Inl err
      | Inr st \<Rightarrow> Inr (new_machine V n st election_millis fetch_millis))"

text \<open>The engine of \<open>assemble\<close>: the election timer of a leaderless voter, and nothing else, is armed.\<close>

definition start_engine :: "('vs, 'vt) voter_ops \<Rightarrow> 'vs machine \<Rightarrow> quorum_file \<Rightarrow> log_view \<Rightarrow> 'vs engine" where
  "start_engine V m f log =
     \<lparr>core = m, quorum_state_file = f, engine_log = log, election_at = initial_election_at V m (m_leader m),
      fetch_at = None, check_quorum_at = None, fetch_misses = 0, discovery_attempts = 0\<rparr>"

end
