(* ===== verification/Engine_Safety.thy ===== *)
theory Engine_Safety
  imports Controller_Engine
begin

text \<open>
  What the controller engine guarantees around the core: its executor never meets
  an action it cannot run, a vote it grants over the wire survives a crash, a vote
  request arrives as it was sent, and a voter always has the timer its role waits
  on. The last section shows where these guarantees stop.
\<close>

section \<open>The executor runs every batch of the core\<close>

text \<open>Only a vote request is answered with a vote reply.\<close>

definition replies :: "action list \<Rightarrow> bool" where
  "replies acts \<longleftrightarrow> list_ex is_reply_vote acts"

named_theorems reply_free

lemma replies_simps [simp]:
  "\<not> replies []" "replies (a # acts) \<longleftrightarrow> is_reply_vote a \<or> replies acts"
  "replies (xs @ ys) \<longleftrightarrow> replies xs \<or> replies ys"
  by (simp_all add: replies_def)

lemma reply_free_leader [reply_free]: "\<not> replies (snd (promote_to_leader V log now m))"
  by (simp add: promote_to_leader_def Let_def)

lemma reply_free_candidate [reply_free]: "\<not> replies (snd (promote_to_candidate V log now m))"
  by (simp add: promote_to_candidate_def Let_def case_prod_beta reply_free_leader)

lemma reply_free_start [reply_free]: "\<not> replies (snd (start_election V log now m))"
  by (simp add: start_election_def Let_def case_prod_beta reply_free_candidate)

lemma reply_free_begin [reply_free]: "\<not> replies (snd (handle_begin_quorum_epoch V l e now m))"
  by (simp add: handle_begin_quorum_epoch_def Let_def)

lemma reply_free_simple [reply_free]:
  "\<not> replies (snd (transition_to_unattached e d m))" "\<not> replies (snd (await_election d m))"
  "\<not> replies (snd (become_discovering_observer now m))" "\<not> replies (snd (transition_to_resigned V now m))"
  by (simp_all add: transition_to_unattached_def await_election_def become_discovering_observer_def
      transition_to_resigned_def Let_def)

lemma reply_free_rejection [reply_free]: "\<not> replies (snd (record_pre_vote_rejection V n e now m))"
  by (auto simp: record_pre_vote_rejection_def Let_def reply_free split: role.splits option.splits)

lemma reply_free_election [reply_free]: "\<not> replies (snd (handle_election_timeout V log now m))"
  by (rule handle_election_timeout_cases[of V m log now]) (simp_all add: reply_free)

lemma reply_free_response [reply_free]: "\<not> replies (snd (handle_vote_response V log n e g now m))"
  by (cases rule: handle_vote_response_cases[of g m e V log n now]) (simp_all add: reply_free)

lemma reply_free_contact [reply_free]: "\<not> replies (option_list (snd (record_quorum_contact V n now m)))"
  by (auto simp: record_quorum_contact_def option_list_def Let_def split: role.splits)

lemma reply_free_fetch [reply_free]: "handle_fetch V log n e off now m = Some r \<Longrightarrow> \<not> replies (snd r)"
  using handle_fetch_local(4)[of V log n e off now m "fst r" "snd r"]
  by (fastforce simp: replies_def list_ex_iff)

lemma reply_free_rest [reply_free]:
  "\<not> replies (snd (handle_end_quorum_epoch V log l e k now m))"
  "\<not> replies (snd (handle_fetch_snapshot V n now m))"
  "\<not> replies (snd (handle_fetch_response log l e dv now m))"
  "\<not> replies (snd (handle_leaderless_epoch V e now m))"
  "\<not> replies (snd (handle_check_quorum_timeout V now m))"
  "\<not> replies (snd (handle_fetch_timeout V log now m))"
  by (auto simp: handle_end_quorum_epoch_def handle_fetch_snapshot_def handle_fetch_response_def
      handle_leaderless_epoch_def handle_check_quorum_timeout_def handle_fetch_timeout_def Let_def case_prod_beta
      reply_free split: option.splits)

lemma on_event_reply_free:
  assumes "on_event V ev log now m = Some r" "\<forall>req. ev \<noteq> ReceiveVoteRequest req"
  shows "\<not> replies (snd r)"
  using assms(1) by (cases rule: on_event_cases) (use assms(2) in \<open>auto simp: reply_free\<close>)

definition armed_timer :: "timer_kind \<Rightarrow> sim_instant \<Rightarrow> 'vs engine \<Rightarrow> 'vs engine" where
  "armed_timer k d eng =
     (case k of ElectionTimer \<Rightarrow> eng\<lparr>election_at := Some d\<rparr>
      | FetchTimer \<Rightarrow> eng\<lparr>fetch_at := Some d\<rparr> | CheckQuorumTimer \<Rightarrow> eng\<lparr>check_quorum_at := Some d\<rparr>)"

lemma execute_reset_timer [simp]: "execute_one_local env (ResetTimer k d) eng = Some (armed_timer k d eng, [])"
  by (cases k) (simp_all add: armed_timer_def)

lemma armed_timer_keeps [simp]:
  "core (armed_timer k d eng) = core eng" "quorum_state_file (armed_timer k d eng) = quorum_state_file eng"
  "engine_log (armed_timer k d eng) = engine_log eng"
  by (simp_all add: armed_timer_def split: timer_kind.splits)

lemma execute_action_total: "\<not> is_reply_vote a \<Longrightarrow> \<exists>r. execute_action env a eng = Some r"
  by (cases a) (simp_all add: execute_action_def)

lemma execute_total: "\<not> replies acts \<Longrightarrow> \<exists>r. execute env acts eng = Some r"
proof (induction acts arbitrary: eng)
  case (Cons a acts)
  then obtain eng1 out where a: "execute_action env a eng = Some (eng1, out)"
    using execute_action_total[of a env eng] by auto
  obtain r where "execute env acts eng1 = Some r" using Cons.IH[of eng1] Cons.prems by (auto simp del: split_paired_Ex)
  with a show ?case by (auto split: prod.splits)
qed simp

lemma execute_local_only_total: "\<exists>r. execute_local_only env acts eng = Some r"
  unfolding execute_local_only_def by (rule execute_total) (simp add: replies_def list_ex_iff)

lemma engine_on_event_total:
  assumes "on_event (env_voters env) ev (engine_log eng) (env_now env) (core eng) \<noteq> None"
    and "\<forall>req. ev \<noteq> ReceiveVoteRequest req"
  shows "\<exists>r. engine_on_event env ev eng = Some r"
proof -
  obtain m acts where ev: "on_event (env_voters env) ev (engine_log eng) (env_now env) (core eng) = Some (m, acts)"
    using assms(1) by auto
  then obtain eng' out where "execute env acts (eng\<lparr>core := m\<rparr>) = Some (eng', out)"
    using execute_total[OF on_event_reply_free[OF ev assms(2)], of env "eng\<lparr>core := m\<rparr>"] by auto
  with ev show ?thesis by (simp add: engine_on_event_def)
qed

lemma on_event_total: "(\<forall>n e off. ev \<noteq> ReceiveFetch n e off) \<Longrightarrow> on_event V ev log now m \<noteq> None"
  by (cases ev) simp_all

section \<open>What a batch does to the core, the file and the timers\<close>

fun log_action :: "action \<Rightarrow> bool" where
  "log_action (AppendLeaderChange _) = True"
| "log_action (AdvanceHighWatermark _) = True"
| "log_action (TruncateTo _) = True"
| "log_action _ = False"

lemma save_twice [simp]:
  "fst (save_quorum_state V ut w st (fst (save_quorum_state V ut w st f))) = fst (save_quorum_state V ut w st f)"
  by (auto simp: save_quorum_state_def Let_def split: sum.splits write_outcome.splits)

lemma execute_action_local:
  assumes "execute_action env a eng = Some (eng', out)" "\<not> log_action a"
  shows "core eng' = core eng" "engine_log eng' = engine_log eng"
    "quorum_state_file eng' =
       (if a = PersistQuorumState then fst (persist_quorum_state env eng) else quorum_state_file eng)"
  using assms by (cases a; simp add: execute_action_def; fastforce)+

lemma execute_local:
  assumes "execute env acts eng = Some (eng', out)" "\<forall>a \<in> set acts. \<not> log_action a"
  shows "core eng' = core eng \<and> engine_log eng' = engine_log eng \<and>
    quorum_state_file eng' =
       (if PersistQuorumState \<in> set acts then fst (persist_quorum_state env eng) else quorum_state_file eng)"
  using assms
proof (induction acts arbitrary: eng out)
  case (Cons a acts)
  from Cons.prems(1) obtain eng1 o1 o2 where a: "execute_action env a eng = Some (eng1, o1)"
    and r: "execute env acts eng1 = Some (eng', o2)"
    by (auto split: option.splits prod.splits)
  have l: "\<not> log_action a" using Cons.prems(2) by simp
  from Cons.IH[OF r] Cons.prems(2) execute_action_local[OF a l] show ?case
    by (auto simp: persist_quorum_state_def)
qed simp

lemma reconcile_keeps [simp]:
  "core (engine_reconcile_timers eng) = core eng" "quorum_state_file (engine_reconcile_timers eng) = quorum_state_file eng"
  "engine_log (engine_reconcile_timers eng) = engine_log eng"
  by (simp_all add: engine_reconcile_timers_def split: role.splits)

lemma vote_request_batch:
  "(m', acts) = handle_vote_request V req log now m \<Longrightarrow> a \<in> set acts \<Longrightarrow> \<not> log_action a"
  by (auto simp: handle_vote_request_def advance_epoch_for_vote_def transition_to_unattached_def Let_def
      split: vote_admission_decision.splits if_splits)

lemma granted_in_iff: "granted_in acts g \<Longrightarrow> \<not> g \<Longrightarrow> \<exists>c e. ReplyVote c e True \<in> set acts"
proof (induction acts g rule: granted_in.induct)
  case (2 c e granted acts g)
  then show ?case by (cases granted) (simp_all, blast+)
qed auto

text \<open>A granted request: the core granted it, and the state was written if the core asked for it.\<close>

lemma run_vote_request_granted:
  assumes "run_vote_request env (ReceiveVoteRequest req) eng = Some ((eng', out), True)" "\<not> vr_pre_vote req"
  obtains m' acts c e where
    "on_event (env_voters env) (ReceiveVoteRequest req) (engine_log eng) (env_now env) (core eng) = Some (m', acts)"
    "ReplyVote c e True \<in> set acts" "core eng' = m'"
    "quorum_state_file eng' =
       fst (save_quorum_state (env_voters env) (env_text env) (env_write env) (qstate m') (quorum_state_file eng))"
proof -
  obtain m' acts where h: "handle_vote_request (env_voters env) req (engine_log eng) (env_now env) (core eng) = (m', acts)"
    by (cases "handle_vote_request (env_voters env) req (engine_log eng) (env_now env) (core eng)")
  have ev: "on_event (env_voters env) (ReceiveVoteRequest req) (engine_log eng) (env_now env) (core eng) = Some (m', acts)"
    by (simp add: h)
  from assms(1) obtain eng1 where x: "execute_local_only env acts (eng\<lparr>core := m'\<rparr>) = Some (eng1, out)"
    and eng': "eng' = engine_reconcile_timers eng1" and g: "granted_in acts False"
    by (auto simp: run_vote_request_def h split: option.splits prod.splits)
  obtain c e where c: "ReplyVote c e True \<in> set acts" using granted_in_iff[OF g] by auto
  have "PersistQuorumState \<in> set acts" using binding_grant[OF ev c assms(2)] by simp
  then have "core eng1 = m' \<and> quorum_state_file eng1 = fst (persist_quorum_state env (eng\<lparr>core := m'\<rparr>))"
    using execute_local[OF x[unfolded execute_local_only_def]] vote_request_batch[OF h[symmetric]] by auto
  with that[OF ev c] show ?thesis by (simp add: eng' persist_quorum_state_def)
qed

lemma answer_vote_granted:
  assumes "answer_vote env req eng = Some ((eng', out), reply)" "vy_granted reply"
    and "first_partition (vm_topics req) = Some p"
  shows "run_vote_request env (vote_event (env_voters env) (core eng) p) eng = Some ((eng', out), True)
    \<and> 0 \<le> vp_replica_epoch p \<and> 0 \<le> vp_replica_id p \<and> vy_leader_epoch reply = m_epoch (core eng')"
  using assms
  by (auto simp: answer_vote_def first_partition_def reply_with_def Let_def
      split: if_splits option.splits list.splits prod.splits)

lemma word_of_wire:
  assumes "0 \<le> i" "i \<le> i32_max"
  shows "uint (word_of_int i :: u32) = i" "uint (word_of_int i :: u64) = i"
  using assms by (simp_all add: i32_max_def uint_word_of_int take_bit_int_eq_self_iff)

text \<open>The states whose ballot the file format holds, whatever the epoch and the vote become.\<close>

definition storable :: "('vs, 'vt) voter_ops \<Rightarrow> 'vs machine \<Rightarrow> bool" where
  "storable V m \<longleftrightarrow>
     kraft_version (qstate m) \<le> 1
     \<and> (case m_leader m of None \<Rightarrow> True | Some l \<Rightarrow> fits_i32 l)
     \<and> (kraft_version (qstate m) = 0 \<longrightarrow> list_all fits_i32 (vs_ids V (m_voters m)))"

lemma vote_request_leader:
  assumes "handle_vote_request V req log now m = (m', acts)"
  shows "m_leader m' = None \<or> m_leader m' = m_leader m"
  using assms
  by (auto simp: handle_vote_request_def advance_epoch_for_vote_def transition_to_unattached_def Let_def
      split: vote_admission_decision.splits if_splits)

text \<open>What the file holds after a binding vote was granted over the wire.\<close>

lemma granted_vote_stored:
  assumes "env_write env = Written"
    and "answer_vote env req eng = Some ((eng', out), reply)" "vy_granted reply"
    and "first_partition (vm_topics req) = Some p" "\<not> vp_pre_vote p"
    and "vp_replica_epoch p \<le> i32_max" "vp_replica_id p \<le> i32_max"
    and "storable (env_voters env) (core eng)"
  shows "representable (env_voters env) (qstate (core eng'))
    \<and> quorum_state_file eng' = QuorumFileDocument
        (qj_data_version (document_of (env_voters env) (env_text env) (qstate (core eng'))))
        (Some (document_of (env_voters env) (env_text env) (qstate (core eng'))))
    \<and> m_epoch (core eng') = word_of_int (vp_replica_epoch p)
    \<and> m_vote (core eng') = Some \<lparr>rk_id = word_of_int (vp_replica_id p), rk_directory_id = vp_replica_directory_id p\<rparr>
    \<and> same_config (core eng) (core eng')"
proof -
  let ?V = "env_voters env"
  obtain r where r: "vote_event ?V (core eng) p = ReceiveVoteRequest r" and pre: "\<not> vr_pre_vote r"
    and fields: "vr_candidate_epoch r = word_of_int (vp_replica_epoch p)" "vr_candidate r = word_of_int (vp_replica_id p)"
      "vr_candidate_directory_id r = vp_replica_directory_id p"
    using assms(5) by (simp add: vote_event_def)
  note a = answer_vote_granted[OF assms(2,3,4)]
  then have run: "run_vote_request env (ReceiveVoteRequest r) eng = Some ((eng', out), True)" by (simp add: r)
  obtain m' acts c e where ev: "on_event ?V (ReceiveVoteRequest r) (engine_log eng) (env_now env) (core eng) = Some (m', acts)"
    and c: "ReplyVote c e True \<in> set acts" and core: "core eng' = m'"
    and f: "quorum_state_file eng' = fst (save_quorum_state ?V (env_text env) (env_write env) (qstate m') (quorum_state_file eng))"
    using run_vote_request_granted[OF run pre] by blast
  note b = binding_grant[OF ev c pre]
  have same: "same_config (core eng) m'" using on_event_same_config[OF ev] by simp
  have "m_leader m' = None \<or> m_leader m' = m_leader (core eng)" 
    using vote_request_leader[of ?V r "engine_log eng" "env_now env" "core eng" m' acts] ev by simp
  moreover have "fits_i32 (m_epoch m')" "fits_i32 (word_of_int (vp_replica_id p) :: u64)"
    using b fields a assms(6,7) word_of_wire by (auto simp: fits_i32_def)
  ultimately have rep: "representable ?V (qstate m')"
    using assms(8) same b fields by (auto simp: representable_def storable_def same_config_def list_all_iff)
  with assms(1) f b fields core same show ?thesis
    by (simp add: save_quorum_state_def quorum_state_document_eq)
qed

text \<open>A core that starts with a recorded vote grants no other candidate in that epoch.\<close>

lemma recorded_vote_binds:
  assumes "m_epoch m = e" "m_vote_id m = Some v" "e \<noteq> - 1"
    and "on_event V (ReceiveVoteRequest req) log now m = Some (m', acts)"
    and "ReplyVote c e' True \<in> set acts" "\<not> vr_pre_vote req" "vr_candidate_epoch req = e"
  shows "vr_candidate req = v"
proof -
  note b = binding_grant[OF assms(4,5,6)]
  then have "keeps_vote m m'" using on_event_keeps_vote[OF assms(4)] by simp
  with b assms(1,2,3,7) show ?thesis by (auto simp: keeps_vote_def)
qed

section \<open>The timer a role waits on\<close>

fun timer_need :: "('vs, 'vt) voter_ops \<Rightarrow> 'vs machine \<Rightarrow> role \<Rightarrow> timer_kind option" where
  "timer_need V m (Leader _ _ _ _) = (if runs_check_quorum V m then Some CheckQuorumTimer else None)"
| "timer_need V m (Follower _ _ _) = Some FetchTimer"
| "timer_need V m (Observer _ _) = Some FetchTimer"
| "timer_need V m _ = Some ElectionTimer"

abbreviation needs :: "('vs, 'vt) voter_ops \<Rightarrow> 'vs machine \<Rightarrow> timer_kind option" where
  "needs V m \<equiv> timer_need V m (mrole m)"

definition arms :: "timer_kind \<Rightarrow> action list \<Rightarrow> bool" where
  "arms k acts \<longleftrightarrow> (\<exists>d. ResetTimer k d \<in> set acts)"

lemma arms_simps [simp]:
  "\<not> arms k []" "arms k (a # acts) \<longleftrightarrow> (\<exists>d. a = ResetTimer k d) \<or> arms k acts"
  "arms k (xs @ ys) \<longleftrightarrow> arms k xs \<or> arms k ys"
  by (auto simp: arms_def)

lemma role_free [simp]:
  "is_voter V (m\<lparr>mrole := r\<rparr>) = is_voter V m" "runs_check_quorum V (m\<lparr>mrole := r\<rparr>) = runs_check_quorum V m"
  "timer_need V (m\<lparr>mrole := r\<rparr>) r' = timer_need V m r'"
  by (simp_all add: is_voter_def runs_check_quorum_def, cases r', simp_all add: is_voter_def runs_check_quorum_def)

text \<open>A step arms the timer its result needs.\<close>

definition rearms :: "('vs, 'vt) voter_ops \<Rightarrow> 'vs step_result \<Rightarrow> bool" where
  "rearms V r \<longleftrightarrow> (case needs V (fst r) of None \<Rightarrow> True | Some k \<Rightarrow> arms k (snd r))"

definition timely :: "('vs, 'vt) voter_ops \<Rightarrow> 'vs machine \<Rightarrow> 'vs step_result \<Rightarrow> bool" where
  "timely V m r \<longleftrightarrow> rearms V r \<or> needs V (fst r) = needs V m"

named_theorems timer_steps

lemma rearms_timely: "rearms V r \<Longrightarrow> timely V m r"
  by (simp add: timely_def)

lemma timely_silent [simp]: "timely V m (m, acts)"
  by (simp add: timely_def)

lemma rearms_leader [timer_steps]: "rearms V (promote_to_leader V log now m)"
  by (simp add: rearms_def promote_to_leader_def Let_def)

lemma rearms_cons: "rearms V (m, acts) \<Longrightarrow> rearms V (m, a # acts)"
  by (simp add: rearms_def split: option.splits)

lemma rearms_election_role: "needs V m = Some ElectionTimer \<Longrightarrow> arms ElectionTimer acts \<Longrightarrow> rearms V (m, acts)"
  by (simp add: rearms_def)

lemma rearms_candidate [timer_steps]: "rearms V (promote_to_candidate V log now m)"
  by (auto simp: promote_to_candidate_def Let_def case_prod_beta rearms_leader
      intro: rearms_election_role intro!: rearms_cons[of V "fst r" "_ # _" for r] rearms_cons[of V "fst r" "snd r" for r])

lemma rearms_start [timer_steps]: "rearms V (start_election V log now m)"
  by (auto simp: start_election_def Let_def case_prod_beta rearms_candidate
      intro: rearms_election_role intro!: rearms_cons[of V "fst r" "_ # _" for r] rearms_cons[of V "fst r" "snd r" for r])

lemma rearms_simple [timer_steps]:
  "rearms V (transition_to_unattached e d m)" "rearms V (await_election d m)"
  "rearms V (become_discovering_observer now m)" "rearms V (transition_to_resigned V now m)"
  by (simp_all add: rearms_def transition_to_unattached_def await_election_def become_discovering_observer_def
      transition_to_resigned_def Let_def)

lemma begin_armed [timer_steps]:
  assumes "snd (handle_begin_quorum_epoch V l e now m) \<noteq> []"
  shows "rearms V (handle_begin_quorum_epoch V l e now m)"
proof -
  let ?r = "mrole (fst (handle_begin_quorum_epoch V l e now m))"
  have "(\<exists>l d f. ?r = Follower l d f) \<or> (\<exists>l d. ?r = Observer l d)"
    and "arms FetchTimer (snd (handle_begin_quorum_epoch V l e now m))"
    using assms by (auto simp: handle_begin_quorum_epoch_def Let_def split: if_splits)
  then show ?thesis by (auto simp: rearms_def)
qed

lemma timely_begin [timer_steps]: "timely V m (handle_begin_quorum_epoch V l e now m)"
  using begin_armed[of V l e now m] begin_refused[of V l e now m]
  by (cases "snd (handle_begin_quorum_epoch V l e now m) = []") (simp_all add: timely_def)

lemma timely_rejection [timer_steps]: "timely V m (record_pre_vote_rejection V n e now m)"
proof (cases "mrole m")
  case (Prospective granted rejected d abandoned)
  let ?m1 = "m\<lparr>mrole := Prospective (granted - {n}) (insert n rejected) d abandoned\<rparr>"
  have "timely V m (handle_begin_quorum_epoch V l e now ?m1)" for l
    using timely_begin[of V ?m1 l e now] Prospective by (simp add: timely_def)
  then show ?thesis
    by (auto simp: record_pre_vote_rejection_def Prospective Let_def timely_def timer_steps split: option.splits)
qed (simp_all add: record_pre_vote_rejection_def)

lemma rearms_election [timer_steps]: "is_voter V m \<Longrightarrow> rearms V (handle_election_timeout V log now m)"
proof (cases "\<exists>g r d l. mrole m = Prospective g r d (Some l)")
  case True
  assume v: "is_voter V m"
  from True obtain g r d l where p: "mrole m = Prospective g r d (Some l)" by blast
  let ?b = "handle_begin_quorum_epoch V l (m_epoch m) now m"
  show ?thesis
    using begin_armed[of V l "m_epoch m" now m] begin_refused[of V l "m_epoch m" now m] rearms_start[of V log now m] p v
    by (cases "snd ?b = []") (auto simp: handle_election_timeout_def Let_def case_prod_beta)
next
  case False
  assume "is_voter V m"
  with False show ?thesis
    by (auto simp: handle_election_timeout_def timer_steps split: role.splits option.splits)
qed

lemma timely_response [timer_steps]: "timely V m (handle_vote_response V log n e g now m)"
  using timely_rejection[of V m n e now]
  by (cases rule: handle_vote_response_cases[of g m e V log n now])
    (auto simp: timer_steps timely_def)

lemma timely_request [timer_steps]: "timely V m (handle_vote_request V req log now m)"
  by (auto simp: handle_vote_request_def advance_epoch_for_vote_def transition_to_unattached_def timely_def
      rearms_def Let_def split: vote_admission_decision.splits)

lemma timely_contact: "needs V (fst (record_quorum_contact V n now m)) = needs V m"
  by (auto simp: record_quorum_contact_def Let_def split: role.splits)

lemma timely_fetch [timer_steps]: "handle_fetch V log n e off now m = Some r \<Longrightarrow> timely V m r"
  using timely_contact[of V n now m]
  by (auto simp: handle_fetch_def timely_def Let_def case_prod_beta
      split: if_splits option.splits role.splits)

lemma timely_rest [timer_steps]:
  "is_voter V m \<Longrightarrow> timely V m (handle_end_quorum_epoch V log l e k now m)"
  "timely V m (handle_fetch_snapshot V n now m)"
  "timely V m (handle_fetch_response log l e dv now m)"
  "timely V m (handle_leaderless_epoch V e now m)"
  "timely V m (handle_check_quorum_timeout V now m)"
  "timely V m (handle_fetch_timeout V log now m)"
  using timely_contact[of V n now m]
  by (auto simp: handle_end_quorum_epoch_def handle_fetch_snapshot_def handle_fetch_response_def
      handle_leaderless_epoch_def handle_check_quorum_timeout_def handle_fetch_timeout_def Let_def case_prod_beta
      timely_def timer_steps split: role.splits option.splits)

lemma rearms_check_quorum: "is_leader (mrole m) \<Longrightarrow> rearms V (handle_check_quorum_timeout V now m)"
  by (cases "runs_check_quorum V m"; cases "mrole m")
    (simp_all add: handle_check_quorum_timeout_def timer_steps, simp add: rearms_def)

lemma on_event_timely:
  assumes "on_event V ev log now m = Some r" "is_voter V m"
  shows "timely V m r"
  using assms(1)
  by (cases rule: on_event_cases) (auto simp: timer_steps assms(2) intro: rearms_timely)

text \<open>The deadlines of an engine are those its role needs, and no others.\<close>

fun deadline_of :: "timer_kind \<Rightarrow> 'vs engine \<Rightarrow> sim_instant option" where
  "deadline_of ElectionTimer eng = election_at eng"
| "deadline_of FetchTimer eng = fetch_at eng"
| "deadline_of CheckQuorumTimer eng = check_quorum_at eng"

definition timers_fit :: "('vs, 'vt) voter_ops \<Rightarrow> 'vs engine \<Rightarrow> bool" where
  "timers_fit V eng \<longleftrightarrow>
     (case needs V (core eng) of None \<Rightarrow> True | Some k \<Rightarrow> deadline_of k eng \<noteq> None)
     \<and> (is_leader (mrole (core eng)) \<longrightarrow> election_at eng = None \<and> fetch_at eng = None)
     \<and> (needs V (core eng) = Some FetchTimer \<longrightarrow> election_at eng = None \<and> check_quorum_at eng = None)
     \<and> (needs V (core eng) = Some ElectionTimer \<longrightarrow> fetch_at eng = None \<and> check_quorum_at eng = None)"

text \<open>
  Record work that meets no control record: it reads and writes the log and the
  image, and leaves the core and the timers alone.
\<close>

definition plain_log_work :: "('vs, 'vt) engine_env \<Rightarrow> bool" where
  "plain_log_work env \<longleftrightarrow>
     (\<forall>a eng. core (fst (env_log_work env a eng)) = core eng
        \<and> (\<forall>k. deadline_of k (fst (env_log_work env a eng)) = deadline_of k eng))"

lemma deadline_armed_timer [simp]:
  "deadline_of k (armed_timer k' d eng) = (if k = k' then Some d else deadline_of k eng)"
  by (cases k; cases k') (simp_all add: armed_timer_def)

lemma deadline_updates [simp]:
  "deadline_of k (eng\<lparr>fetch_misses := n\<rparr>) = deadline_of k eng"
  "deadline_of k (eng\<lparr>quorum_state_file := f\<rparr>) = deadline_of k eng"
  "deadline_of k (eng\<lparr>core := m\<rparr>) = deadline_of k eng"
  by (cases k; simp)+

lemma execute_action_timers:
  assumes "execute_action env a eng = Some (eng', out)" "plain_log_work env"
  shows "core eng' = core eng"
    "deadline_of k eng' = None \<longleftrightarrow> deadline_of k eng = None \<and> (\<forall>d. a \<noteq> ResetTimer k d)"
proof -
  have w: "core (fst (env_log_work env a eng)) = core eng"
    "deadline_of k (fst (env_log_work env a eng)) = deadline_of k eng" for a
    using assms(2) by (simp_all add: plain_log_work_def)
  have "core eng' = core eng \<and>
      (deadline_of k eng' = None \<longleftrightarrow> deadline_of k eng = None \<and> (\<forall>d. a \<noteq> ResetTimer k d))"
    using assms(1) w[of a] by (cases a) (auto simp: execute_action_def split: if_splits)
  then show "core eng' = core eng"
    "deadline_of k eng' = None \<longleftrightarrow> deadline_of k eng = None \<and> (\<forall>d. a \<noteq> ResetTimer k d)"
    by simp_all
qed

lemma execute_timers:
  assumes "execute env acts eng = Some (eng', out)" "plain_log_work env"
  shows "core eng' = core eng \<and> (deadline_of k eng' = None \<longleftrightarrow> deadline_of k eng = None \<and> \<not> arms k acts)"
  using assms(1)
proof (induction acts arbitrary: eng out)
  case (Cons a acts)
  from Cons.prems obtain eng1 o1 o2 where a: "execute_action env a eng = Some (eng1, o1)"
    and r: "execute env acts eng1 = Some (eng', o2)"
    by (auto split: option.splits prod.splits)
  show ?case using Cons.IH[OF r] execute_action_timers[OF a assms(2)] by auto
qed simp

lemma reconcile_fits:
  assumes "case needs V (core eng) of None \<Rightarrow> True | Some k \<Rightarrow> deadline_of k eng \<noteq> None"
  shows "timers_fit V (engine_reconcile_timers eng)"
  using assms by (cases "mrole (core eng)") (auto simp: timers_fit_def engine_reconcile_timers_def)

text \<open>One batch of the core keeps the fit: what is needed is armed, or was armed and is kept.\<close>

lemma batch_fits:
  assumes "execute env acts (eng\<lparr>core := m\<rparr>) = Some (eng', out)" "plain_log_work env"
    and "rearms V (m, acts) \<or> timely V (core eng) (m, acts) \<and> timers_fit V eng"
  shows "timers_fit V (engine_reconcile_timers eng') \<and> core eng' = m"
proof -
  have c: "core eng' = m" using execute_timers[OF assms(1,2)] by simp
  have "case needs V m of None \<Rightarrow> True | Some k \<Rightarrow> deadline_of k eng' \<noteq> None"
    using assms(3) execute_timers[OF assms(1,2)]
    by (auto simp: rearms_def timely_def timers_fit_def split: option.splits)
  then show ?thesis using reconcile_fits[where eng = eng' and V = V] c by simp
qed

lemma engine_event_fits:
  assumes "engine_on_event env ev eng = Some (eng', out)" "plain_log_work env" "is_voter (env_voters env) (core eng)"
    and "timers_fit (env_voters env) eng
      \<or> (\<forall>r. on_event (env_voters env) ev (engine_log eng) (env_now env) (core eng) = Some r \<longrightarrow> rearms (env_voters env) r)"
  shows "timers_fit (env_voters env) eng' \<and> same_config (core eng) (core eng')"
proof -
  from assms(1) obtain m acts eng1 where
    ev: "on_event (env_voters env) ev (engine_log eng) (env_now env) (core eng) = Some (m, acts)"
    and x: "execute env acts (eng\<lparr>core := m\<rparr>) = Some (eng1, out)" and e: "eng' = engine_reconcile_timers eng1"
    by (auto simp: engine_on_event_def split: option.splits prod.splits)
  have "same_config (core eng) m" using on_event_same_config[OF ev] by simp
  then show ?thesis
    using batch_fits[OF x assms(2), of "env_voters env"] on_event_timely[OF ev assms(3)] assms(4) ev e by auto
qed

lemma local_batch_fits:
  assumes "execute_local_only env acts (eng\<lparr>core := m\<rparr>) = Some (eng', out)" "plain_log_work env"
    and "timely V (core eng) (m, acts)" "timers_fit V eng"
  shows "timers_fit V (engine_reconcile_timers eng') \<and> core eng' = m"
proof -
  have arms: "arms k (filter (\<lambda>a. \<not> is_reply_vote a) acts) = arms k acts" for k by (auto simp: arms_def)
  have "timely V (core eng) (m, filter (\<lambda>a. \<not> is_reply_vote a) acts)"
    using assms(3) by (auto simp: timely_def rearms_def arms split: option.splits)
  then show ?thesis using batch_fits[OF assms(1)[unfolded execute_local_only_def] assms(2)] assms(4) by auto
qed

lemma vote_request_fits:
  assumes "run_vote_request env ev eng = Some ((eng', out), g)" "plain_log_work env"
    and "is_voter (env_voters env) (core eng)" "timers_fit (env_voters env) eng"
  shows "timers_fit (env_voters env) eng' \<and> same_config (core eng) (core eng')"
proof -
  from assms(1) obtain m acts eng1 where
    ev: "on_event (env_voters env) ev (engine_log eng) (env_now env) (core eng) = Some (m, acts)"
    and x: "execute_local_only env acts (eng\<lparr>core := m\<rparr>) = Some (eng1, out)" and e: "eng' = engine_reconcile_timers eng1"
    by (auto simp: run_vote_request_def split: option.splits prod.splits)
  show ?thesis
    using local_batch_fits[OF x assms(2) on_event_timely[OF ev assms(3)] assms(4)] on_event_same_config[OF ev] e by simp
qed

lemma advance_epoch_fits:
  assumes "engine_advance_epoch_for_vote env c e eng = Some (eng', out)" "plain_log_work env"
    and "timers_fit (env_voters env) eng"
  shows "timers_fit (env_voters env) eng' \<and> same_config (core eng) (core eng')"
proof -
  obtain m acts where a: "advance_epoch_for_vote (env_voters env) c e (env_now env) (core eng) = (m, acts)"
    by (cases "advance_epoch_for_vote (env_voters env) c e (env_now env) (core eng)")
  from assms(1) obtain eng1 where x: "execute_local_only env acts (eng\<lparr>core := m\<rparr>) = Some (eng1, out)"
    and e: "eng' = engine_reconcile_timers eng1"
    by (auto simp: engine_advance_epoch_for_vote_def a split: option.splits prod.splits)
  have "timely (env_voters env) (core eng) (m, acts) \<and> same_config (core eng) m"
    using a by (auto simp: advance_epoch_for_vote_def transition_to_unattached_def timely_def rearms_def
        same_config_def split: if_splits)
  then show ?thesis using local_batch_fits[OF x assms(2) _ assms(3)] e by simp
qed

lemma answer_vote_fits:
  assumes "answer_vote env req eng = Some ((eng', out), reply)" "plain_log_work env"
    and "is_voter (env_voters env) (core eng)" "timers_fit (env_voters env) eng"
  shows "timers_fit (env_voters env) eng' \<and> same_config (core eng) (core eng')"
  using assms(1) vote_request_fits[OF _ assms(2,3,4)] advance_epoch_fits[OF _ assms(2,4)] assms(4)
  by (auto simp: answer_vote_def Let_def split: if_splits option.splits list.splits prod.splits)

lemma wake_fits:
  assumes "wake_timer env False tick eng = Some (eng', out)" "plain_log_work env"
    and "is_voter (env_voters env) (core eng)" "timers_fit (env_voters env) eng"
    and "case tick of TickElection \<Rightarrow> election_at eng \<noteq> None | TickFetch \<Rightarrow> fetch_at eng \<noteq> None
      | TickCheckQuorum \<Rightarrow> check_quorum_at eng \<noteq> None | TickHeartbeat \<Rightarrow> True"
  shows "timers_fit (env_voters env) eng' \<and> same_config (core eng) (core eng')"
proof (cases tick)
  case TickElection
  then have "engine_on_event env ElectionTimeout (eng\<lparr>election_at := None\<rparr>) = Some (eng', out)"
    using assms by (auto simp: timers_fit_def election_timer_starts_election_def Let_def split: if_splits)
  from engine_event_fits[OF this assms(2)] assms(3) show ?thesis by (simp add: timer_steps)
next
  case TickFetch
  then have "engine_on_event env FetchTimeout (eng\<lparr>fetch_at := None, fetch_misses := 0\<rparr>) = Some (eng', out)"
    using assms by (auto simp: Let_def split: if_splits)
  from engine_event_fits[OF this assms(2)] assms(3) show ?thesis by (simp add: handle_fetch_timeout_def timer_steps)
next
  case TickCheckQuorum
  then have l: "is_leader (mrole (core eng))"
    using assms(4,5) by (cases "mrole (core eng)") (auto simp: timers_fit_def)
  then have "engine_on_event env CheckQuorumTimeout (eng\<lparr>check_quorum_at := None\<rparr>) = Some (eng', out)"
    using TickCheckQuorum assms(1) by (auto simp: Let_def)
  from engine_event_fits[OF this assms(2)] assms(3) l show ?thesis by (simp add: rearms_check_quorum)
next
  case TickHeartbeat
  then show ?thesis using assms by (auto split: if_splits)
qed

text \<open>The turns of a running engine; the clock, the disk and the record work may differ from turn to turn.\<close>

inductive engine_reaches :: "('vs, 'vt) voter_ops \<Rightarrow> 'vs engine \<Rightarrow> 'vs engine \<Rightarrow> bool" for V eng0 where
  start: "engine_reaches V eng0 eng0"
| event: "engine_reaches V eng0 eng \<Longrightarrow> env_voters env = V \<Longrightarrow> plain_log_work env
    \<Longrightarrow> engine_on_event env ev eng = Some (eng', out) \<Longrightarrow> engine_reaches V eng0 eng'"
| wake: "engine_reaches V eng0 eng \<Longrightarrow> env_voters env = V \<Longrightarrow> plain_log_work env
    \<Longrightarrow> (case tick of TickElection \<Rightarrow> election_at eng \<noteq> None | TickFetch \<Rightarrow> fetch_at eng \<noteq> None
         | TickCheckQuorum \<Rightarrow> check_quorum_at eng \<noteq> None | TickHeartbeat \<Rightarrow> True)
    \<Longrightarrow> wake_timer env False tick eng = Some (eng', out) \<Longrightarrow> engine_reaches V eng0 eng'"
| vote: "engine_reaches V eng0 eng \<Longrightarrow> env_voters env = V \<Longrightarrow> plain_log_work env
    \<Longrightarrow> answer_vote env req eng = Some ((eng', out), reply) \<Longrightarrow> engine_reaches V eng0 eng'"
| begin_epoch: "engine_reaches V eng0 eng \<Longrightarrow> env_voters env = V \<Longrightarrow> plain_log_work env
    \<Longrightarrow> answer_begin_quorum_epoch env breq eng = Some ((eng', out), ereply) \<Longrightarrow> engine_reaches V eng0 eng'"
| end_epoch: "engine_reaches V eng0 eng \<Longrightarrow> env_voters env = V \<Longrightarrow> plain_log_work env
    \<Longrightarrow> answer_end_quorum_epoch env ereq eng = Some ((eng', out), ereply) \<Longrightarrow> engine_reaches V eng0 eng'"
| vote_answer: "engine_reaches V eng0 eng \<Longrightarrow> env_voters env = V \<Longrightarrow> plain_log_work env
    \<Longrightarrow> on_vote_response env sender answer eng = Some (eng', out) \<Longrightarrow> engine_reaches V eng0 eng'"

text \<open>An epoch request or a vote answer is no event, or one event of the core.\<close>

lemma single_event:
  "answer_begin_quorum_epoch env breq eng = Some ((eng', out), ereply)
    \<Longrightarrow> eng' = eng \<or> (\<exists>ev. engine_on_event env ev eng = Some (eng', out))"
  "answer_end_quorum_epoch env ereq eng = Some ((eng', out), ereply)
    \<Longrightarrow> eng' = eng \<or> (\<exists>ev. engine_on_event env ev eng = Some (eng', out))"
  "on_vote_response env sender answer eng = Some (eng', out)
    \<Longrightarrow> eng' = eng \<or> (\<exists>ev. engine_on_event env ev eng = Some (eng', out))"
  by (auto simp: answer_begin_quorum_epoch_def answer_end_quorum_epoch_def on_vote_response_def Let_def
      split: sum.splits option.splits prod.splits vote_response_step.splits)

lemma engine_reaches_fits:
  assumes "engine_reaches V eng0 eng" "is_voter V (core eng0)" "timers_fit V eng0"
  shows "timers_fit V eng \<and> same_config (core eng0) (core eng)"
  using assms(1)
proof induction
  case start
  then show ?case using assms(3) by simp
next
  case (event eng env ev eng' out)
  then show ?case
    using engine_event_fits[of env ev eng eng' out] same_config_trans assms(2) same_config_voter by metis
next
  case (wake eng env tick eng' out)
  then show ?case
    using wake_fits[of env tick eng eng' out] same_config_trans assms(2) same_config_voter by metis
next
  case (vote eng env req eng' out reply)
  then show ?case
    using answer_vote_fits[of env req eng eng' out reply] same_config_trans assms(2) same_config_voter by metis
next
  case (begin_epoch eng env breq eng' out ereply)
  then show ?case
    using single_event(1)[OF begin_epoch(4)] engine_event_fits[of env _ eng eng' out] same_config_trans assms(2)
      same_config_voter by metis
next
  case (end_epoch eng env ereq eng' out ereply)
  then show ?case
    using single_event(2)[OF end_epoch(4)] engine_event_fits[of env _ eng eng' out] same_config_trans assms(2)
      same_config_voter by metis
next
  case (vote_answer eng env sender answer eng' out)
  then show ?case
    using single_event(3)[OF vote_answer(4)] engine_event_fits[of env _ eng eng' out] same_config_trans assms(2)
      same_config_voter by metis
qed

lemma start_engine_fits:
  assumes "is_voter V m" "m_leader m = None" "mrole m = default_role"
  shows "timers_fit V (start_engine V m f log)"
  using assms by (simp add: timers_fit_def start_engine_def initial_election_at_def default_role_def)

section \<open>Entry points and restarts\<close>

lemma engine_event_none:
  "engine_on_event env ev eng = None \<Longrightarrow> (\<exists>req. ev = ReceiveVoteRequest req) \<or> (\<exists>n e off. ev = ReceiveFetch n e off)"
  using engine_on_event_total[OF on_event_total, of ev env eng] by (metis option.distinct(1))

lemma on_timer_total: "on_timer env tick eng \<noteq> None"
  by (rule notI, cases tick) (auto simp: Let_def split: if_splits option.splits dest!: engine_event_none)

lemma wake_timer_total: "wake_timer env shutting_down tick eng \<noteq> None"
  by (rule notI, cases tick)
    (auto simp: Let_def simp del: on_timer.simps split: if_splits dest!: on_timer_total[THEN notE])

lemma entry_points_total:
  "answer_begin_quorum_epoch env breq eng \<noteq> None" "answer_end_quorum_epoch env ereq eng \<noteq> None"
  "on_vote_response env sender answer eng \<noteq> None"
  by (rule notI; auto simp: answer_begin_quorum_epoch_def answer_end_quorum_epoch_def on_vote_response_def Let_def
      split: sum.splits option.splits prod.splits vote_response_step.splits dest!: engine_event_none)+

lemma local_none: "execute_local_only env acts eng = None \<Longrightarrow> False"
  using execute_local_only_total[of env acts eng] by simp

lemma answer_vote_total: "answer_vote env vreq eng \<noteq> None"
  by (rule notI, auto simp: answer_vote_def run_vote_request_def engine_advance_epoch_for_vote_def vote_event_def Let_def
      split: if_splits option.splits list.splits prod.splits dest!: local_none)

lemma shutdown_total: "step_graceful_shutdown env eng \<noteq> None"
proof -
  have "\<not> replies (snd (resign_for_shutdown (env_voters env) (env_now env) (core eng)))"
    by (simp add: resign_for_shutdown_def reply_free)
  from execute_total[OF this, of env "eng\<lparr>core := fst (resign_for_shutdown (env_voters env) (env_now env) (core eng))\<rparr>"]
  show ?thesis by (auto simp: step_graceful_shutdown_def Let_def case_prod_beta)
qed

lemma serving_fetch_total:
  "engine_on_event env (ReceiveFetch n e off) eng = None
    \<longleftrightarrow> handle_fetch (env_voters env) (engine_log eng) n e off (env_now env) (core eng) = None"
  using engine_on_event_total[of env "ReceiveFetch n e off" eng]
  by (cases "handle_fetch (env_voters env) (engine_log eng) n e off (env_now env) (core eng) = None")
    (auto simp: engine_on_event_def)

lemma restart_after_grant:
  assumes "representable V st" "\<forall>u. ut_decode ut (ut_encode ut u) = Some u" "voted_key st = Some k"
    and "kraft_version st = 0 \<longrightarrow> vs_ids V boot = vs_ids V (voters st)"
  shows "\<exists>m. restarted_core V ut (QuorumFileDocument (qj_data_version (document_of V ut st)) (Some (document_of V ut st)))
      (cluster_id st) boot version members n et ft = Inr m
    \<and> m_epoch m = leader_epoch st \<and> m_vote_id m = Some (rk_id k)"
  using load_document[OF assms(1,2,4)] assms(3)
  by (cases version; cases members)
    (auto simp: restarted_core_def initial_quorum_state_def new_machine_def restored_def Let_def)

section \<open>A vote on the wire\<close>

text \<open>The checks of the recipient, for a message that \<open>encode_vote\<close> built for it.\<close>

lemma answer_encoded_vote:
  fixes eng :: "'vs engine"
  assumes "encode_vote ut cid voter voter_dir e candidate candidate_dir last_e last_off pre_vote = Some msg"
    and "env_parse_cluster env (ut_encode ut cid) = Some cid" "cluster_id (qstate (core eng)) = cid"
    and "me (core eng) = voter" "voter_dir = directory_of (env_voters env) (core eng) voter"
    and "m_epoch (core eng) \<le> e" "0 \<le> last_off" "if pre_vote then last_e \<le> e else last_e < e"
  shows "answer_vote env msg eng =
    (case run_vote_request env
        (ReceiveVoteRequest \<lparr>vr_from = candidate, vr_cluster_id = Some cid, vr_voter_id = voter,
          vr_voter_directory_id = voter_dir, vr_candidate_epoch = e, vr_candidate = candidate,
          vr_candidate_directory_id = candidate_dir,
          vr_candidate_log_end = \<lparr>le_last_epoch = last_e, le_last_offset = last_off\<rparr>, vr_pre_vote = pre_vote\<rparr>) eng of
       None \<Rightarrow> None
     | Some ((eng', out), granted) \<Rightarrow> Some ((eng', out), reply_with eng' 0 0 granted))"
proof -
  have fit: "fits_i32 voter" "fits_i32 candidate" "fits_i32 e" "fits_i32 last_e"
    using assms(1) by (auto simp: encode_vote_def split: if_splits option.splits prod.splits)
  have msg: "msg = \<lparr>vm_cluster_id = Some (ut_encode ut cid), vm_voter_id = uint voter,
      vm_topics = [(METADATA_TOPIC, [\<lparr>vp_partition_index = METADATA_PARTITION, vp_replica_epoch = uint e,
        vp_replica_id = uint candidate, vp_replica_directory_id = candidate_dir, vp_voter_directory_id = voter_dir,
        vp_last_offset_epoch = uint last_e, vp_last_offset = last_off, vp_pre_vote = pre_vote\<rparr>])]\<rparr>"
    using assms(1) fit by (simp add: encode_vote_def split: if_splits)
  have key: "is_valid_voter_key (env_voters env) (core eng) (uint voter) voter_dir"
    using assms(4,5) by (auto simp: is_valid_voter_key_def local_directory_id_def directory_of_def split: option.splits)
  have ep: "\<not> uint e < uint (m_epoch (core eng))" "pre_vote \<longrightarrow> \<not> uint e < uint last_e"
    "\<not> pre_vote \<longrightarrow> \<not> uint e \<le> uint last_e"
    using assms(6,8) by (auto simp: word_le_def word_less_def split: if_splits)
  have nn: "\<not> uint e < 0" "\<not> uint candidate < 0" "\<not> uint last_e < 0" by (simp_all add: not_less)
  show ?thesis
    using assms(2,3,4,5,7) key ep nn
    by (simp add: msg answer_vote_def has_valid_cluster_id_def names_only_the_metadata_partition_def
        voter_only_request_error_def vote_event_def Let_def)
qed

lemma broadcast_vote_member:
  "VoteTo peer msg \<in> set (broadcast_vote env e pre_vote eng) \<Longrightarrow>
    \<exists>c v. vs_get (env_voters env) (m_voters (core eng)) (me (core eng)) = Some c
      \<and> vs_get (env_voters env) (m_voters (core eng)) peer = Some v
      \<and> peer \<in> set (other_voters (env_voters env) (core eng))
      \<and> encode_vote (env_text env) (cluster_id (qstate (core eng))) peer (vt_directory_id (env_voters env) v) e
          (me (core eng)) (vt_directory_id (env_voters env) c) (last_epoch (engine_log eng)) (end_offset (engine_log eng))
          pre_vote = Some msg"
  by (cases "vs_get (env_voters env) (m_voters (core eng)) (me (core eng))")
    (auto simp: broadcast_vote_def Let_def List.map_filter_def split: option.splits)

section \<open>Properties\<close>

text \<open>A voter of the simulated quorum of three, with a disk that works and plain record work.\<close>

definition sample_env :: "write_outcome \<Rightarrow> (node_id list, uuid) engine_env" where
  "sample_env w = \<lparr>env_voters = simulation_voters, env_text = decimal_uuids,
     env_parse_cluster = (\<lambda>s. map_option word_of_nat (parse_digits s)), env_write = w,
     env_log_work = (\<lambda>_ eng. (eng, [])), env_now = 50, env_miss_limit = 3, env_discovery_peers = []\<rparr>"

definition sample_engine :: "node_id list engine" where
  "sample_engine = start_engine simulation_voters fresh_voter QuorumFileMissing (sim_log_view [])"

definition sample_vote :: "int \<Rightarrow> vote_message" where
  "sample_vote candidate = \<lparr>vm_cluster_id = None, vm_voter_id = 2,
     vm_topics = [(METADATA_TOPIC, [\<lparr>vp_partition_index = METADATA_PARTITION, vp_replica_epoch = 1,
       vp_replica_id = candidate, vp_replica_directory_id = 0, vp_voter_directory_id = 0,
       vp_last_offset_epoch = 0, vp_last_offset = 0, vp_pre_vote = False\<rparr>])]\<rparr>"

lemma sample_plain [simp]: "plain_log_work (sample_env w)" "env_voters (sample_env w) = simulation_voters"
  "env_write (sample_env w) = w" "env_text (sample_env w) = decimal_uuids"
  by (simp_all add: plain_log_work_def sample_env_def)

lemma decimal_codec [simp]: "ut_decode decimal_uuids (ut_encode decimal_uuids u) = Some u"
  by (simp add: decimal_uuids_def)

lemma sample_voter [simp]:
  "core sample_engine = fresh_voter" "quorum_state_file sample_engine = QuorumFileMissing"
  "engine_log sample_engine = sim_log_view []"
  "is_voter simulation_voters fresh_voter" "m_leader fresh_voter = None" "mrole fresh_voter = default_role"
  "m_voters fresh_voter = [1, 2, 3]" "kraft_version (qstate fresh_voter) = 0" "cluster_id (qstate fresh_voter) = 7"
  by (simp_all add: sample_engine_def start_engine_def fresh_voter_def new_machine_def bootstrap_def is_voter_def
      simulation_voters_def)

text \<open>The answers of the fresh voter 2 to the ballots of voters 1 and 3 for epoch 1.\<close>

lemma sample_grant:
  assumes "candidate = 1 \<or> candidate = 3"
  shows "\<exists>eng' out reply. answer_vote (sample_env w) (sample_vote candidate) sample_engine = Some ((eng', out), reply)
    \<and> vy_granted reply \<and> (w = WriteFailed \<longrightarrow> quorum_state_file eng' = QuorumFileMissing)"
  using assms
  by (elim disjE)
    (simp_all add: answer_vote_def sample_vote_def sample_env_def sample_engine_def start_engine_def fresh_voter_def
      has_valid_cluster_id_def names_only_the_metadata_partition_def voter_only_request_error_def
      is_valid_voter_key_def local_directory_id_def directory_of_def run_vote_request_def vote_event_def
      reply_with_def execute_local_only_def execute_action_def persist_quorum_state_def save_quorum_state_def
      engine_reconcile_timers_def quorum_state_document_eq election_eval Let_def)


text \<open>
  C3: when a replica's disk works, a binding vote it grants over the wire survives a
  crash: a restart loads the quorum-state file, and in the epoch of the vote the
  restarted core grants a binding vote to no other node.
\<close>

theorem granted_vote_survives_crash:
  assumes "\<forall>u. ut_decode (env_text env) (ut_encode (env_text env) u) = Some u" "env_write env = Written"
    and "answer_vote env req eng = Some ((eng', out), reply)" "vy_granted reply"
    and "first_partition (vm_topics req) = Some p" "\<not> vp_pre_vote p"
    and "vp_replica_epoch p \<le> i32_max" "vp_replica_id p \<le> i32_max" "storable (env_voters env) (core eng)"
    and "kraft_version (qstate (core eng)) = 0
      \<longrightarrow> vs_ids (env_voters env) boot = vs_ids (env_voters env) (m_voters (core eng))"
  shows "\<exists>m. restarted_core (env_voters env) (env_text env) (quorum_state_file eng') (cluster_id (qstate (core eng)))
        boot version members (me (core eng)) et ft = Inr m
      \<and> (\<forall>req2 log now m2 acts c e. on_event (env_voters env) (ReceiveVoteRequest req2) log now m = Some (m2, acts)
          \<and> ReplyVote c e True \<in> set acts \<and> \<not> vr_pre_vote req2
          \<and> vr_candidate_epoch req2 = word_of_int (vp_replica_epoch p)
          \<longrightarrow> vr_candidate req2 = word_of_int (vp_replica_id p))"
proof -
  note s = granted_vote_stored[OF assms(2-9)]
  obtain m where m: "restarted_core (env_voters env) (env_text env) (quorum_state_file eng') (cluster_id (qstate (core eng)))
        boot version members (me (core eng)) et ft = Inr m"
    and b: "m_epoch m = word_of_int (vp_replica_epoch p)" "m_vote_id m = Some (word_of_int (vp_replica_id p))"
    using restart_after_grant[where V = "env_voters env" and st = "qstate (core eng')" and ut = "env_text env"
        and boot = boot and version = version and members = members and n = "me (core eng)" and et = et and ft = ft]
      s assms(1,10) by (auto simp: same_config_def)
  have "(word_of_int (vp_replica_epoch p) :: u32) \<noteq> - 1"
    using assms(7) word_of_wire(1)[of "vp_replica_epoch p"] answer_vote_granted[OF assms(3,4,5)]
    by (auto simp: i32_max_def unsigned_minus_1_eq_mask mask_eq_exp_minus_1)
  with m b show ?thesis using recorded_vote_binds[OF b(1,2)] by blast
qed

theorem granted_vote_survives_crash_witness:
  "\<exists>eng' out reply m. answer_vote (sample_env Written) (sample_vote 1) sample_engine = Some ((eng', out), reply)
    \<and> vy_granted reply \<and> restarted_core simulation_voters decimal_uuids (quorum_state_file eng') 7 [1, 2, 3] None None 2 1000 2000 = Inr m"
proof -
  obtain eng' out reply where a: "answer_vote (sample_env Written) (sample_vote 1) sample_engine = Some ((eng', out), reply)"
    and g: "vy_granted reply" using sample_grant[of 1 Written] by auto
  have p: "first_partition (vm_topics (sample_vote 1)) = Some (hd (snd (hd (vm_topics (sample_vote 1)))))"
    by (simp add: sample_vote_def first_partition_def)
  have "storable simulation_voters fresh_voter"
    by (simp add: storable_def simulation_voters_def fits_i32_def i32_max_def)
  then obtain m where "restarted_core simulation_voters decimal_uuids (quorum_state_file eng') 7 [1, 2, 3] None None
      (me fresh_voter) 1000 2000 = Inr m"
    using granted_vote_survives_crash[OF _ _ a g p, of "[1, 2, 3]" None None 1000 2000]
    by (auto simp: sample_vote_def i32_max_def)
  with a g show ?thesis by (auto simp: fresh_voter_def new_machine_def)
qed





section \<open>Where the guarantees stop\<close>


text \<open>A node outside the voter set that follows leader 1 of epoch 1.\<close>

definition following_observer :: "node_id list engine" where
  "following_observer = sample_engine\<lparr>core := fresh_voter\<lparr>me := 9,
     qstate := (qstate fresh_voter)\<lparr>leader_epoch := 1, leader_id := Some 1\<rparr>, mrole := Observer (Some 1) 2000\<rparr>,
     election_at := None, fetch_at := Some 2000\<rparr>"


text \<open>At the last epoch the addition saturates, and a candidacy replaces a vote of the same epoch.\<close>

theorem last_epoch_votes_twice:
  "\<exists>m m' acts. m_epoch m = - 1 \<and> m_vote_id m = Some 3
     \<and> on_event simulation_voters ElectionTimeout (sim_log_view []) 50 m = Some (m', acts)
     \<and> m_epoch m' = - 1 \<and> m_vote_id m' = Some 1"
proof -
  let ?m = "(new_machine simulation_voters 1 (bootstrap 7 [1]) 1000 2000)
    \<lparr>qstate := (bootstrap 7 [1])\<lparr>leader_epoch := - 1, voted_key := Some \<lparr>rk_id = 3, rk_directory_id = 0\<rparr>\<rparr>\<rparr>"
  show ?thesis
    by (rule exI[of _ ?m]) (simp add: election_eval unsigned_minus_1_eq_mask mask_eq_exp_minus_1)
qed

end
