(* ===== verification/Host_Address.thy ===== *)
theory Host_Address
  imports Text_Format
begin

unbundle bit_operations_syntax

text \<open>
  The host side of an access-control entry, \<open>crates/authz/src/host_format.rs\<close> and
  \<open>crates/authz/src/cidr.rs\<close>: the text the JDK prints for a peer address, the
  comparison of that text with a stored host while it is written, and CIDR ranges.
  An address is a 32-bit or a 128-bit word. Of the standard library the section on
  parsing models \<open>Ipv6Addr::from_str\<close>: groups of up to four hexadecimal digits, one
  \<open>::\<close>, and an IPv4 address in place of the last two groups.
\<close>

section \<open>Addresses (\<open>std::net\<close>)\<close>

datatype ip_addr = V4 "32 word" | V6 "128 word"

definition to_ipv4_mapped :: "128 word \<Rightarrow> 32 word option" where
  "to_ipv4_mapped a = (if drop_bit 32 a = 0xFFFF then Some (ucast a) else None)"

fun to_canonical :: "ip_addr \<Rightarrow> ip_addr" where
  "to_canonical (V4 a) = V4 a"
| "to_canonical (V6 a) = (case to_ipv4_mapped a of Some v \<Rightarrow> V4 v | None \<Rightarrow> V6 a)"

text \<open>The \<open>k\<close>-bit groups of an address, the most significant first.\<close>

definition groups :: "nat \<Rightarrow> nat \<Rightarrow> 'a::len word \<Rightarrow> nat list" where
  "groups k n a = map (\<lambda>i. unat (take_bit k (drop_bit (k * i) a))) (rev [0..<n])"

definition from_groups :: "nat \<Rightarrow> nat list \<Rightarrow> 'a::len word" where
  "from_groups k gs = foldl (\<lambda>a g. push_bit k a OR word_of_nat g) 0 gs"

section \<open>The text of a peer (\<open>host_format.rs\<close>)\<close>

definition hex_char :: "nat \<Rightarrow> char" where
  "hex_char d = (if d < 10 then char_of (48 + d) else char_of (87 + d))"

fun show_hex :: "nat \<Rightarrow> string" where
  "show_hex n = (if n < 16 then [hex_char n] else show_hex (n div 16) @ [hex_char (n mod 16)])"

declare show_hex.simps [simp del]

text \<open>The pieces of text that \<open>write_jdk_host_address\<close> writes, in order.\<close>

definition interleave :: "char \<Rightarrow> string list \<Rightarrow> string list" where
  "interleave c ws = (case ws of [] \<Rightarrow> [] | w # rest \<Rightarrow> w # concat (map (\<lambda>v. [[c], v]) rest))"

definition write_jdk_host_address :: "ip_addr \<Rightarrow> string list" where
  "write_jdk_host_address ip =
     (case to_canonical ip of
        V4 a \<Rightarrow> interleave (CHR ''.'') (map show_nat (groups 8 4 a))
      | V6 a \<Rightarrow> interleave (CHR '':'') (map show_hex (groups 16 8 a)))"

definition jdk_host_address :: "ip_addr \<Rightarrow> string" where
  "jdk_host_address ip = concat (write_jdk_host_address ip)"

text \<open>\<open>PrefixMatcher\<close>: each piece is stripped off the front of the text.\<close>

fun match_pieces :: "string list \<Rightarrow> string \<Rightarrow> string option" where
  "match_pieces [] rest = Some rest"
| "match_pieces (piece # pieces) rest =
     (case strip_prefix piece rest of None \<Rightarrow> None | Some rest' \<Rightarrow> match_pieces pieces rest')"

definition jdk_host_address_is :: "ip_addr \<Rightarrow> string \<Rightarrow> bool" where
  "jdk_host_address_is ip text = (match_pieces (write_jdk_host_address ip) text = Some [])"

section \<open>Reading an IPv6 address (\<open>Ipv6Addr::from_str\<close>)\<close>

definition hex_value :: "char \<Rightarrow> nat option" where
  "hex_value c =
     (let n = (of_char c :: nat) in
      if 48 \<le> n \<and> n \<le> 57 then Some (n - 48)
      else if 97 \<le> n \<and> n \<le> 102 then Some (n - 87)
      else if 65 \<le> n \<and> n \<le> 70 then Some (n - 55) else None)"

definition read_hex_group :: "string \<Rightarrow> (nat \<times> string) option" where
  "read_hex_group s =
     (let ds = takeWhile (\<lambda>c. hex_value c \<noteq> None) s in
      if ds = [] \<or> length ds > 4 then None
      else Some (foldl (\<lambda>a c. 16 * a + the (hex_value c)) 0 ds, drop (length ds) s))"

definition read_octet :: "string \<Rightarrow> (nat \<times> string) option" where
  "read_octet s =
     (let ds = takeWhile is_digit s; v = foldl (\<lambda>a c. 10 * a + digit_value c) 0 ds in
      if ds = [] \<or> length ds > 3 \<or> (hd ds = CHR ''0'' \<and> length ds > 1) \<or> v > 255 then None
      else Some (v, drop (length ds) s))"

definition read_given_char :: "char \<Rightarrow> string \<Rightarrow> string option" where
  "read_given_char c s = (case s of x # rest \<Rightarrow> if x = c then Some rest else None | [] \<Rightarrow> None)"

definition read_separator :: "char \<Rightarrow> bool \<Rightarrow> (string \<Rightarrow> 'r option) \<Rightarrow> string \<Rightarrow> 'r option" where
  "read_separator c at_start inner s =
     (if at_start then inner s else case read_given_char c s of None \<Rightarrow> None | Some rest \<Rightarrow> inner rest)"

fun read_octets :: "bool \<Rightarrow> nat \<Rightarrow> string \<Rightarrow> (nat list \<times> string) option" where
  "read_octets at_start 0 s = Some ([], s)"
| "read_octets at_start (Suc n) s =
     (case read_separator (CHR ''.'') at_start read_octet s of
        None \<Rightarrow> None
      | Some (v, rest) \<Rightarrow>
          (case read_octets False n rest of None \<Rightarrow> None | Some (vs, rest') \<Rightarrow> Some (v # vs, rest')))"

text \<open>The groups read, whether they end in an IPv4 address, and the rest of the text.\<close>

fun read_groups :: "bool \<Rightarrow> nat \<Rightarrow> string \<Rightarrow> nat list \<times> bool \<times> string" where
  "read_groups at_start 0 s = ([], False, s)"
| "read_groups at_start (Suc n) s =
     (case (if n > 0 then read_separator (CHR '':'') at_start (read_octets True 4) s else None) of
        Some ([a, b, c, d], rest) \<Rightarrow> ([256 * a + b, 256 * c + d], True, rest)
      | _ \<Rightarrow>
          (case read_separator (CHR '':'') at_start read_hex_group s of
             None \<Rightarrow> ([], False, s)
           | Some (g, rest) \<Rightarrow>
               (case read_groups False n rest of (gs, v4, rest') \<Rightarrow> (g # gs, v4, rest'))))"

definition parse_ipv6 :: "string \<Rightarrow> 128 word option" where
  "parse_ipv6 s =
     (case read_groups True 8 s of
        (head, head_ipv4, rest) \<Rightarrow>
          if length head = 8 then (if rest = [] then Some (from_groups 16 head) else None)
          else if head_ipv4 then None
          else
            (case Option.bind (read_given_char (CHR '':'') rest) (read_given_char (CHR '':'')) of
               None \<Rightarrow> None
             | Some rest2 \<Rightarrow>
                 (case read_groups True (8 - (length head + 1)) rest2 of
                    (tail, _, rest3) \<Rightarrow>
                      if rest3 = []
                      then Some (from_groups 16 (head @ replicate (8 - length head - length tail) 0 @ tail))
                      else None)))"

section \<open>CIDR ranges (\<open>cidr.rs\<close>)\<close>

record cidr =
  cidr_ip :: ip_addr
  cidr_prefix_len :: nat

datatype cidr_error =
    CouldNotParse
  | ValueNotInRange nat nat
  | MissingPrefixLength
  | InvalidPrefixLength
  | PrefixLengthNotInRange
  | NotAnIpv6Address

definition ascii_digits :: "string \<Rightarrow> nat \<Rightarrow> bool" where
  "ascii_digits text max_len \<longleftrightarrow> 1 \<le> length text \<and> length text \<le> max_len \<and> list_all is_digit text"

fun parse_octets :: "string list \<Rightarrow> cidr_error + nat list" where
  "parse_octets [] = Inr []"
| "parse_octets (octet # rest) =
     (case parse_int 0 (2 ^ 32 - 1) octet of
        None \<Rightarrow> Inl CouldNotParse
      | Some value \<Rightarrow>
          if value > 255 then Inl (ValueNotInRange (nat value) 255)
          else (case parse_octets rest of Inl err \<Rightarrow> Inl err | Inr vs \<Rightarrow> Inr (nat value # vs)))"

definition parse_v4 :: "string \<Rightarrow> cidr_error + cidr" where
  "parse_v4 text =
     (case split_once (CHR ''/'') text of
        None \<Rightarrow> Inl CouldNotParse
      | Some (address, prefix_text) \<Rightarrow>
          (let octets = split_on (CHR ''.'') address in
           if length octets \<noteq> 4 \<or> \<not> list_all (\<lambda>octet. ascii_digits octet 3) octets \<or> \<not> ascii_digits prefix_text 2
           then Inl CouldNotParse
           else
             (case parse_octets octets of
                Inl err \<Rightarrow> Inl err
              | Inr bytes \<Rightarrow>
                  (case parse_int 0 255 prefix_text of
                     None \<Rightarrow> Inl CouldNotParse
                   | Some len \<Rightarrow>
                       if len > 32 then Inl (ValueNotInRange (nat len) 32)
                       else Inr \<lparr>cidr_ip = V4 (from_groups 8 bytes), cidr_prefix_len = nat len\<rparr>))))"

definition java_parse_int :: "string \<Rightarrow> int option" where
  "java_parse_int text = parse_int i32_min i32_max text"

definition strip_brackets :: "string \<Rightarrow> string" where
  "strip_brackets address =
     (case strip_prefix ''['' address of
        None \<Rightarrow> address
      | Some inner \<Rightarrow> (case strip_suffix '']'' inner of None \<Rightarrow> address | Some body \<Rightarrow> body))"

definition parse_v6 :: "string \<Rightarrow> cidr_error + cidr" where
  "parse_v6 text =
     (case split_once (CHR ''/'') text of
        None \<Rightarrow> Inl MissingPrefixLength
      | Some (address, prefix_text) \<Rightarrow>
          (case java_parse_int prefix_text of
             None \<Rightarrow> Inl InvalidPrefixLength
           | Some len \<Rightarrow>
               if len < 0 \<or> len > 128 then Inl PrefixLengthNotInRange
               else
                 (case parse_ipv6 (strip_brackets address) of
                    None \<Rightarrow> Inl CouldNotParse
                  | Some ip \<Rightarrow>
                      if to_ipv4_mapped ip \<noteq> None then Inl NotAnIpv6Address
                      else Inr \<lparr>cidr_ip = V6 ip, cidr_prefix_len = nat len\<rparr>)))"

definition parse_cidr :: "string \<Rightarrow> cidr_error + cidr" where
  "parse_cidr host = (if CHR '':'' \<in> set host then parse_v6 host else parse_v4 host)"

definition v4_mask :: "nat \<Rightarrow> 32 word" where
  "v4_mask len = (if len = 0 then 0 else push_bit (32 - len) (- 1))"

definition v6_mask :: "nat \<Rightarrow> 128 word" where
  "v6_mask len = (if len = 0 then 0 else push_bit (128 - len) (- 1))"

definition cidr_contains :: "cidr \<Rightarrow> ip_addr \<Rightarrow> bool" where
  "cidr_contains c ip =
     (case (cidr_ip c, to_canonical ip) of
        (V4 base, V4 candidate) \<Rightarrow>
          if candidate = 0 then False
          else base AND v4_mask (cidr_prefix_len c) = candidate AND v4_mask (cidr_prefix_len c)
      | (V6 base, V6 candidate) \<Rightarrow>
          base AND v6_mask (cidr_prefix_len c) = candidate AND v6_mask (cidr_prefix_len c)
      | _ \<Rightarrow> False)"

section \<open>The text identifies the address\<close>

lemma groups_inject:
  assumes "groups k n a = groups k n b" "k * n = LENGTH('a)" "0 < k"
  shows "a = (b :: 'a::len word)"
proof (rule bit_word_eqI)
  fix j assume j: "j < LENGTH('a)"
  let ?i = "j div k"
  have i: "?i < n" using j assms(2,3) by (metis less_mult_imp_div_less mult.commute)
  have "unat (take_bit k (drop_bit (k * ?i) a)) = unat (take_bit k (drop_bit (k * ?i) b))"
    using assms(1) i by (auto simp: groups_def)
  then have "take_bit k (drop_bit (k * ?i) a) = take_bit k (drop_bit (k * ?i) b)" by (simp only: word_unat_eq_iff)
  from arg_cong[OF this, of "\<lambda>w. bit w (j mod k)"] assms(3)
  show "bit a j = bit b j" by (simp add: bit_simps)
qed

lemma concat_interleave: "concat (interleave c ws) = join_with c ws"
proof (cases ws)
  case (Cons w rest)
  have "w @ concat (concat (map (\<lambda>v. [[c], v]) rest)) = join_with c (w # rest)" for w
    by (induction rest arbitrary: w) simp_all
  then show ?thesis by (simp add: Cons interleave_def)
qed (simp add: interleave_def)

lemma match_pieces_iff: "match_pieces pieces t = Some rest \<longleftrightarrow> t = concat pieces @ rest"
proof (induction pieces arbitrary: t)
  case (Cons piece pieces)
  show ?case
  proof (cases "strip_prefix piece t")
    case None
    then have "t \<noteq> piece @ rest'" for rest' by (metis option.distinct(1) strip_prefix_iff)
    then show ?thesis using None by simp
  next
    case (Some rest')
    then have t: "t = piece @ rest'" by (simp add: strip_prefix_iff)
    show ?thesis unfolding match_pieces.simps Some option.case Cons.IH using t by simp
  qed
qed simp

lemma hex_char_value [simp]: "d < 16 \<Longrightarrow> hex_value (hex_char d) = Some d"
  by (auto simp: hex_value_def hex_char_def of_char_of Let_def)

lemma show_hex_digits: "\<forall>c \<in> set (show_hex n). hex_value c \<noteq> None"
proof (induction n rule: show_hex.induct)
  case (1 n)
  then show ?case by (auto simp: show_hex.simps[of n])
qed

lemma show_hex_value: "foldl (\<lambda>a c. 16 * a + the (hex_value c)) 0 (show_hex n) = n"
proof (induction n rule: show_hex.induct)
  case (1 n)
  then show ?case by (simp add: show_hex.simps[of n])
qed

lemma show_hex_nonempty [simp]: "show_hex n \<noteq> []"
  by (simp add: show_hex.simps[of n])

lemma show_hex_length:
  assumes "n < 16 ^ k" "0 < k"
  shows "length (show_hex n) \<le> k"
  using assms
proof (induction n arbitrary: k rule: show_hex.induct)
  case (1 n)
  show ?case
  proof (cases "n < 16")
    case False
    then obtain j where k: "k = Suc j" "0 < j" using 1(2,3) by (cases k; cases "k - 1") auto
    then have "n div 16 < 16 ^ j" using 1(2) by (simp add: div_less_iff_less_mult mult.commute)
    then have "length (show_hex (n div 16)) \<le> j" using 1(1)[OF False] k by simp
    then show ?thesis using False k by (simp add: show_hex.simps[of n])
  qed (use 1 in \<open>simp add: show_hex.simps[of n]\<close>)
qed

lemma hex_value_separators [simp]: "hex_value (CHR '':'') = None" "hex_value (CHR ''.'') = None" "hex_value (CHR ''/'') = None"
  by (simp_all add: hex_value_def)

lemma is_digit_separators [simp]: "\<not> is_digit (CHR ''.'')" "\<not> is_digit (CHR '':'')" "\<not> is_digit (CHR ''/'')"
  by (simp_all add: is_digit_def)

lemma no_separator [simp]:
  "CHR ''.'' \<notin> set (show_nat n)" "CHR '':'' \<notin> set (show_nat n)" "CHR ''/'' \<notin> set (show_nat n)"
  "CHR ''.'' \<notin> set (show_hex n)" "CHR '':'' \<notin> set (show_hex n)" "CHR ''/'' \<notin> set (show_hex n)"
  using show_nat_digits[of n] show_hex_digits[of n] by (auto simp: list_all_iff)

lemma show_nat_inject: "show_nat a = show_nat b \<longleftrightarrow> a = b"
  by (metis option.inject parse_digits_show_nat)

lemma show_hex_inject: "show_hex a = show_hex b \<longleftrightarrow> a = b"
  by (metis show_hex_value)

lemma groups_length [simp]: "length (groups k n a) = n"
  by (simp add: groups_def)

lemma jdk_text_v4: "to_canonical ip = V4 a \<Longrightarrow> jdk_host_address ip = join_with (CHR ''.'') (map show_nat (groups 8 4 a))"
  by (simp add: jdk_host_address_def write_jdk_host_address_def concat_interleave)

lemma jdk_text_v6: "to_canonical ip = V6 a \<Longrightarrow> jdk_host_address ip = join_with (CHR '':'') (map show_hex (groups 16 8 a))"
  by (simp add: jdk_host_address_def write_jdk_host_address_def concat_interleave)

lemma split_jdk_text:
  "split_on (CHR ''.'') (join_with (CHR ''.'') (map show_nat (groups 8 4 a))) = map show_nat (groups 8 4 a)"
  "split_on (CHR '':'') (join_with (CHR '':'') (map show_hex (groups 16 8 b))) = map show_hex (groups 16 8 b)"
  using groups_length[of 8 4 a] groups_length[of 16 8 b] by (intro split_join; force)+

lemma jdk_text_v4_inject:
  "join_with (CHR ''.'') (map show_nat (groups 8 4 a)) = join_with (CHR ''.'') (map show_nat (groups 8 4 b))
    \<longleftrightarrow> a = (b :: 32 word)"
proof
  assume "join_with (CHR ''.'') (map show_nat (groups 8 4 a)) = join_with (CHR ''.'') (map show_nat (groups 8 4 b))"
  then have "map show_nat (groups 8 4 a) = map show_nat (groups 8 4 b)" by (metis split_jdk_text(1))
  then have "groups 8 4 a = groups 8 4 b" by (simp add: inj_map_eq_map inj_def show_nat_inject)
  then show "a = b" by (rule groups_inject) simp_all
qed simp

lemma jdk_text_v6_inject:
  "join_with (CHR '':'') (map show_hex (groups 16 8 a)) = join_with (CHR '':'') (map show_hex (groups 16 8 b))
    \<longleftrightarrow> a = (b :: 128 word)"
proof
  assume "join_with (CHR '':'') (map show_hex (groups 16 8 a)) = join_with (CHR '':'') (map show_hex (groups 16 8 b))"
  then have "map show_hex (groups 16 8 a) = map show_hex (groups 16 8 b)" by (metis split_jdk_text(2))
  then have "groups 16 8 a = groups 16 8 b" by (simp add: inj_map_eq_map inj_def show_hex_inject)
  then show "a = b" by (rule groups_inject) simp_all
qed simp

lemma jdk_texts_differ:
  "join_with (CHR ''.'') (map show_nat (groups 8 4 (a :: 32 word))) \<noteq> join_with (CHR '':'') (map show_hex (groups 16 8 (b :: 128 word)))"
proof
  assume e: "join_with (CHR ''.'') (map show_nat (groups 8 4 a)) = join_with (CHR '':'') (map show_hex (groups 16 8 b))"
  have "CHR '':'' \<notin> set (join_with (CHR ''.'') (map show_nat (groups 8 4 a)))"
    using set_join_with[of "CHR ''.''" "map show_nat (groups 8 4 a)"] by auto
  then have "split_on (CHR '':'') (join_with (CHR '':'') (map show_hex (groups 16 8 b)))
      = [join_with (CHR '':'') (map show_hex (groups 16 8 b))]"
    by (simp add: split_on_word flip: e)
  from arg_cong[OF this, of length] show False by (simp add: split_jdk_text)
qed

lemma jdk_text_inject: "jdk_host_address a = jdk_host_address b \<longleftrightarrow> to_canonical a = to_canonical b"
  using jdk_texts_differ jdk_texts_differ[symmetric]
  by (cases "to_canonical a"; cases "to_canonical b")
    (simp_all add: jdk_text_v4 jdk_text_v6 jdk_text_v4_inject jdk_text_v6_inject)

section \<open>Masks compare leading bits\<close>

lemma masked_eq_iff:
  fixes a b :: "'a::len word"
  assumes "len \<le> LENGTH('a)"
  shows "a AND push_bit (LENGTH('a) - len) (- 1) = b AND push_bit (LENGTH('a) - len) (- 1)
    \<longleftrightarrow> (\<forall>i < len. bit a (LENGTH('a) - 1 - i) = bit b (LENGTH('a) - 1 - i))"
proof
  assume m: "a AND push_bit (LENGTH('a) - len) (- 1) = b AND push_bit (LENGTH('a) - len) (- 1)"
  show "\<forall>i < len. bit a (LENGTH('a) - 1 - i) = bit b (LENGTH('a) - 1 - i)"
  proof (intro allI impI)
    fix i assume "i < len"
    with assms have "LENGTH('a) - len \<le> LENGTH('a) - 1 - i" "LENGTH('a) - 1 - i < LENGTH('a)" by simp_all
    with arg_cong[OF m, of "\<lambda>w. bit w (LENGTH('a) - 1 - i)"]
    show "bit a (LENGTH('a) - 1 - i) = bit b (LENGTH('a) - 1 - i)" by (simp add: bit_simps)
  qed
next
  assume h: "\<forall>i < len. bit a (LENGTH('a) - 1 - i) = bit b (LENGTH('a) - 1 - i)"
  show "a AND push_bit (LENGTH('a) - len) (- 1) = b AND push_bit (LENGTH('a) - len) (- 1)"
  proof (rule bit_word_eqI)
    fix j assume j: "j < LENGTH('a)"
    have "LENGTH('a) - len \<le> j \<Longrightarrow> bit a j = bit b j"
      using h[rule_format, of "LENGTH('a) - 1 - j"] j by simp
    then show "bit (a AND push_bit (LENGTH('a) - len) (- 1)) j = bit (b AND push_bit (LENGTH('a) - len) (- 1)) j"
      using j by (auto simp: bit_simps)
  qed
qed

lemma mask_forms: "len \<le> 32 \<Longrightarrow> v4_mask len = push_bit (32 - len) (- 1)" "l6 \<le> 128 \<Longrightarrow> v6_mask l6 = push_bit (128 - l6) (- 1)"
  by (auto simp: v4_mask_def v6_mask_def intro!: bit_word_eqI simp: bit_simps)

section \<open>Reading what was printed\<close>

lemma from_groups_append: "from_groups k (gs @ [g]) = (push_bit k (from_groups k gs) OR word_of_nat g :: 'a::len word)"
  by (simp add: from_groups_def)

lemma groups_Suc: "groups k (Suc n) (a :: 'a::len word) = groups k n (drop_bit k a) @ [unat (take_bit k a)]"
proof -
  have "[0..<Suc n] = 0 # map Suc [0..<n]" by (simp add: upt_conv_Cons map_Suc_upt del: upt_Suc)
  then have "rev [0..<Suc n] = map Suc (rev [0..<n]) @ [0]" by (simp only: rev.simps rev_map)
  then show ?thesis by (simp add: groups_def ac_simps comp_def)
qed

lemma from_groups_groups:
  "from_groups k (groups k n (a :: 'a::len word)) = take_bit (k * n) a"
proof (induction n arbitrary: a)
  case (Suc n)
  have "push_bit k (take_bit (k * n) (drop_bit k a)) OR take_bit k a = take_bit (k * Suc n) a"
    by (rule bit_word_eqI) (auto simp: bit_simps algebra_simps)
  then show ?case by (simp add: groups_Suc from_groups_append Suc)
qed (simp add: groups_def from_groups_def)

lemma groups_bound: "g \<in> set (groups k n a) \<Longrightarrow> g < 2 ^ k"
  by (auto simp: groups_def unsigned_take_bit_eq)

lemma from_groups_full:
  "from_groups 8 (groups 8 4 a) = (a :: 32 word)" "from_groups 16 (groups 16 8 b) = (b :: 128 word)"
  by (simp_all add: from_groups_groups take_bit_word_eq_self)

lemma digits_take: "list_all is_digit ds \<Longrightarrow> parse_int 0 hi (ds :: string) = Option.bind (parse_digits ds) (\<lambda>n. in_range 0 hi (int n))"
  by (cases ds) (auto simp: parse_int_def parse_digits_def dest: is_digit_not_sign)

lemma parse_unsigned_show_nat: "int n \<le> hi \<Longrightarrow> parse_int 0 hi (show_nat n) = Some (int n)"
  by (simp add: digits_take show_nat_digits in_range_def)

lemma show_nat_length:
  assumes "n < 10 ^ k" "0 < k"
  shows "length (show_nat n) \<le> k"
  using assms
proof (induction n arbitrary: k rule: show_nat.induct)
  case (1 n)
  show ?case
  proof (cases "n < 10")
    case False
    then obtain j where k: "k = Suc j" "0 < j" using 1(2,3) by (cases k; cases "k - 1") auto
    then have "n div 10 < 10 ^ j" using 1(2) by (simp add: div_less_iff_less_mult mult.commute)
    then have "length (show_nat (n div 10)) \<le> j" using 1(1)[OF False] k by simp
    then show ?thesis using False k by (simp add: show_nat.simps[of n])
  qed (use 1 in \<open>simp add: show_nat.simps[of n]\<close>)
qed

lemma parse_octets_show: "\<forall>g \<in> set gs. g < 256 \<Longrightarrow> parse_octets (map show_nat gs) = Inr gs"
  by (induction gs) (auto simp: parse_unsigned_show_nat)

lemma slash_free: "CHR ''/'' \<notin> set (jdk_host_address ip)"
proof (cases "to_canonical ip")
  case (V4 a)
  then show ?thesis
    using set_join_with[of "CHR ''.''" "map show_nat (groups 8 4 a)"] by (auto simp: jdk_text_v4)
next
  case (V6 a)
  then show ?thesis
    using set_join_with[of "CHR '':''" "map show_hex (groups 16 8 a)"] by (auto simp: jdk_text_v6)
qed

lemma ascii_show_nat: "n < 10 ^ k \<Longrightarrow> 0 < k \<Longrightarrow> ascii_digits (show_nat n) k"
  by (simp add: ascii_digits_def show_nat_length show_nat_digits Suc_leI)

lemma parse_v4_text:
  assumes "to_canonical ip = V4 a" "len \<le> 32"
  shows "parse_v4 (jdk_host_address ip @ CHR ''/'' # show_nat len) = Inr \<lparr>cidr_ip = V4 a, cidr_prefix_len = len\<rparr>"
proof -
  have b: "\<forall>g \<in> set (groups 8 4 a). g < 256" using groups_bound[of _ 8 4 a] by auto
  have "list_all (\<lambda>octet. ascii_digits octet 3) (map show_nat (groups 8 4 a))"
    using b by (force simp: list_all_iff intro!: ascii_show_nat)
  then show ?thesis
    using assms b split_once_append[OF slash_free, of ip "show_nat len"]
    by (simp add: parse_v4_def jdk_text_v4 split_jdk_text Let_def parse_octets_show parse_unsigned_show_nat
        ascii_show_nat from_groups_full)
qed

lemma read_octets_needs_dot:
  assumes "CHR ''.'' \<notin> set s"
  shows "read_octets True (Suc (Suc n)) s = None"
proof (cases "read_octet s")
  case (Some r)
  then have "set (snd r) \<subseteq> set s" by (auto simp: read_octet_def Let_def split: if_splits dest: in_set_dropD)
  then have "CHR ''.'' \<notin> set (snd r)" using assms by auto
  then have "read_given_char (CHR ''.'') (snd r) = None" by (auto simp: read_given_char_def split: list.splits)
  then show ?thesis using Some by (cases r) (simp add: read_separator_def)
qed (simp add: read_separator_def)

lemma read_shown_group:
  assumes "g < 65536" "rest = [] \<or> hd rest = CHR '':''"
  shows "read_hex_group (show_hex g @ rest) = Some (g, rest)"
proof -
  have "takeWhile (\<lambda>c. hex_value c \<noteq> None) (show_hex g @ rest) = show_hex g"
    using assms(2) show_hex_digits[of g] by (cases rest) (simp_all add: takeWhile_append)
  moreover have "length (show_hex g) \<le> 4" using show_hex_length[of g 4] assms(1) by simp
  ultimately show ?thesis by (simp add: read_hex_group_def Let_def show_hex_value)
qed

abbreviation shown_groups :: "nat list \<Rightarrow> string" where
  "shown_groups gs \<equiv> concat (map (\<lambda>g. CHR '':'' # show_hex g) gs)"

lemma shown_groups_head: "shown_groups gs = [] \<or> hd (shown_groups gs) = CHR '':''"
  by (cases gs) simp_all

lemma shown_groups_dotless: "CHR ''.'' \<notin> set (show_hex g @ shown_groups gs)"
  by (induction gs) auto

lemma read_shown_groups:
  assumes "\<forall>g \<in> set gs. g < 65536"
  shows "read_groups False (length gs) (shown_groups gs) = (gs, False, [])"
  using assms
proof (induction gs)
  case (Cons g gs)
  have "read_octets True 4 (show_hex g @ shown_groups gs) = None"
    using read_octets_needs_dot[OF shown_groups_dotless[of g gs], of 2] by (simp add: eval_nat_numeral)
  then show ?case
    using Cons read_shown_group[OF _ shown_groups_head, of g gs]
    by (cases "gs = []") (simp_all add: read_separator_def read_given_char_def del: read_octets.simps)
qed simp

lemma join_shown: "join_with (CHR '':'') (map show_hex (g # gs)) = show_hex g @ shown_groups gs"
  by (induction gs arbitrary: g) simp_all

lemma read_shown_address:
  assumes "\<forall>g \<in> set (g # gs). g < 65536"
  shows "read_groups True (length (g # gs)) (join_with (CHR '':'') (map show_hex (g # gs))) = (g # gs, False, [])"
proof -
  have "read_octets True 4 (show_hex g @ shown_groups gs) = None"
    using read_octets_needs_dot[OF shown_groups_dotless[of g gs], of 2] by (simp add: eval_nat_numeral)
  then show ?thesis
    unfolding join_shown
    using assms read_shown_groups[of gs] read_shown_group[OF _ shown_groups_head, of g gs]
    by (cases "gs = []") (simp_all add: read_separator_def del: read_octets.simps)
qed

lemma parse_ipv6_text: "parse_ipv6 (join_with (CHR '':'') (map show_hex (groups 16 8 a))) = Some a"
proof -
  have l: "length (groups 16 8 a) = 8" by simp
  obtain g gs where g: "groups 16 8 a = g # gs" using l by (cases "groups 16 8 a") auto
  have "\<forall>x \<in> set (g # gs). x < 65536" using groups_bound[of _ 16 8 a] g by auto
  from read_shown_address[OF this] l show ?thesis by (simp add: parse_ipv6_def g from_groups_full flip: g)
qed

lemma parse_v6_text:
  assumes "to_canonical ip = V6 a" "len \<le> 128"
  shows "parse_v6 (jdk_host_address ip @ CHR ''/'' # show_nat len) = Inr \<lparr>cidr_ip = V6 a, cidr_prefix_len = len\<rparr>"
proof -
  have plain: "to_ipv4_mapped a = None" using assms(1) by (cases ip) (auto split: option.splits)
  have "java_parse_int (show_nat len) = Some (int len)"
    using parse_int_show_int[of i32_min "int len" i32_max] assms(2)
    by (simp add: java_parse_int_def show_int_def i32_min_def i32_max_def)
  moreover have "strip_brackets (jdk_host_address ip) = jdk_host_address ip"
  proof -
    have "hex_value (CHR ''['') = None" by (simp add: hex_value_def)
    then have "CHR ''['' \<notin> set (jdk_host_address ip)"
      using set_join_with[of "CHR '':''" "map show_hex (groups 16 8 a)"] show_hex_digits assms(1)
      by (fastforce simp: jdk_text_v6)
    then have "strip_prefix ''['' (jdk_host_address ip) = None"
      by (cases "jdk_host_address ip") auto
    then show ?thesis by (simp add: strip_brackets_def)
  qed
  ultimately show ?thesis
    using assms plain split_once_append[OF slash_free, of ip "show_nat len"] parse_ipv6_text[of a]
    by (simp add: parse_v6_def jdk_text_v6)
qed

lemma colon_in_text:
  "CHR '':'' \<in> set (jdk_host_address ip @ CHR ''/'' # show_nat len) \<longleftrightarrow> (\<exists>a. to_canonical ip = V6 a)"
proof (cases "to_canonical ip")
  case (V4 a)
  then show ?thesis
    using set_join_with[of "CHR ''.''" "map show_nat (groups 8 4 a)"] by (auto simp: jdk_text_v4)
next
  case (V6 a)
  have "length (groups 16 8 a) = 8" by simp
  then obtain g h gs where "groups 16 8 a = g # h # gs" by (cases "groups 16 8 a"; cases "tl (groups 16 8 a)") auto
  then show ?thesis using V6 by (simp add: jdk_text_v6)
qed

section \<open>Properties\<close>

text \<open>
  C38: a stored literal host matches exactly the peers whose JDK text it is, although
  the text is never built: the pieces are stripped off the stored host as they are
  written. Two peers have the same text only if they are the same address, an
  IPv4-mapped IPv6 address counting as its IPv4 address.
\<close>

theorem host_text_identifies_peer:
  "jdk_host_address_is ip t = (t = jdk_host_address ip)
   \<and> (jdk_host_address_is ip t \<and> jdk_host_address_is ip' t) = (t = jdk_host_address ip \<and> to_canonical ip = to_canonical ip')"
  using match_pieces_iff[of _ t "[]"] jdk_text_inject[of ip ip']
  by (auto simp: jdk_host_address_is_def jdk_host_address_def)

text \<open>
  C40: the range written as a peer's text, a slash and a prefix length reads back as
  that address and length, for IPv4 and IPv6.
\<close>

theorem cidr_text_round_trip:
  assumes "case to_canonical ip of V4 _ \<Rightarrow> len \<le> 32 | V6 _ \<Rightarrow> len \<le> 128"
  shows "parse_cidr (jdk_host_address ip @ CHR ''/'' # show_nat len)
    = Inr \<lparr>cidr_ip = to_canonical ip, cidr_prefix_len = len\<rparr>"
  using assms colon_in_text[of ip len]
  by (cases "to_canonical ip") (simp_all add: parse_cidr_def parse_v4_text parse_v6_text del: Un_iff set_append)

theorem cidr_text_round_trip_witness:
  "parse_cidr ''10.0.0.5/8'' = Inr \<lparr>cidr_ip = V4 0x0A000005, cidr_prefix_len = 8\<rparr>"
proof -
  have "jdk_host_address (V4 0x0A000005) @ CHR ''/'' # show_nat 8 = ''10.0.0.5/8''" by code_simp
  then show ?thesis using cidr_text_round_trip[of 8 "V4 0x0A000005"] by simp
qed

text \<open>
  C39: a parsed range holds exactly the addresses of its family that agree with it on
  the leading bits its prefix counts, except that no IPv4 range holds \<open>0.0.0.0\<close>.
\<close>

theorem cidr_contains_leading_bits:
  assumes "parse_cidr host = Inr c"
  shows "cidr_contains c ip =
    (case (cidr_ip c, to_canonical ip) of
       (V4 base, V4 a) \<Rightarrow> a \<noteq> 0 \<and> (\<forall>i < cidr_prefix_len c. bit a (31 - i) = bit base (31 - i))
     | (V6 base, V6 a) \<Rightarrow> \<forall>i < cidr_prefix_len c. bit a (127 - i) = bit base (127 - i)
     | _ \<Rightarrow> False)"
proof -
  have "case cidr_ip c of V4 _ \<Rightarrow> cidr_prefix_len c \<le> 32 | V6 _ \<Rightarrow> cidr_prefix_len c \<le> 128"
    using assms
    by (auto simp: parse_cidr_def parse_v4_def parse_v6_def Let_def split: if_splits option.splits sum.splits prod.splits)
  then show ?thesis
    using masked_eq_iff[where 'a = 32, of "cidr_prefix_len c"] masked_eq_iff[where 'a = 128, of "cidr_prefix_len c"]
    by (auto simp: cidr_contains_def mask_forms split: ip_addr.splits)
qed

theorem cidr_contains_leading_bits_witness:
  "\<exists>c. parse_cidr ''10.0.0.5/8'' = Inr c \<and> cidr_contains c (V4 0x0AFFFFFF) \<and> \<not> cidr_contains c (V4 0x0B000000)"
proof -
  have p: "parse_cidr ''10.0.0.5/8'' = Inr \<lparr>cidr_ip = V4 0x0A000005, cidr_prefix_len = 8\<rparr>" by code_simp
  have bits: "\<forall>i < 8. bit (0x0AFFFFFF :: 32 word) (31 - i) = bit (0x0A000005 :: 32 word) (31 - i)"
    "\<not> (\<forall>i < 8. bit (0x0B000000 :: 32 word) (31 - i) = bit (0x0A000005 :: 32 word) (31 - i))"
    by code_simp+
  from cidr_contains_leading_bits[OF p, of "V4 0x0AFFFFFF"] cidr_contains_leading_bits[OF p, of "V4 0x0B000000"] bits
  show ?thesis using p by simp
qed

end
