(* ===== verification/Acl_Matching.thy ===== *)
theory Acl_Matching
  imports Host_Address "HOL-Library.Sublist"
begin

text \<open>
  Whether one stored access-control entry applies to a request: the decision kernels
  of \<open>verified/src/authz\<close>, the per-entry predicates of
  \<open>authz/src/simple/matching.rs\<close>, and the interface of an entry source from
  \<open>source.rs\<close>. A Rust string is the list of its UTF-8 bytes. The stored entry
  belongs to another crate: the record has the fields the code reads, and the type of
  resource types is a parameter, because the code only compares its values.
\<close>

section \<open>Decision kernels\<close>

datatype acl_decision_kind = AllowSuperuser | AllowAcl | AllowNoAcl | DenyExplicit | DenyDefault

datatype acl_pattern_kind = KindLiteral | KindPrefixed

datatype acl_operation_kind =
    KindAll | KindRead | KindWrite | KindCreate | KindDelete | KindAlter | KindDescribe
  | KindClusterAction | KindDescribeConfigs | KindAlterConfigs | KindIdempotentWrite
  | KindTwoPhaseCommit | KindCreateTokens | KindDescribeTokens

datatype acl_resource_type_match = SameType | DifferentType

record acl_resource_facts =
  rf_resource_type :: acl_resource_type_match
  rf_exact_name :: bool
  rf_wildcard_name :: bool
  rf_name_has_prefix :: bool

datatype acl_default = DefaultDeny | DefaultAllow

record acl_facts =
  af_super_user :: bool
  af_saw_allow :: bool
  af_saw_deny :: bool
  af_default_decision :: acl_default

definition acl_identity_match :: "bool \<Rightarrow> bool \<Rightarrow> bool" where
  "acl_identity_match wildcard exact = (wildcard \<or> exact)"

definition acl_resource_match :: "acl_pattern_kind \<Rightarrow> acl_resource_facts \<Rightarrow> bool" where
  "acl_resource_match pattern facts =
     (case (rf_resource_type facts, pattern) of
        (DifferentType, _) \<Rightarrow> False
      | (SameType, KindLiteral) \<Rightarrow> rf_exact_name facts \<or> rf_wildcard_name facts
      | (SameType, KindPrefixed) \<Rightarrow> rf_name_has_prefix facts)"

fun acl_operation_match :: "acl_operation_kind \<Rightarrow> acl_operation_kind \<Rightarrow> bool \<Rightarrow> bool" where
  "acl_operation_match KindAll requested is_allow = True"
| "acl_operation_match KindRead requested is_allow =
     (requested = KindRead \<or> is_allow \<and> requested = KindDescribe)"
| "acl_operation_match KindWrite requested is_allow =
     (requested = KindWrite \<or> is_allow \<and> requested = KindDescribe)"
| "acl_operation_match KindDelete requested is_allow =
     (requested = KindDelete \<or> is_allow \<and> requested = KindDescribe)"
| "acl_operation_match KindAlter requested is_allow =
     (requested = KindAlter \<or> is_allow \<and> requested = KindDescribe)"
| "acl_operation_match KindAlterConfigs requested is_allow =
     (requested = KindAlterConfigs \<or> is_allow \<and> requested = KindDescribeConfigs)"
| "acl_operation_match KindCreate requested is_allow = (requested = KindCreate)"
| "acl_operation_match KindDescribe requested is_allow = (requested = KindDescribe)"
| "acl_operation_match KindClusterAction requested is_allow = (requested = KindClusterAction)"
| "acl_operation_match KindDescribeConfigs requested is_allow = (requested = KindDescribeConfigs)"
| "acl_operation_match KindIdempotentWrite requested is_allow = (requested = KindIdempotentWrite)"
| "acl_operation_match KindTwoPhaseCommit requested is_allow = (requested = KindTwoPhaseCommit)"
| "acl_operation_match KindCreateTokens requested is_allow = (requested = KindCreateTokens)"
| "acl_operation_match KindDescribeTokens requested is_allow = (requested = KindDescribeTokens)"

definition acl_decision :: "acl_facts \<Rightarrow> acl_decision_kind" where
  "acl_decision facts =
     (if af_super_user facts then AllowSuperuser
      else if af_saw_deny facts then DenyExplicit
      else if af_saw_allow facts then AllowAcl
      else case af_default_decision facts of DefaultAllow \<Rightarrow> AllowNoAcl | DefaultDeny \<Rightarrow> DenyDefault)"

section \<open>Entries and requests\<close>

datatype pattern_type = Literal | Prefixed

datatype permission_type = Allow | Deny

datatype acl_operation =
    OpAll | OpRead | OpWrite | OpCreate | OpDelete | OpAlter | OpDescribe | OpClusterAction
  | OpDescribeConfigs | OpAlterConfigs | OpIdempotentWrite | OpTwoPhaseCommit
  | OpCreateTokens | OpDescribeTokens

record 'rt acl_entry =
  resource_type :: 'rt
  pattern_type :: pattern_type
  resource_name :: string
  principal :: string
  host :: string
  operation :: acl_operation
  permission_type :: permission_type

record 'rt authorization_request =
  rq_principal :: string
  rq_host :: ip_addr
  rq_resource_type :: 'rt
  rq_resource_name :: string
  rq_operation :: acl_operation

datatype authorization_result = ResultAllow | ResultDeny

section \<open>Whether one entry applies\<close>

definition matches_principal :: "'rt acl_entry \<Rightarrow> string \<Rightarrow> bool" where
  "matches_principal entry user_name =
     (let stored_name = strip_prefix ''User:'' (principal entry) in
      acl_identity_match (stored_name = Some ''*'') (stored_name = Some user_name))"

definition matches_host :: "'rt acl_entry \<Rightarrow> ip_addr \<Rightarrow> bool \<Rightarrow> bool" where
  "matches_host entry peer_ip cidr_supported =
     (let wildcard = host entry = ''*'' in
      if acl_identity_match wildcard (\<not> wildcard \<and> jdk_host_address_is peer_ip (host entry)) then True
      else cidr_supported \<and> CHR ''/'' \<in> set (host entry)
           \<and> (case parse_cidr (host entry) of Inl _ \<Rightarrow> False | Inr cidr \<Rightarrow> cidr_contains cidr peer_ip))"

definition matches_resource :: "'rt acl_entry \<Rightarrow> 'rt \<Rightarrow> string \<Rightarrow> bool" where
  "matches_resource entry rt name =
     acl_resource_match
       (case pattern_type entry of Literal \<Rightarrow> KindLiteral | Prefixed \<Rightarrow> KindPrefixed)
       \<lparr>rf_resource_type = (if resource_type entry = rt then SameType else DifferentType),
        rf_exact_name = (resource_name entry = name),
        rf_wildcard_name = (resource_name entry = ''*''),
        rf_name_has_prefix = prefix (resource_name entry) name\<rparr>"

fun operation_kind :: "acl_operation \<Rightarrow> acl_operation_kind" where
  "operation_kind OpAll = KindAll"
| "operation_kind OpRead = KindRead"
| "operation_kind OpWrite = KindWrite"
| "operation_kind OpCreate = KindCreate"
| "operation_kind OpDelete = KindDelete"
| "operation_kind OpAlter = KindAlter"
| "operation_kind OpDescribe = KindDescribe"
| "operation_kind OpClusterAction = KindClusterAction"
| "operation_kind OpDescribeConfigs = KindDescribeConfigs"
| "operation_kind OpAlterConfigs = KindAlterConfigs"
| "operation_kind OpIdempotentWrite = KindIdempotentWrite"
| "operation_kind OpTwoPhaseCommit = KindTwoPhaseCommit"
| "operation_kind OpCreateTokens = KindCreateTokens"
| "operation_kind OpDescribeTokens = KindDescribeTokens"

definition matches_operation :: "acl_operation \<Rightarrow> acl_operation \<Rightarrow> permission_type \<Rightarrow> bool" where
  "matches_operation stored requested permission =
     acl_operation_match (operation_kind stored) (operation_kind requested) (permission = Allow)"

section \<open>Entry sources\<close>

record 'rt acl_source =
  matching_acls :: "'rt \<Rightarrow> string \<Rightarrow> 'rt acl_entry list"
  acls_of_type :: "'rt \<Rightarrow> 'rt acl_entry list"
  cidr_hosts_supported :: bool

text \<open>
  The metadata image of the broker belongs to another crate: its lookups and its
  finalized level are arguments, and so is the level from which ranges are read.
\<close>

definition metadata_image_source ::
    "('rt \<Rightarrow> string \<Rightarrow> 'rt acl_entry list) \<Rightarrow> 'rt acl_entry list \<Rightarrow> int option \<Rightarrow> int \<Rightarrow> 'rt acl_source" where
  "metadata_image_source image_matching all_acls finalized_metadata_version cidr_acl_min_level =
     \<lparr>matching_acls = image_matching,
      acls_of_type = (\<lambda>rt. filter (\<lambda>e. resource_type e = rt) all_acls),
      cidr_hosts_supported =
        (case finalized_metadata_version of None \<Rightarrow> False | Some level \<Rightarrow> level \<ge> cidr_acl_min_level)\<rparr>"

lemma matches_resource_iff:
  "matches_resource e rt name \<longleftrightarrow> resource_type e = rt
   \<and> (case pattern_type e of
        Literal \<Rightarrow> resource_name e = name \<or> resource_name e = ''*''
      | Prefixed \<Rightarrow> prefix (resource_name e) name)"
  by (cases "pattern_type e") (auto simp: matches_resource_def acl_resource_match_def)

end
