(* ===== verification/Acl_Cache.thy ===== *)
theory Acl_Cache
  imports Acl_Matching "HOL-Library.AList" "HOL-Library.Multiset"
begin

text \<open>
  The gateway's snapshot of the stored entries (\<open>authz/src/cache.rs\<close>): the index
  it builds once, the two lookups that read it, and the proof that a lookup returns
  exactly the entries of the snapshot that apply, each as often as it is stored. The
  hash maps are association lists, because the code reads them by key only, apart from
  the key lengths, which it sorts.
\<close>

section \<open>The index and its lookups\<close>

record type_index =
  ti_all :: "nat list"
  ti_literal :: "(string \<times> nat list) list"
  ti_prefixed :: "(string \<times> nat list) list"
  ti_prefix_lens :: "nat list"

record 'rt acl_cache =
  cache_entries :: "'rt acl_entry list"
  by_type :: "('rt \<times> type_index) list"
  cache_cidr_hosts_supported :: bool

definition empty_type_index :: type_index where
  "empty_type_index = \<lparr>ti_all = [], ti_literal = [], ti_prefixed = [], ti_prefix_lens = []\<rparr>"

definition positions_at :: "(string \<times> nat list) list \<Rightarrow> string \<Rightarrow> nat list" where
  "positions_at names name = (case map_of names name of None \<Rightarrow> [] | Some positions \<Rightarrow> positions)"

definition push_position :: "string \<Rightarrow> nat \<Rightarrow> (string \<times> nat list) list \<Rightarrow> (string \<times> nat list) list" where
  "push_position name position names = AList.update name (positions_at names name @ [position]) names"

definition index_entry :: "('rt \<times> type_index) list \<Rightarrow> nat \<times> 'rt acl_entry \<Rightarrow> ('rt \<times> type_index) list" where
  "index_entry types =
     (\<lambda>(position, entry).
        let index = (case map_of types (resource_type entry) of None \<Rightarrow> empty_type_index | Some i \<Rightarrow> i);
            index = index\<lparr>ti_all := ti_all index @ [position]\<rparr>;
            index = (case pattern_type entry of
              Literal \<Rightarrow> index\<lparr>ti_literal := push_position (resource_name entry) position (ti_literal index)\<rparr>
            | Prefixed \<Rightarrow> index\<lparr>ti_prefixed := push_position (resource_name entry) position (ti_prefixed index)\<rparr>)
        in AList.update (resource_type entry) index types)"

definition with_prefix_lens :: "type_index \<Rightarrow> type_index" where
  "with_prefix_lens index = index\<lparr>ti_prefix_lens := remdups_adj (sort (map (length \<circ> fst) (ti_prefixed index)))\<rparr>"

definition acl_cache_new :: "'rt acl_entry list \<Rightarrow> 'rt acl_cache" where
  "acl_cache_new entries =
     \<lparr>cache_entries = entries,
      by_type = map (\<lambda>(rt, index). (rt, with_prefix_lens index)) (foldl index_entry [] (enumerate 0 entries)),
      cache_cidr_hosts_supported = False\<rparr>"

definition with_cidr_hosts_supported :: "bool \<Rightarrow> 'rt acl_cache \<Rightarrow> 'rt acl_cache" where
  "with_cidr_hosts_supported supported cache = cache\<lparr>cache_cidr_hosts_supported := supported\<rparr>"

text \<open>Slicing a string at a byte length fails off a character boundary.\<close>

definition utf8_continuation :: "char \<Rightarrow> bool" where
  "utf8_continuation c = (of_char c div 64 = (2 :: nat))"

definition is_char_boundary :: "string \<Rightarrow> nat \<Rightarrow> bool" where
  "is_char_boundary s n = (n = 0 \<or> n = length s \<or> n < length s \<and> \<not> utf8_continuation (s ! n))"

definition str_get_to :: "string \<Rightarrow> nat \<Rightarrow> string option" where
  "str_get_to s n = (if is_char_boundary s n then Some (take n s) else None)"

definition type_index_prefixed :: "type_index \<Rightarrow> string \<Rightarrow> nat list" where
  "type_index_prefixed index name =
     concat (map (positions_at (ti_prefixed index))
       (List.map_filter (str_get_to name) (takeWhile (\<lambda>len. len \<le> length name) (ti_prefix_lens index))))"

definition cache_positions :: "'rt acl_cache \<Rightarrow> nat list \<Rightarrow> 'rt acl_entry list" where
  "cache_positions cache =
     List.map_filter (\<lambda>position.
       if position < length (cache_entries cache) then Some (cache_entries cache ! position) else None)"

definition cache_matching_acls :: "'rt acl_cache \<Rightarrow> 'rt \<Rightarrow> string \<Rightarrow> 'rt acl_entry list" where
  "cache_matching_acls cache rt name =
     (case map_of (by_type cache) rt of
        None \<Rightarrow> []
      | Some index \<Rightarrow>
          cache_positions cache
            (positions_at (ti_literal index) name
             @ (if name \<noteq> ''*'' then positions_at (ti_literal index) ''*'' else [])
             @ type_index_prefixed index name))"

definition cache_acls_of_type :: "'rt acl_cache \<Rightarrow> 'rt \<Rightarrow> 'rt acl_entry list" where
  "cache_acls_of_type cache rt =
     cache_positions cache (case map_of (by_type cache) rt of None \<Rightarrow> [] | Some index \<Rightarrow> ti_all index)"

definition acl_cache_source :: "'rt acl_cache \<Rightarrow> 'rt acl_source" where
  "acl_cache_source cache =
     \<lparr>matching_acls = cache_matching_acls cache,
      acls_of_type = cache_acls_of_type cache,
      cidr_hosts_supported = cache_cidr_hosts_supported cache\<rparr>"

section \<open>Valid strings are cut at character boundaries\<close>

text \<open>
  What every Rust string guarantees: a lead byte followed by as many continuation
  bytes as it announces.
\<close>

definition utf8_tail_length :: "char \<Rightarrow> nat option" where
  "utf8_tail_length c =
     (let b = of_char c :: nat in
      if b < 128 then Some 0
      else if 192 \<le> b \<and> b < 224 then Some 1
      else if 224 \<le> b \<and> b < 240 then Some 2
      else if 240 \<le> b \<and> b < 248 then Some 3
      else None)"

function utf8 :: "string \<Rightarrow> bool" where
  "utf8 [] = True"
| "utf8 (c # cs) =
     (case utf8_tail_length c of
        None \<Rightarrow> False
      | Some n \<Rightarrow> n \<le> length cs \<and> list_all utf8_continuation (take n cs) \<and> utf8 (drop n cs))"
  by pat_completeness auto
termination by (relation "measure length") auto

lemma utf8_prefix_rest: "utf8 p \<Longrightarrow> utf8 (p @ rest) \<Longrightarrow> utf8 rest"
proof (induction p rule: utf8.induct)
  case (2 c cs)
  then obtain n where n: "utf8_tail_length c = Some n" "n \<le> length cs" by (auto split: option.splits)
  then show ?case using 2 by simp
qed simp

lemma lead_byte_not_continuation: "utf8_tail_length c = Some n \<Longrightarrow> \<not> utf8_continuation c"
  by (auto simp: utf8_tail_length_def utf8_continuation_def Let_def split: if_splits)

lemma utf8_boundary:
  assumes "utf8 p" "utf8 name" "prefix p name"
  shows "str_get_to name (length p) = Some p"
proof -
  obtain rest where name: "name = p @ rest" using assms(3) by (auto elim: prefixE)
  then have "utf8 rest" using assms utf8_prefix_rest by blast
  then have "rest = [] \<or> \<not> utf8_continuation (hd rest)"
    by (cases rest) (auto split: option.splits dest: lead_byte_not_continuation)
  then show ?thesis by (cases rest) (auto simp: name str_get_to_def is_char_boundary_def nth_append)
qed

lemma str_get_to_prefix: "str_get_to name n = Some p \<Longrightarrow> p = take n name \<and> prefix p name"
  by (auto simp: str_get_to_def take_is_prefix split: if_splits)

section \<open>The cache index\<close>

text \<open>The index of one type, with the empty index for a type that has no entry.\<close>

definition index_of :: "('rt \<times> type_index) list \<Rightarrow> 'rt \<Rightarrow> type_index" where
  "index_of types rt = (case map_of types rt of None \<Rightarrow> empty_type_index | Some i \<Rightarrow> i)"

definition typed_positions :: "('rt acl_entry \<Rightarrow> bool) \<Rightarrow> (nat \<times> 'rt acl_entry) list \<Rightarrow> nat list" where
  "typed_positions P ps = map fst (filter (\<lambda>(_, e). P e) ps)"

lemma typed_positions_simps [simp]:
  "typed_positions P [] = []"
  "typed_positions P (ps @ [(i, e)]) = typed_positions P ps @ (if P e then [i] else [])"
  by (simp_all add: typed_positions_def)

lemma positions_at_push [simp]:
  "positions_at (push_position name i names) other
   = positions_at names other @ (if other = name then [i] else [])"
  by (simp add: positions_at_def push_position_def update_conv')

lemma positions_at_Nil [simp]: "positions_at [] name = []"
  by (simp add: positions_at_def)

lemma index_of_index_entry:
  "index_of (index_entry types (i, e)) rt =
     (if resource_type e \<noteq> rt then index_of types rt
      else let index = index_of types rt in
        index\<lparr>ti_all := ti_all index @ [i],
              ti_literal := (if pattern_type e = Literal then push_position (resource_name e) i (ti_literal index) else ti_literal index),
              ti_prefixed := (if pattern_type e = Prefixed then push_position (resource_name e) i (ti_prefixed index) else ti_prefixed index)\<rparr>)"
  by (cases "pattern_type e") (auto simp: index_of_def index_entry_def Let_def update_conv' split: option.splits)

lemma index_of_fold:
  fixes ps :: "(nat \<times> 'rt acl_entry) list"
  shows
  "ti_all (index_of (foldl index_entry [] ps) rt) = typed_positions (\<lambda>e. resource_type e = rt) ps"
  "positions_at (ti_literal (index_of (foldl index_entry [] ps) rt)) name
   = typed_positions (\<lambda>e. resource_type e = rt \<and> pattern_type e = Literal \<and> resource_name e = name) ps"
  "positions_at (ti_prefixed (index_of (foldl index_entry [] ps) rt)) name
   = typed_positions (\<lambda>e. resource_type e = rt \<and> pattern_type e = Prefixed \<and> resource_name e = name) ps"
proof (induction ps rule: rev_induct)
  case (snoc p ps)
  obtain i e where p: "p = (i, e)" by (cases p)
  {
    case 1
    show ?case using snoc.IH(1) by (simp add: p index_of_index_entry Let_def)
  next
    case 2
    show ?case using snoc.IH(2) by (auto simp: p index_of_index_entry Let_def)
  next
    case 3
    show ?case using snoc.IH(3) by (auto simp: p index_of_index_entry Let_def)
  }
qed (simp_all add: index_of_def empty_type_index_def)

lemma index_of_finished:
  "index_of (map (\<lambda>(rt, index). (rt, with_prefix_lens index)) types) rt = with_prefix_lens (index_of types rt)"
proof -
  have "map_of (map (\<lambda>(rt, index). (rt, with_prefix_lens index)) types) rt = map_option with_prefix_lens (map_of types rt)"
    by (induction types) auto
  then show ?thesis
    by (cases "map_of types rt") (simp_all add: index_of_def with_prefix_lens_def empty_type_index_def)
qed

lemma distinct_typed_positions: "distinct (map fst ps) \<Longrightarrow> distinct (typed_positions P ps)"
  by (auto simp: typed_positions_def distinct_map inj_on_def)

lemma set_typed_positions: "i \<in> set (typed_positions P (enumerate 0 es)) \<longleftrightarrow> i < length es \<and> P (es ! i)"
  by (force simp: typed_positions_def in_set_enumerate_eq image_iff)

lemma takeWhile_sorted_filter: "sorted xs \<Longrightarrow> takeWhile (\<lambda>x. x \<le> n) xs = filter (\<lambda>x. x \<le> (n :: nat)) xs"
proof (induction xs)
  case (Cons x xs)
  then show ?case by (auto intro!: filter_False[symmetric])
qed simp

lemma distinct_sorted_dedup: "sorted xs \<Longrightarrow> distinct (remdups_adj xs)"
proof (induction xs rule: remdups_adj.induct)
  case (3 x y xs)
  then show ?case by (fastforce simp: remdups_adj_set)
qed simp_all

lemma set_map_filter: "y \<in> set (List.map_filter f xs) \<longleftrightarrow> (\<exists>x \<in> set xs. f x = Some y)"
  by (force simp: map_filter_def)

text \<open>The prefix lengths reach exactly the stored prefixes of the name, each once.\<close>

lemma type_index_prefixed_reaches:
  assumes index: "index = with_prefix_lens raw"
    and stored: "\<And>k. positions_at (ti_prefixed raw) k \<noteq> [] \<Longrightarrow> utf8 k"
    and name: "utf8 name"
  shows "i \<in> set (type_index_prefixed index name) \<longleftrightarrow> (\<exists>k. prefix k name \<and> i \<in> set (positions_at (ti_prefixed raw) k))"
    (is "?L \<longleftrightarrow> ?R")
proof
  assume ?L
  then show ?R
    by (auto simp: type_index_prefixed_def index with_prefix_lens_def set_map_filter dest!: str_get_to_prefix)
next
  assume ?R
  then obtain k where k: "prefix k name" "i \<in> set (positions_at (ti_prefixed raw) k)" by blast
  then have "positions_at (ti_prefixed raw) k \<noteq> []" by auto
  then have "utf8 k" by (rule stored)
  then have cut: "str_get_to name (length k) = Some k" using utf8_boundary k(1) name by blast
  have "map_of (ti_prefixed raw) k \<noteq> None" using k(2) by (cases "map_of (ti_prefixed raw) k") (simp_all add: positions_at_def)
  then have "k \<in> fst ` set (ti_prefixed raw)" by (simp add: map_of_eq_None_iff)
  then have "length k \<in> set (ti_prefix_lens index)" by (force simp: index with_prefix_lens_def)
  moreover have "length k \<le> length name" using k(1) by (rule prefix_length_le)
  ultimately have "length k \<in> set (takeWhile (\<lambda>len. len \<le> length name) (ti_prefix_lens index))"
    by (simp add: index with_prefix_lens_def takeWhile_sorted_filter sorted_remdups_adj)
  then show ?L
    using cut k(2) by (force simp: type_index_prefixed_def set_map_filter index with_prefix_lens_def)
qed

lemma distinct_type_index_prefixed:
  assumes index: "index = with_prefix_lens raw"
    and one: "\<And>k. distinct (positions_at (ti_prefixed raw) k)"
    and apart: "\<And>k k'. k \<noteq> k' \<Longrightarrow> set (positions_at (ti_prefixed raw) k) \<inter> set (positions_at (ti_prefixed raw) k') = {}"
  shows "distinct (type_index_prefixed index name)"
proof -
  define lens where "lens = takeWhile (\<lambda>len. len \<le> length name) (ti_prefix_lens index)"
  have "distinct lens"
    by (simp add: lens_def index with_prefix_lens_def distinct_takeWhile distinct_sorted_dedup)
  moreover have "\<forall>len \<in> set lens. len \<le> length name" by (auto simp: lens_def dest: set_takeWhileD)
  ultimately have "distinct (concat (map (positions_at (ti_prefixed raw)) (List.map_filter (str_get_to name) lens)))"
  proof (induction lens)
    case (Cons len lens)
    show ?case
    proof (cases "str_get_to name len")
      case None
      then show ?thesis using Cons by (simp add: map_filter_simps)
    next
      case (Some k)
      have "\<forall>k' \<in> set (List.map_filter (str_get_to name) lens). k' \<noteq> k"
      proof
        fix k' assume "k' \<in> set (List.map_filter (str_get_to name) lens)"
        then obtain len' where "len' \<in> set lens" "str_get_to name len' = Some k'" by (auto simp: set_map_filter)
        then have "length k' = len'" "len' \<noteq> len" using Cons.prems by (auto dest!: str_get_to_prefix)
        moreover have "length k = len" using Some Cons.prems by (auto dest!: str_get_to_prefix)
        ultimately show "k' \<noteq> k" by auto
      qed
      then show ?thesis using Cons one[of k] apart[of k] Some by (fastforce simp: map_filter_simps)
    qed
  qed (simp add: map_filter_simps)
  then show ?thesis by (simp add: type_index_prefixed_def lens_def index with_prefix_lens_def)
qed

section \<open>What the cache finds\<close>

lemma cache_lookup_unfold:
  "cache_matching_acls cache rt name
   = cache_positions cache
       (positions_at (ti_literal (index_of (by_type cache) rt)) name
        @ (if name \<noteq> ''*'' then positions_at (ti_literal (index_of (by_type cache) rt)) ''*'' else [])
        @ type_index_prefixed (index_of (by_type cache) rt) name)"
  "cache_acls_of_type cache rt = cache_positions cache (ti_all (index_of (by_type cache) rt))"
  by (simp_all add: cache_matching_acls_def cache_acls_of_type_def index_of_def empty_type_index_def
      type_index_prefixed_def positions_at_def cache_positions_def map_filter_simps split: option.splits)

lemma mset_cache_positions:
  assumes "distinct is" "\<And>i. i \<in> set is \<longleftrightarrow> i < length (cache_entries cache) \<and> P (cache_entries cache ! i)"
  shows "mset (cache_positions cache is) = filter_mset P (mset (cache_entries cache))"
proof -
  let ?es = "cache_entries cache"
  have "cache_positions cache is = map (\<lambda>i. ?es ! i) is"
    using assms(2) by (auto simp: cache_positions_def map_filter_def filter_id_conv)
  moreover have "mset is = mset (filter (\<lambda>i. P (?es ! i)) [0..<length ?es])"
    using assms by (subst set_eq_iff_mset_eq_distinct[symmetric]) auto
  moreover have "filter P ?es = map (\<lambda>i. ?es ! i) (filter (\<lambda>i. P (?es ! i)) [0..<length ?es])"
    using filter_map[of P "\<lambda>i. ?es ! i" "[0..<length ?es]"] by (simp add: map_nth o_def)
  ultimately show ?thesis by (metis mset_filter mset_map)
qed

lemma cache_new_facts [simp]:
  "cache_entries (acl_cache_new es) = es"
  "cache_cidr_hosts_supported (acl_cache_new es) = False"
  "index_of (by_type (acl_cache_new es)) rt = with_prefix_lens (index_of (foldl index_entry [] (enumerate 0 es)) rt)"
  by (simp_all add: acl_cache_new_def index_of_finished)

lemma with_prefix_lens_keeps [simp]:
  "ti_all (with_prefix_lens index) = ti_all index"
  "ti_literal (with_prefix_lens index) = ti_literal index"
  "ti_prefixed (with_prefix_lens index) = ti_prefixed index"
  by (simp_all add: with_prefix_lens_def)

lemma distinct_enumerate_positions [simp]: "distinct (typed_positions P (enumerate 0 es))"
  by (rule distinct_typed_positions) simp

lemma cache_matching_mset:
  assumes "\<forall>e \<in> set es. utf8 (resource_name e)" "utf8 name"
  shows "mset (cache_matching_acls (acl_cache_new es) rt name) = filter_mset (\<lambda>e. matches_resource e rt name) (mset es)"
proof -
  define raw where "raw = index_of (foldl index_entry [] (enumerate 0 es)) rt"
  note at = index_of_fold[where ps = "enumerate 0 es" and rt = rt, folded raw_def]
  define literal where "literal = positions_at (ti_literal raw) name"
  define wildcard where "wildcard = (if name \<noteq> ''*'' then positions_at (ti_literal raw) ''*'' else [])"
  define prefixed where "prefixed = type_index_prefixed (with_prefix_lens raw) name"
  have stored: "utf8 k" if "positions_at (ti_prefixed raw) k \<noteq> []" for k
  proof -
    have "hd (positions_at (ti_prefixed raw) k) \<in> set (positions_at (ti_prefixed raw) k)"
      using that by (rule hd_in_set)
    then obtain i where "i \<in> set (positions_at (ti_prefixed raw) k)" by blast
    then show ?thesis using assms(1) by (auto simp: at set_typed_positions)
  qed
  have in_literal: "i \<in> set literal \<longleftrightarrow> i < length es \<and> resource_type (es ! i) = rt \<and> pattern_type (es ! i) = Literal \<and> resource_name (es ! i) = name" for i
    by (simp add: literal_def at set_typed_positions)
  have in_wildcard: "i \<in> set wildcard \<longleftrightarrow> name \<noteq> ''*'' \<and> i < length es \<and> resource_type (es ! i) = rt \<and> pattern_type (es ! i) = Literal \<and> resource_name (es ! i) = ''*''" for i
    by (simp add: wildcard_def at set_typed_positions)
  have in_prefixed: "i \<in> set prefixed \<longleftrightarrow> i < length es \<and> resource_type (es ! i) = rt \<and> pattern_type (es ! i) = Prefixed \<and> prefix (resource_name (es ! i)) name" for i
    using type_index_prefixed_reaches[OF refl stored assms(2), of raw i]
    by (simp add: prefixed_def at set_typed_positions) blast
  have "distinct prefixed"
    unfolding prefixed_def
    by (rule distinct_type_index_prefixed[OF refl]) (auto simp: at set_typed_positions)
  moreover have "distinct literal" "distinct wildcard" by (simp_all add: literal_def wildcard_def at)
  ultimately have "distinct (literal @ wildcard @ prefixed)" by (auto simp: in_literal in_wildcard in_prefixed)
  moreover have "i \<in> set (literal @ wildcard @ prefixed)
      \<longleftrightarrow> i < length (cache_entries (acl_cache_new es)) \<and> matches_resource (cache_entries (acl_cache_new es) ! i) rt name" for i
    by (cases "pattern_type (es ! i)") (auto simp: in_literal in_wildcard in_prefixed matches_resource_iff)
  ultimately have "mset (cache_positions (acl_cache_new es) (literal @ wildcard @ prefixed))
      = filter_mset (\<lambda>e. matches_resource e rt name) (mset (cache_entries (acl_cache_new es)))"
    by (rule mset_cache_positions)
  moreover have "cache_matching_acls (acl_cache_new es) rt name = cache_positions (acl_cache_new es) (literal @ wildcard @ prefixed)"
    by (simp add: cache_lookup_unfold literal_def wildcard_def prefixed_def raw_def)
  ultimately show ?thesis by simp
qed

lemma cache_of_type_mset:
  "mset (cache_acls_of_type (acl_cache_new es) rt) = filter_mset (\<lambda>e. resource_type e = rt) (mset es)"
  using mset_cache_positions[of "ti_all (index_of (foldl index_entry [] (enumerate 0 es)) rt)" "acl_cache_new es"
      "\<lambda>e. resource_type e = rt"]
  by (simp add: cache_lookup_unfold index_of_fold set_typed_positions)

section \<open>Properties\<close>

text \<open>
  C36: the indexed lookups of a snapshot return exactly the stored entries that apply to
  the resource, each exactly as often as it is stored: the wildcard bucket, the literal
  bucket and the probed prefix lengths neither miss an entry nor repeat one. Stored and
  requested names are valid UTF-8, as Rust strings are.
\<close>

theorem cache_lookup_exact:
  assumes "\<forall>e \<in> set es. utf8 (resource_name e)" "utf8 name"
  shows "mset (cache_matching_acls (acl_cache_new es) rt name) = filter_mset (\<lambda>e. matches_resource e rt name) (mset es)
    \<and> mset (cache_acls_of_type (acl_cache_new es) rt) = filter_mset (\<lambda>e. resource_type e = rt) (mset es)"
  by (rule conjI[OF cache_matching_mset[OF assms] cache_of_type_mset])

definition sample_acl :: "pattern_type \<Rightarrow> string \<Rightarrow> permission_type \<Rightarrow> nat acl_entry" where
  "sample_acl pattern name permission =
     \<lparr>resource_type = 2, pattern_type = pattern, resource_name = name, principal = ''User:*'',
      host = ''*'', operation = OpRead, permission_type = permission\<rparr>"

theorem cache_lookup_exact_witness:
  "mset (cache_matching_acls (acl_cache_new [sample_acl Literal ''*'' Allow, sample_acl Prefixed ''te'' Deny,
       sample_acl Literal ''other'' Deny]) 2 ''team'')
   = {#sample_acl Literal ''*'' Allow, sample_acl Prefixed ''te'' Deny#}"
proof -
  let ?es = "[sample_acl Literal ''*'' Allow, sample_acl Prefixed ''te'' Deny, sample_acl Literal ''other'' Deny]"
  have valid: "\<forall>e \<in> set ?es. utf8 (resource_name e)" "utf8 ''team''" by code_simp+
  show ?thesis
    using cache_lookup_exact[OF valid, of 2]
    by (simp add: sample_acl_def matches_resource_iff)
qed

end
