(* ===== verification/Acl_Authorizer.thy ===== *)
theory Acl_Authorizer
  imports Acl_Cache
begin

text \<open>
  The access-control evaluator the broker and the gateway share
  (\<open>authz/src/simple.rs\<close>, \<open>simple/coverage.rs\<close> and the batch check of
  \<open>lib.rs\<close>). The contract of an entry source is a locale; the decisions are
  characterised once inside it, and the snapshot of \<open>Acl_Cache\<close> fulfils it.
\<close>

section \<open>The authorizer\<close>

record simple_acl_authorizer =
  super_users :: "string set"
  allow_everyone_if_no_acl_found :: bool

definition simple_acl_authorizer_new :: "string set \<Rightarrow> simple_acl_authorizer" where
  "simple_acl_authorizer_new users = \<lparr>super_users = users, allow_everyone_if_no_acl_found = False\<rparr>"

definition with_allow_everyone_if_no_acl_found ::
    "bool \<Rightarrow> simple_acl_authorizer \<Rightarrow> simple_acl_authorizer" where
  "with_allow_everyone_if_no_acl_found allow au = au\<lparr>allow_everyone_if_no_acl_found := allow\<rparr>"

record acl_scan =
  saw_allow :: bool
  saw_deny :: bool
  has_resource_acls :: bool

text \<open>The loop over the entries: it stops at the first entry that denies.\<close>

fun authorize_scan ::
    "bool \<Rightarrow> 'rt authorization_request \<Rightarrow> 'rt acl_entry list \<Rightarrow> acl_scan \<Rightarrow> acl_scan" where
  "authorize_scan cidr req [] scan = scan"
| "authorize_scan cidr req (entry # entries) scan =
     (if \<not> matches_resource entry (rq_resource_type req) (rq_resource_name req)
      then authorize_scan cidr req entries scan
      else
        let scan = scan\<lparr>has_resource_acls := True\<rparr> in
        if \<not> matches_principal entry (rq_principal req)
           \<or> \<not> matches_host entry (rq_host req) cidr
           \<or> \<not> matches_operation (operation entry) (rq_operation req) (permission_type entry)
        then authorize_scan cidr req entries scan
        else case permission_type entry of
               Allow \<Rightarrow> authorize_scan cidr req entries (scan\<lparr>saw_allow := True\<rparr>)
             | Deny \<Rightarrow> scan\<lparr>saw_deny := True\<rparr>)"

definition authorize :: "simple_acl_authorizer \<Rightarrow> 'rt acl_source \<Rightarrow> 'rt authorization_request \<Rightarrow> authorization_result" where
  "authorize au source req =
     (let super_user = rq_principal req \<in> super_users au;
          start = \<lparr>saw_allow = False, saw_deny = False, has_resource_acls = False\<rparr>;
          scan = (if super_user then start
                  else authorize_scan (cidr_hosts_supported source) req
                         (matching_acls source (rq_resource_type req) (rq_resource_name req)) start);
          default_decision =
            (if allow_everyone_if_no_acl_found au \<and> \<not> has_resource_acls scan then DefaultAllow else DefaultDeny);
          decision = acl_decision
            \<lparr>af_super_user = super_user, af_saw_allow = saw_allow scan,
             af_saw_deny = saw_deny scan, af_default_decision = default_decision\<rparr>
      in case decision of
           AllowSuperuser \<Rightarrow> ResultAllow
         | AllowAcl \<Rightarrow> ResultAllow
         | AllowNoAcl \<Rightarrow> ResultAllow
         | DenyExplicit \<Rightarrow> ResultDeny
         | DenyDefault \<Rightarrow> ResultDeny)"

record denied_names =
  dn_wildcard :: bool
  dn_literals :: "string set"
  dn_prefixes :: "string list"

definition deny_entry :: "denied_names \<Rightarrow> 'rt acl_entry \<Rightarrow> denied_names" where
  "deny_entry names entry =
     (case pattern_type entry of
        Literal \<Rightarrow>
          if resource_name entry = ''*'' then names\<lparr>dn_wildcard := True\<rparr>
          else names\<lparr>dn_literals := insert (resource_name entry) (dn_literals names)\<rparr>
      | Prefixed \<Rightarrow> names\<lparr>dn_prefixes := dn_prefixes names @ [resource_name entry]\<rparr>)"

definition denied_names_new :: "'rt acl_entry list \<Rightarrow> denied_names" where
  "denied_names_new = foldl deny_entry \<lparr>dn_wildcard = False, dn_literals = {}, dn_prefixes = []\<rparr>"

definition allows_prefix :: "denied_names \<Rightarrow> string \<Rightarrow> bool" where
  "allows_prefix names name = (\<not> dn_wildcard names \<and> \<not> (\<exists>denied \<in> set (dn_prefixes names). prefix denied name))"

definition allows_literal :: "denied_names \<Rightarrow> string \<Rightarrow> bool" where
  "allows_literal names name = (name \<notin> dn_literals names \<and> allows_prefix names name)"

definition allows_wildcard :: "denied_names \<Rightarrow> bool" where
  "allows_wildcard names = (\<not> dn_wildcard names)"

definition authorize_by_resource_type ::
    "simple_acl_authorizer \<Rightarrow> 'rt acl_source \<Rightarrow> string \<Rightarrow> ip_addr \<Rightarrow> 'rt \<Rightarrow> acl_operation \<Rightarrow> authorization_result" where
  "authorize_by_resource_type au source user peer rt op =
     (if user \<in> super_users au then ResultAllow
      else if authorize au source
                \<lparr>rq_principal = user, rq_host = peer, rq_resource_type = rt,
                 rq_resource_name = ''hardcode'', rq_operation = op\<rparr> = ResultAllow then ResultAllow
      else
        let applicable = filter (\<lambda>entry.
                matches_principal entry user
                \<and> matches_host entry peer (cidr_hosts_supported source)
                \<and> matches_operation (operation entry) op (permission_type entry)) (acls_of_type source rt);
            denied = denied_names_new (filter (\<lambda>entry. permission_type entry = Deny) applicable)
        in if \<exists>entry \<in> set applicable. permission_type entry = Allow
                \<and> (case pattern_type entry of
                     Literal \<Rightarrow> if resource_name entry = ''*'' then allows_wildcard denied
                                else allows_literal denied (resource_name entry)
                   | Prefixed \<Rightarrow> allows_prefix denied (resource_name entry))
           then ResultAllow else ResultDeny)"

text \<open>
  The trait's batch check takes any authorizer: its two decisions are arguments, and
  the resource type of topics, a value of the other crate, is one too.
\<close>

definition authorize_topics_logged ::
    "('rt authorization_request \<Rightarrow> authorization_result) \<Rightarrow> ('rt authorization_request \<Rightarrow> authorization_result)
     \<Rightarrow> 'rt \<Rightarrow> string \<Rightarrow> ip_addr \<Rightarrow> acl_operation \<Rightarrow> string list \<Rightarrow> bool \<Rightarrow> (string \<rightharpoonup> authorization_result)" where
  "authorize_topics_logged decide decide_quiet topic_type user peer op topic_names log_denied =
     foldl (\<lambda>results name.
       let req = \<lparr>rq_principal = user, rq_host = peer, rq_resource_type = topic_type,
                  rq_resource_name = name, rq_operation = op\<rparr>
       in results(name \<mapsto> (if log_denied then decide req else decide_quiet req))) Map.empty topic_names"

definition authorize_topics ::
    "('rt authorization_request \<Rightarrow> authorization_result) \<Rightarrow> ('rt authorization_request \<Rightarrow> authorization_result)
     \<Rightarrow> 'rt \<Rightarrow> string \<Rightarrow> ip_addr \<Rightarrow> acl_operation \<Rightarrow> string list \<Rightarrow> (string \<rightharpoonup> authorization_result)" where
  "authorize_topics decide decide_quiet topic_type user peer op topic_names =
     authorize_topics_logged decide decide_quiet topic_type user peer op topic_names True"

section \<open>What the scan sees\<close>

text \<open>An entry decides a request when all four of its parts match it.\<close>

definition applies :: "bool \<Rightarrow> 'rt authorization_request \<Rightarrow> 'rt acl_entry \<Rightarrow> bool" where
  "applies cidr req entry \<longleftrightarrow>
     matches_resource entry (rq_resource_type req) (rq_resource_name req)
     \<and> matches_principal entry (rq_principal req)
     \<and> matches_host entry (rq_host req) cidr
     \<and> matches_operation (operation entry) (rq_operation req) (permission_type entry)"

text \<open>The decision the entries of a cluster call for, without regard to how they are found.\<close>

definition acl_allows :: "simple_acl_authorizer \<Rightarrow> bool \<Rightarrow> 'rt acl_entry list \<Rightarrow> 'rt authorization_request \<Rightarrow> bool" where
  "acl_allows au cidr entries req \<longleftrightarrow>
     rq_principal req \<in> super_users au
     \<or> (\<forall>e \<in> set entries. applies cidr req e \<longrightarrow> permission_type e \<noteq> Deny)
       \<and> ((\<exists>e \<in> set entries. applies cidr req e \<and> permission_type e = Allow)
          \<or> allow_everyone_if_no_acl_found au
            \<and> (\<forall>e \<in> set entries. \<not> matches_resource e (rq_resource_type req) (rq_resource_name req)))"

lemma authorize_scan_deny:
  "saw_deny (authorize_scan cidr req entries scan)
   \<longleftrightarrow> saw_deny scan \<or> (\<exists>e \<in> set entries. applies cidr req e \<and> permission_type e = Deny)"
proof (induction entries arbitrary: scan)
  case (Cons e entries)
  show ?case by (cases "permission_type e") (auto simp: Cons.IH applies_def Let_def)
qed simp

lemma authorize_scan_rest:
  assumes "\<forall>e \<in> set entries. applies cidr req e \<longrightarrow> permission_type e \<noteq> Deny"
  shows "saw_allow (authorize_scan cidr req entries scan)
     \<longleftrightarrow> saw_allow scan \<or> (\<exists>e \<in> set entries. applies cidr req e \<and> permission_type e = Allow)"
    and "has_resource_acls (authorize_scan cidr req entries scan)
     \<longleftrightarrow> has_resource_acls scan \<or> (\<exists>e \<in> set entries. matches_resource e (rq_resource_type req) (rq_resource_name req))"
  using assms
proof (induction entries arbitrary: scan)
  case (Cons e entries)
  {
    case 1
    then show ?case by (cases "permission_type e") (auto simp: Cons.IH applies_def Let_def)
  next
    case 2
    then show ?case by (cases "permission_type e") (auto simp: Cons.IH applies_def Let_def)
  }
qed simp_all

lemma authorize_over_source:
  "authorize au source req = ResultAllow
   \<longleftrightarrow> acl_allows au (cidr_hosts_supported source)
         (matching_acls source (rq_resource_type req) (rq_resource_name req)) req"
proof (cases "\<forall>e \<in> set (matching_acls source (rq_resource_type req) (rq_resource_name req)).
    applies (cidr_hosts_supported source) req e \<longrightarrow> permission_type e \<noteq> Deny")
  case True
  then show ?thesis
    using authorize_scan_rest[OF True] authorize_scan_deny[of "cidr_hosts_supported source" req]
    by (auto simp: authorize_def acl_allows_def acl_decision_def Let_def)
next
  case False
  then show ?thesis
    using authorize_scan_deny[of "cidr_hosts_supported source" req]
    by (auto simp: authorize_def acl_allows_def acl_decision_def Let_def)
qed

lemma acl_allows_matching:
  assumes "\<And>e. matches_resource e (rq_resource_type req) (rq_resource_name req) \<Longrightarrow> e \<in> set es \<longleftrightarrow> e \<in> set es'"
  shows "acl_allows au cidr es req \<longleftrightarrow> acl_allows au cidr es' req"
  using assms unfolding acl_allows_def applies_def by blast

lemma denied_names_new_facts:
  "dn_wildcard (denied_names_new es) \<longleftrightarrow> (\<exists>e \<in> set es. pattern_type e = Literal \<and> resource_name e = ''*'')"
  "name \<in> dn_literals (denied_names_new es)
   \<longleftrightarrow> name \<noteq> ''*'' \<and> (\<exists>e \<in> set es. pattern_type e = Literal \<and> resource_name e = name)"
  "name \<in> set (dn_prefixes (denied_names_new es)) \<longleftrightarrow> (\<exists>e \<in> set es. pattern_type e = Prefixed \<and> resource_name e = name)"
proof (induction es rule: rev_induct)
  case (snoc e es)
  {
    case 1
    show ?case using snoc.IH(1) by (cases "pattern_type e") (auto simp: denied_names_new_def deny_entry_def)
  next
    case 2
    show ?case using snoc.IH(2) by (cases "pattern_type e") (auto simp: denied_names_new_def deny_entry_def)
  next
    case 3
    show ?case using snoc.IH(3) by (cases "pattern_type e") (auto simp: denied_names_new_def deny_entry_def)
  }
qed (simp_all add: denied_names_new_def)

text \<open>The entries of a type that concern a caller, and a DENY that dominates a grant.\<close>

definition concerns :: "bool \<Rightarrow> string \<Rightarrow> ip_addr \<Rightarrow> 'rt \<Rightarrow> acl_operation \<Rightarrow> 'rt acl_entry \<Rightarrow> bool" where
  "concerns cidr user peer rt op e \<longleftrightarrow>
     resource_type e = rt \<and> matches_principal e user \<and> matches_host e peer cidr
     \<and> matches_operation (operation e) op (permission_type e)"

definition dominates :: "'rt acl_entry \<Rightarrow> 'rt acl_entry \<Rightarrow> bool" where
  "dominates d e \<longleftrightarrow>
     (case pattern_type d of
        Literal \<Rightarrow> resource_name d = ''*'' \<or> pattern_type e = Literal \<and> resource_name d = resource_name e
      | Prefixed \<Rightarrow> \<not> (pattern_type e = Literal \<and> resource_name e = ''*'') \<and> prefix (resource_name d) (resource_name e))"

lemma denied_prefixes:
  "(\<exists>p \<in> set (dn_prefixes (denied_names_new ds)). prefix p name)
   \<longleftrightarrow> (\<exists>d \<in> set ds. pattern_type d = Prefixed \<and> prefix (resource_name d) name)"
  unfolding Bex_def denied_names_new_facts(3) by auto

lemma dominated_by_denied:
  "(case pattern_type e of
      Literal \<Rightarrow> if resource_name e = ''*'' then allows_wildcard (denied_names_new ds)
                 else allows_literal (denied_names_new ds) (resource_name e)
    | Prefixed \<Rightarrow> allows_prefix (denied_names_new ds) (resource_name e))
   \<longleftrightarrow> (\<forall>d \<in> set ds. \<not> dominates d e)"
  by (cases "pattern_type e")
    (auto simp: allows_wildcard_def allows_literal_def allows_prefix_def denied_prefixes denied_names_new_facts(1,2) dominates_def
      split: pattern_type.splits)

section \<open>The contract of an entry source\<close>

locale acl_source_contract =
  fixes source_of :: "'rt acl_entry list \<Rightarrow> 'rt acl_source" and cidr :: bool
  assumes matching_exact:
      "\<lbrakk>\<forall>e \<in> set es. utf8 (resource_name e); utf8 name; matches_resource e rt name\<rbrakk>
       \<Longrightarrow> e \<in> set (matching_acls (source_of es) rt name) \<longleftrightarrow> e \<in> set es"
    and of_type_exact: "set (acls_of_type (source_of es) rt) = {e \<in> set es. resource_type e = rt}"
    and cidr_flag: "cidr_hosts_supported (source_of es) = cidr"
begin

lemma authorize_exact:
  assumes "\<forall>e \<in> set es. utf8 (resource_name e)" "utf8 (rq_resource_name req)"
  shows "authorize au (source_of es) req = ResultAllow \<longleftrightarrow> acl_allows au cidr es req"
  unfolding authorize_over_source cidr_flag by (rule acl_allows_matching) (rule matching_exact[OF assms])

lemma by_type_exact:
  assumes "user \<notin> super_users au"
  shows "authorize_by_resource_type au (source_of es) user peer rt op = ResultAllow
    \<longleftrightarrow> authorize au (source_of es) \<lparr>rq_principal = user, rq_host = peer, rq_resource_type = rt,
          rq_resource_name = ''hardcode'', rq_operation = op\<rparr> = ResultAllow
      \<or> (\<exists>e \<in> set es. concerns cidr user peer rt op e \<and> permission_type e = Allow
          \<and> (\<forall>d \<in> set es. concerns cidr user peer rt op d \<and> permission_type d = Deny \<longrightarrow> \<not> dominates d e))"
proof -
  define found where "found = filter (\<lambda>entry. matches_principal entry user
      \<and> matches_host entry peer (cidr_hosts_supported (source_of es))
      \<and> matches_operation (operation entry) op (permission_type entry)) (acls_of_type (source_of es) rt)"
  define denied where "denied = denied_names_new (filter (\<lambda>entry. permission_type entry = Deny) found)"
  have in_found: "e \<in> set found \<longleftrightarrow> e \<in> set es \<and> concerns cidr user peer rt op e" for e
    by (auto simp: found_def of_type_exact cidr_flag concerns_def)
  have survives: "(case pattern_type e of
        Literal \<Rightarrow> if resource_name e = ''*'' then allows_wildcard denied else allows_literal denied (resource_name e)
      | Prefixed \<Rightarrow> allows_prefix denied (resource_name e))
    \<longleftrightarrow> (\<forall>d \<in> set es. concerns cidr user peer rt op d \<and> permission_type d = Deny \<longrightarrow> \<not> dominates d e)" for e
    unfolding denied_def dominated_by_denied by (auto simp: in_found)
  show ?thesis
    using assms unfolding authorize_by_resource_type_def Let_def found_def[symmetric] denied_def[symmetric] survives
    by (auto simp: in_found)
qed

lemma name_allowed_by_type_allowed:
  assumes flag: "\<not> allow_everyone_if_no_acl_found au"
    and valid: "\<forall>e \<in> set es. utf8 (resource_name e)" "utf8 name"
    and allowed: "authorize au (source_of es) \<lparr>rq_principal = user, rq_host = peer, rq_resource_type = rt,
          rq_resource_name = name, rq_operation = op\<rparr> = ResultAllow"
  shows "authorize_by_resource_type au (source_of es) user peer rt op = ResultAllow"
proof (cases "user \<in> super_users au")
  case False
  let ?req = "\<lparr>rq_principal = user, rq_host = peer, rq_resource_type = rt, rq_resource_name = name, rq_operation = op\<rparr>"
  have "acl_allows au cidr es ?req" using allowed authorize_exact[OF valid(1), of ?req au] valid(2) by simp
  then obtain e where e: "e \<in> set es" "applies cidr ?req e" "permission_type e = Allow"
    and clear: "\<forall>d \<in> set es. applies cidr ?req d \<longrightarrow> permission_type d \<noteq> Deny"
    using False flag by (auto simp: acl_allows_def)
  show ?thesis
    unfolding by_type_exact[OF False]
    using e clear
    by (intro disjI2 bexI[of _ e])
      (auto simp: applies_def concerns_def dominates_def matches_resource_iff split: pattern_type.splits dest: prefix_order.trans)
qed (simp add: authorize_by_resource_type_def)

lemma literal_type_allowed_by_name:
  assumes flag: "\<not> allow_everyone_if_no_acl_found au"
    and valid: "\<forall>e \<in> set es. utf8 (resource_name e)"
    and literal: "\<forall>e \<in> set es. resource_type e = rt \<and> permission_type e = Allow \<longrightarrow> pattern_type e = Literal \<and> resource_name e \<noteq> ''*''"
    and allowed: "authorize_by_resource_type au (source_of es) user peer rt op = ResultAllow"
  shows "\<exists>name. authorize au (source_of es) \<lparr>rq_principal = user, rq_host = peer, rq_resource_type = rt,
          rq_resource_name = name, rq_operation = op\<rparr> = ResultAllow"
proof (cases "user \<in> super_users au")
  case True
  then show ?thesis by (intro exI[of _ "[]"]) (simp add: authorize_over_source acl_allows_def)
next
  case False
  show ?thesis
  proof (rule disjE[OF allowed[unfolded by_type_exact[OF False]]])
    assume "\<exists>e \<in> set es. concerns cidr user peer rt op e \<and> permission_type e = Allow
      \<and> (\<forall>d \<in> set es. concerns cidr user peer rt op d \<and> permission_type d = Deny \<longrightarrow> \<not> dominates d e)"
    then obtain e where e: "e \<in> set es" "concerns cidr user peer rt op e" "permission_type e = Allow"
      and clear: "\<forall>d \<in> set es. concerns cidr user peer rt op d \<and> permission_type d = Deny \<longrightarrow> \<not> dominates d e"
      by blast
    let ?req = "\<lparr>rq_principal = user, rq_host = peer, rq_resource_type = rt, rq_resource_name = resource_name e, rq_operation = op\<rparr>"
    have lit: "pattern_type e = Literal" "resource_name e \<noteq> ''*''" using literal e by (auto simp: concerns_def)
    have "applies cidr ?req e" using e lit by (simp add: applies_def concerns_def matches_resource_iff)
    moreover have "\<forall>d \<in> set es. applies cidr ?req d \<longrightarrow> permission_type d \<noteq> Deny"
      using clear lit by (auto simp: applies_def concerns_def dominates_def matches_resource_iff split: pattern_type.splits)
    ultimately have "acl_allows au cidr es ?req" using e by (auto simp: acl_allows_def)
    then show ?thesis using authorize_exact[OF valid, of ?req au] valid e(1) by auto
  qed blast
qed

end

text \<open>The snapshot fulfils the contract, with ranges read or not.\<close>

lemma with_cidr_positions [simp]: "cache_positions (with_cidr_hosts_supported supported cache) = cache_positions cache"
  by (simp add: with_cidr_hosts_supported_def cache_positions_def cong: if_cong)

lemma with_cidr_lookups [simp]:
  "cache_matching_acls (with_cidr_hosts_supported supported cache) = cache_matching_acls cache"
  "cache_acls_of_type (with_cidr_hosts_supported supported cache) = cache_acls_of_type cache"
  "cache_cidr_hosts_supported (with_cidr_hosts_supported supported cache) = supported"
proof -
  have types: "by_type (with_cidr_hosts_supported supported cache) = by_type cache"
    by (simp add: with_cidr_hosts_supported_def)
  show "cache_matching_acls (with_cidr_hosts_supported supported cache) = cache_matching_acls cache"
    "cache_acls_of_type (with_cidr_hosts_supported supported cache) = cache_acls_of_type cache"
    by (simp_all add: fun_eq_iff cache_matching_acls_def cache_acls_of_type_def types split: option.splits)
  show "cache_cidr_hosts_supported (with_cidr_hosts_supported supported cache) = supported"
    by (simp add: with_cidr_hosts_supported_def)
qed

interpretation snapshot: acl_source_contract
  "\<lambda>es. acl_cache_source (with_cidr_hosts_supported supported (acl_cache_new es))" supported for supported
proof
  fix es :: "'a acl_entry list" and name rt and e :: "'a acl_entry"
  assume "\<forall>e \<in> set es. utf8 (resource_name e)" "utf8 name" "matches_resource e rt name"
  then show "e \<in> set (matching_acls (acl_cache_source (with_cidr_hosts_supported supported (acl_cache_new es))) rt name)
      \<longleftrightarrow> e \<in> set es"
    using cache_matching_mset[of es name rt, THEN arg_cong[where f = set_mset]]
    by (simp add: acl_cache_source_def)
next
  fix es :: "'a acl_entry list" and rt
  show "set (acls_of_type (acl_cache_source (with_cidr_hosts_supported supported (acl_cache_new es))) rt)
      = {e \<in> set es. resource_type e = rt}"
    using cache_of_type_mset[of es rt, THEN arg_cong[where f = set_mset]]
    by (simp add: acl_cache_source_def)
qed (simp add: acl_cache_source_def)

section \<open>Properties\<close>

text \<open>
  C33: over a snapshot, a request is allowed exactly when its principal is a super user,
  or no stored entry that applies to it denies it and either one that applies allows it
  or, under \<open>allow.everyone.if.no.acl.found\<close>, no entry at all covers the resource.
  The index, the early exit at a DENY and the order of the entries make no difference.
\<close>

theorem authorize_by_precedence:
  assumes "\<forall>e \<in> set es. utf8 (resource_name e)" "utf8 (rq_resource_name req)"
  shows "authorize au (acl_cache_source (with_cidr_hosts_supported cidr (acl_cache_new es))) req = ResultAllow
    \<longleftrightarrow> rq_principal req \<in> super_users au
      \<or> (\<forall>e \<in> set es. applies cidr req e \<longrightarrow> permission_type e \<noteq> Deny)
        \<and> ((\<exists>e \<in> set es. applies cidr req e \<and> permission_type e = Allow)
           \<or> allow_everyone_if_no_acl_found au
             \<and> (\<forall>e \<in> set es. \<not> matches_resource e (rq_resource_type req) (rq_resource_name req)))"
  using snapshot.authorize_exact[OF assms] by (simp add: acl_allows_def)

definition sample_request :: "string \<Rightarrow> nat authorization_request" where
  "sample_request name =
     \<lparr>rq_principal = ''alice'', rq_host = V4 0x0A000005, rq_resource_type = 2,
      rq_resource_name = name, rq_operation = OpRead\<rparr>"

lemma sample_applies:
  "applies cidr (sample_request name) (sample_acl pattern stored permission)
   \<longleftrightarrow> (case pattern of Literal \<Rightarrow> stored = name \<or> stored = ''*'' | Prefixed \<Rightarrow> prefix stored name)"
  by (cases pattern) (simp_all add: applies_def sample_request_def sample_acl_def matches_resource_iff
      matches_principal_def matches_host_def matches_operation_def acl_identity_match_def)

theorem authorize_by_precedence_witness:
  "authorize (simple_acl_authorizer_new {})
     (acl_cache_source (with_cidr_hosts_supported False
       (acl_cache_new [sample_acl Literal ''*'' Allow, sample_acl Prefixed ''te'' Deny])))
     (sample_request ''team'') \<noteq> ResultAllow
   \<and> authorize (simple_acl_authorizer_new {})
     (acl_cache_source (with_cidr_hosts_supported False
       (acl_cache_new [sample_acl Literal ''*'' Allow, sample_acl Prefixed ''te'' Deny])))
     (sample_request ''orders'') = ResultAllow"
proof -
  let ?es = "[sample_acl Literal ''*'' Allow, sample_acl Prefixed ''te'' Deny]"
  have valid: "\<forall>e \<in> set ?es. utf8 (resource_name e)"
    "utf8 (rq_resource_name (sample_request ''team''))" "utf8 (rq_resource_name (sample_request ''orders''))"
    by code_simp+
  show ?thesis
    using authorize_by_precedence[OF valid(1,2), of "simple_acl_authorizer_new {}" False]
      authorize_by_precedence[OF valid(1,3), of "simple_acl_authorizer_new {}" False]
    by (simp add: sample_applies simple_acl_authorizer_new_def) (simp add: sample_acl_def sample_request_def)
qed

text \<open>
  C34: the broker and a gateway decide alike. The broker reads its metadata image, the
  gateway a snapshot of the same entries that was told whether the cluster reads ranges;
  the image's documented lookup is the only thing assumed of it.
\<close>

theorem gateway_agrees_with_broker:
  fixes level :: "int option" and cidr_acl_min_level :: int
  assumes image: "\<And>rt name e. e \<in> set (image_matching rt name) \<longleftrightarrow> e \<in> set es \<and> matches_resource e rt name"
    and valid: "\<forall>e \<in> set es. utf8 (resource_name e)" "utf8 (rq_resource_name req)"
  defines "broker \<equiv> metadata_image_source image_matching es level cidr_acl_min_level"
    and "gateway \<equiv> acl_cache_source (with_cidr_hosts_supported
          (cidr_hosts_supported (metadata_image_source image_matching es level cidr_acl_min_level)) (acl_cache_new es))"
  shows "authorize au gateway req = authorize au broker req"
proof -
  have "authorize au broker req = ResultAllow \<longleftrightarrow> acl_allows au (cidr_hosts_supported broker) es req"
    unfolding authorize_over_source
    by (rule acl_allows_matching) (simp add: broker_def metadata_image_source_def image)
  moreover have "authorize au gateway req = ResultAllow \<longleftrightarrow> acl_allows au (cidr_hosts_supported broker) es req"
    unfolding gateway_def broker_def by (rule snapshot.authorize_exact[OF valid])
  ultimately show ?thesis by (metis authorization_result.exhaust)
qed

theorem gateway_agrees_with_broker_witness:
  "authorize (simple_acl_authorizer_new {})
     (acl_cache_source (with_cidr_hosts_supported True (acl_cache_new [sample_acl Literal ''*'' Allow])))
     (sample_request ''team'')
   = authorize (simple_acl_authorizer_new {})
       (metadata_image_source (\<lambda>rt name. filter (\<lambda>e. matches_resource e rt name) [sample_acl Literal ''*'' Allow])
         [sample_acl Literal ''*'' Allow] (Some 30) 29)
       (sample_request ''team'')"
proof -
  let ?es = "[sample_acl Literal ''*'' Allow]"
  have valid: "\<forall>e \<in> set ?es. utf8 (resource_name e)" "utf8 (rq_resource_name (sample_request ''team''))" by code_simp+
  have image: "e \<in> set (filter (\<lambda>e. matches_resource e rt name) ?es) \<longleftrightarrow> e \<in> set ?es \<and> matches_resource e rt name"
    for rt name e by auto
  show ?thesis
    using gateway_agrees_with_broker[OF image valid, of "simple_acl_authorizer_new {}" "Some 30" 29]
    by (simp add: metadata_image_source_def)
qed

text \<open>
  C35: with \<open>allow.everyone.if.no.acl.found\<close> off, the check without a resource name
  never refuses a caller that some name would admit; and where every grant of the type
  names its resource, it admits a caller only if some name does.
\<close>

theorem type_check_agrees_with_names:
  fixes user peer cidr op rt
  assumes "\<not> allow_everyone_if_no_acl_found au" "\<forall>e \<in> set es. utf8 (resource_name e)"
  defines "source \<equiv> acl_cache_source (with_cidr_hosts_supported cidr (acl_cache_new es))"
    and "named name \<equiv> \<lparr>rq_principal = user, rq_host = peer, rq_resource_type = rt,
          rq_resource_name = name, rq_operation = op\<rparr>"
  shows "(utf8 name \<and> authorize au source (named name) = ResultAllow
          \<longrightarrow> authorize_by_resource_type au source user peer rt op = ResultAllow)
    \<and> ((\<forall>e \<in> set es. resource_type e = rt \<and> permission_type e = Allow
            \<longrightarrow> pattern_type e = Literal \<and> resource_name e \<noteq> ''*'')
        \<and> authorize_by_resource_type au source user peer rt op = ResultAllow
       \<longrightarrow> (\<exists>name. authorize au source (named name) = ResultAllow))"
  unfolding source_def named_def
  using snapshot.name_allowed_by_type_allowed[OF assms(1,2), of name cidr user peer rt op]
    snapshot.literal_type_allowed_by_name[OF assms(1,2), of rt cidr user peer op]
  by blast

theorem type_check_agrees_with_names_witness:
  "authorize_by_resource_type (simple_acl_authorizer_new {})
     (acl_cache_source (with_cidr_hosts_supported False
       (acl_cache_new [sample_acl Literal ''orders'' Allow, sample_acl Prefixed ''te'' Deny])))
     ''alice'' (V4 0x0A000005) 2 OpRead = ResultAllow"
proof -
  let ?es = "[sample_acl Literal ''orders'' Allow, sample_acl Prefixed ''te'' Deny]"
  let ?au = "simple_acl_authorizer_new {}"
  have off: "\<not> allow_everyone_if_no_acl_found ?au" by (simp add: simple_acl_authorizer_new_def)
  have valid: "\<forall>e \<in> set ?es. utf8 (resource_name e)" "utf8 ''orders''" "utf8 (rq_resource_name (sample_request ''orders''))"
    by code_simp+
  have "authorize ?au (acl_cache_source (with_cidr_hosts_supported False (acl_cache_new ?es))) (sample_request ''orders'') = ResultAllow"
    using snapshot.authorize_exact[OF valid(1,3), of ?au False]
    by (simp add: acl_allows_def sample_applies) (simp add: sample_acl_def)
  then show ?thesis
    using type_check_agrees_with_names[OF off valid(1), of "''orders''" False "''alice''" "V4 0x0A000005" 2 OpRead] valid(2)
    by (simp add: sample_request_def)
qed

end
