(* ===== verification/Sasl_Session.thy ===== *)
theory Sasl_Session
  imports Prelude
begin

text \<open>
  The authentication kernels of \<open>verified/src\<close>: which request each phase admits
  and when a session ends (\<open>authz\<close>), whether a validated bearer token may bind a
  session (\<open>oauth\<close>, \<open>jwks\<close>), and the deadlines of delegation tokens
  (\<open>delegation_token\<close>). Clock readings and durations are 64-bit integers, kept as
  \<open>int\<close> with the saturating and checked arithmetic written out.
\<close>

definition saturate_i64 :: "int \<Rightarrow> int" where
  "saturate_i64 x = (if x < i64_min then i64_min else if x > i64_max then i64_max else x)"

definition checked_i64 :: "int \<Rightarrow> int option" where
  "checked_i64 x = (if i64_range x then Some x else None)"

section \<open>Request admission and session expiry\<close>

datatype request_auth_state = PreHandshake | Exchanging | AuthFailed | AuthDone

fun request_auth_admission :: "request_auth_state \<Rightarrow> int \<Rightarrow> bool" where
  "request_auth_admission AuthDone api_key = True"
| "request_auth_admission AuthFailed api_key = False"
| "request_auth_admission Exchanging api_key = (api_key = 36)"
| "request_auth_admission PreHandshake api_key = (api_key = 17 \<or> api_key = 18)"

definition controller_request_admission :: "int option \<Rightarrow> int \<Rightarrow> int \<Rightarrow> bool" where
  "controller_request_admission expiry_ms api_key now_ms =
     request_auth_admission
       (case expiry_ms of
          Some at \<Rightarrow> if now_ms > at then AuthFailed else AuthDone
        | None \<Rightarrow> AuthDone) api_key"

definition sasl_session_expiry :: "int \<Rightarrow> int option \<Rightarrow> int option \<Rightarrow> int option \<times> int" where
  "sasl_session_expiry now_ms credential_expiry_ms reauth_ms =
     (let cap_expiry = (case reauth_ms of
            Some cap \<Rightarrow> if cap > 0 then Some (saturate_i64 (now_ms + cap)) else None
          | None \<Rightarrow> None);
          expiry = (case (credential_expiry_ms, cap_expiry) of
            (Some credential, Some cap) \<Rightarrow> Some (min credential cap)
          | (Some credential, None) \<Rightarrow> Some credential
          | (None, cap) \<Rightarrow> cap)
      in case expiry of
           None \<Rightarrow> (None, 0)
         | Some at \<Rightarrow> (Some at, max (saturate_i64 (at - now_ms)) 0))"

definition min_reauth_interval_ms :: int where "min_reauth_interval_ms = 1000"

definition reauthentication_begins :: "int option \<Rightarrow> int \<Rightarrow> int option \<Rightarrow> bool" where
  "reauthentication_begins expiry_ms now_ms last_start_ms =
     (case (expiry_ms, last_start_ms) of
        (None, _) \<Rightarrow> False
      | (Some _, None) \<Rightarrow> True
      | (Some _, Some started) \<Rightarrow> saturate_i64 (now_ms - started) \<ge> min_reauth_interval_ms)"

definition session_expired_for_request :: "int option \<Rightarrow> int \<Rightarrow> int \<Rightarrow> int option \<Rightarrow> bool" where
  "session_expired_for_request expiry_ms api_key now_ms last_reauth_start_ms =
     (case expiry_ms of
        Some at \<Rightarrow>
          now_ms > at \<and> \<not> (api_key = 17 \<and> reauthentication_begins expiry_ms now_ms last_reauth_start_ms)
      | None \<Rightarrow> False)"

section \<open>Bearer tokens\<close>

record jwks_cache_facts =
  generation_before :: nat
  generation_after :: nat
  last_successful_fetch_ms :: int
  jwks_now_ms :: int
  expiry_enabled :: bool
  jwks_expiry_ms :: int

definition jwks_cache_admission :: "jwks_cache_facts \<Rightarrow> bool" where
  "jwks_cache_admission facts =
     (if \<not> even (generation_before facts) \<or> generation_before facts \<noteq> generation_after facts then False
      else if \<not> expiry_enabled facts then True
      else if jwks_expiry_ms facts < 0 \<or> last_successful_fetch_ms facts \<le> 0
              \<or> jwks_now_ms facts < last_successful_fetch_ms facts then False
      else \<not> jwks_now_ms facts - last_successful_fetch_ms facts > jwks_expiry_ms facts)"

definition oauth_validation_admission :: "int \<Rightarrow> int \<Rightarrow> jwks_cache_facts option \<Rightarrow> bool" where
  "oauth_validation_admission started_ms completed_ms cache =
     (if started_ms < 0 \<or> completed_ms < started_ms then False
      else case cache of
             None \<Rightarrow> True
           | Some facts \<Rightarrow> jwks_cache_admission (facts\<lparr>jwks_now_ms := completed_ms\<rparr>))"

record oauth_session_facts =
  oauth_expiry_present :: bool
  token_expires_at_ms :: int
  oauth_now_ms :: int
  oauth_cap_enabled :: bool
  oauth_cap_ms :: int
  oauth_reauthentication :: bool
  oauth_principal_matches :: bool

datatype oauth_session_outcome = OAuthReject | OAuthAdmit int int

definition oauth_session_admission :: "oauth_session_facts \<Rightarrow> oauth_session_outcome" where
  "oauth_session_admission facts =
     (if \<not> oauth_expiry_present facts then OAuthReject
      else if token_expires_at_ms facts \<le> oauth_now_ms facts then OAuthReject
      else if oauth_reauthentication facts \<and> \<not> oauth_principal_matches facts then OAuthReject
      else if oauth_cap_enabled facts \<and> oauth_cap_ms facts \<le> 0 then OAuthReject
      else case checked_i64 (token_expires_at_ms facts - oauth_now_ms facts) of
             None \<Rightarrow> OAuthReject
           | Some token_lifetime_ms \<Rightarrow>
               let session_lifetime_ms =
                     (if oauth_cap_enabled facts then min token_lifetime_ms (oauth_cap_ms facts) else token_lifetime_ms)
               in (case checked_i64 (oauth_now_ms facts + session_lifetime_ms) of
                     None \<Rightarrow> OAuthReject
                   | Some effective_expires_at_ms \<Rightarrow> OAuthAdmit session_lifetime_ms effective_expires_at_ms))"

definition oauth_session_decision ::
    "int option \<Rightarrow> int \<Rightarrow> int option \<Rightarrow> bool \<Rightarrow> bool \<Rightarrow> oauth_session_outcome" where
  "oauth_session_decision expires_at_ms now_ms max_session_lifetime reauthentication principal_matches =
     oauth_session_admission
       \<lparr>oauth_expiry_present = (expires_at_ms \<noteq> None),
        token_expires_at_ms = (case expires_at_ms of None \<Rightarrow> 0 | Some e \<Rightarrow> e),
        oauth_now_ms = now_ms,
        oauth_cap_enabled = (max_session_lifetime \<noteq> None),
        oauth_cap_ms = (case max_session_lifetime of None \<Rightarrow> 0 | Some cap \<Rightarrow> cap),
        oauth_reauthentication = reauthentication,
        oauth_principal_matches = principal_matches\<rparr>"

section \<open>Delegation tokens\<close>

datatype scram_credential_source = SourceRegular | SourceDelegationToken | SourceUnknown

definition scram_credential_source :: "bool \<Rightarrow> bool \<Rightarrow> bool \<Rightarrow> scram_credential_source" where
  "scram_credential_source has_regular_credential token_mechanism has_token =
     (if has_regular_credential then SourceRegular
      else if token_mechanism \<and> has_token then SourceDelegationToken
      else SourceUnknown)"

definition token_describe_visible :: "bool \<Rightarrow> bool \<Rightarrow> bool \<Rightarrow> bool \<Rightarrow> bool \<Rightarrow> bool" where
  "token_describe_visible owner_filter_matches caller_is_owner caller_is_requester caller_is_renewer acl_allows =
     (owner_filter_matches \<and> (caller_is_owner \<or> caller_is_requester \<or> caller_is_renewer \<or> acl_allows))"

definition token_api_admission :: "bool \<Rightarrow> bool \<Rightarrow> bool" where
  "token_api_admission has_authenticated_identity authenticated_via_token =
     (has_authenticated_identity \<and> \<not> authenticated_via_token)"

datatype token_create_decision = CreateInvalid | TokenCreate int int

datatype token_renew_decision = RenewInvalid | RenewExpired | TokenRenew int

datatype token_expire_decision = ExpireExpired | ExpireDelete | ExpireUpdate int

definition token_deadline :: "int \<Rightarrow> int \<Rightarrow> int" where
  "token_deadline now_ms duration_ms =
     (case checked_i64 (now_ms + duration_ms) of Some deadline \<Rightarrow> deadline | None \<Rightarrow> i64_max)"

definition bounded_period :: "int \<Rightarrow> int \<Rightarrow> int" where
  "bounded_period requested_ms default_ms = (if requested_ms > 0 then min requested_ms default_ms else default_ms)"

definition create_token_deadlines :: "int \<Rightarrow> int \<Rightarrow> int \<Rightarrow> int \<Rightarrow> token_create_decision" where
  "create_token_deadlines now_ms requested_ms ceiling_ms default_renew_period_ms =
     (if ceiling_ms \<le> 0 \<or> default_renew_period_ms \<le> 0 then CreateInvalid
      else
        let max_timestamp_ms = token_deadline now_ms (bounded_period requested_ms ceiling_ms);
            renew_deadline_ms = token_deadline now_ms default_renew_period_ms
        in TokenCreate max_timestamp_ms (min renew_deadline_ms max_timestamp_ms))"

definition renew_token_expiry :: "int \<Rightarrow> int \<Rightarrow> int \<Rightarrow> int \<Rightarrow> int \<Rightarrow> token_renew_decision" where
  "renew_token_expiry now_ms requested_ms default_renew_period_ms current_expiry_ms max_timestamp_ms =
     (if current_expiry_ms < now_ms \<or> max_timestamp_ms < now_ms then RenewExpired
      else if default_renew_period_ms \<le> 0 then RenewInvalid
      else TokenRenew (min (token_deadline now_ms (bounded_period requested_ms default_renew_period_ms)) max_timestamp_ms))"

definition expire_token_deadline :: "int \<Rightarrow> int \<Rightarrow> int \<Rightarrow> int \<Rightarrow> token_expire_decision" where
  "expire_token_deadline now_ms period_ms current_expiry_ms max_timestamp_ms =
     (if period_ms < 0 then ExpireDelete
      else if current_expiry_ms < now_ms \<or> max_timestamp_ms < now_ms then ExpireExpired
      else ExpireUpdate (min (token_deadline now_ms period_ms) max_timestamp_ms))"

datatype token_mutation_kind = MutateRenew | MutateExpire | MutateDelete

datatype token_mutation_state = TokenMissing | TokenExpected | TokenApplied | TokenStale

datatype token_mutation_verdict = MutationAppend | MutationRetry | MutationReject

record token_mutation_facts =
  tm_kind :: token_mutation_kind
  tm_state :: token_mutation_state
  tm_now_ms :: int
  tm_expected_expiry_ms :: int
  tm_incoming_expiry_ms :: int
  tm_max_timestamp_ms :: int
  tm_uncommitted_tail :: bool

definition token_mutation_decision :: "token_mutation_facts \<Rightarrow> token_mutation_verdict" where
  "token_mutation_decision facts =
     (if tm_uncommitted_tail facts then MutationReject
      else case tm_state facts of
             TokenApplied \<Rightarrow> MutationRetry
           | TokenMissing \<Rightarrow>
               (case tm_kind facts of MutateDelete \<Rightarrow> MutationRetry | _ \<Rightarrow> MutationReject)
           | TokenStale \<Rightarrow> MutationReject
           | TokenExpected \<Rightarrow>
               (case tm_kind facts of
                  MutateDelete \<Rightarrow> MutationAppend
                | MutateRenew \<Rightarrow>
                    if tm_now_ms facts < 0 \<or> tm_expected_expiry_ms facts < tm_now_ms facts
                       \<or> tm_max_timestamp_ms facts < tm_now_ms facts
                       \<or> tm_expected_expiry_ms facts > tm_max_timestamp_ms facts
                    then MutationReject
                    else if tm_incoming_expiry_ms facts = tm_expected_expiry_ms facts then MutationRetry
                    else if tm_incoming_expiry_ms facts \<ge> tm_now_ms facts
                            \<and> tm_incoming_expiry_ms facts \<le> tm_max_timestamp_ms facts
                    then MutationAppend else MutationReject
                | MutateExpire \<Rightarrow>
                    if tm_now_ms facts \<ge> 0 \<and> tm_expected_expiry_ms facts \<ge> tm_now_ms facts
                       \<and> tm_max_timestamp_ms facts \<ge> tm_now_ms facts
                       \<and> tm_expected_expiry_ms facts \<le> tm_max_timestamp_ms facts
                       \<and> tm_incoming_expiry_ms facts \<ge> 0
                       \<and> tm_incoming_expiry_ms facts \<le> tm_max_timestamp_ms facts
                    then MutationAppend else MutationReject))"

section \<open>Session windows\<close>

lemma session_expiry_bounds:
  assumes "sasl_session_expiry now credential cap = (Some at, lifetime)"
  shows "\<And>c. credential = Some c \<Longrightarrow> at \<le> c"
    and "\<And>w. cap = Some w \<Longrightarrow> w > 0 \<Longrightarrow> i64_range now \<Longrightarrow> at \<le> now + w"
    and "lifetime \<ge> 0"
  using assms
  by (auto simp: sasl_session_expiry_def Let_def saturate_i64_def i64_range_def split: option.splits if_splits)

lemma session_expiry_none:
  "fst (sasl_session_expiry now credential cap) = None
   \<longleftrightarrow> credential = None \<and> (\<forall>w. cap = Some w \<longrightarrow> w \<le> 0)"
  by (auto simp: sasl_session_expiry_def Let_def split: option.splits)

lemma oauth_admit_bounds:
  assumes "oauth_session_decision expires now cap reauth same = OAuthAdmit lifetime at"
  shows "at \<le> the expires" "expires \<noteq> None" "at = now + lifetime" "lifetime > 0"
    and "\<And>w. cap = Some w \<Longrightarrow> at \<le> now + w"
    and "reauth \<Longrightarrow> same"
  using assms
  by (auto simp: oauth_session_decision_def oauth_session_admission_def Let_def checked_i64_def split: if_splits option.splits)

lemma token_deadline_bounds:
  assumes "i64_range now" "d \<ge> 0"
  shows "now \<le> token_deadline now d" "token_deadline now d \<le> now + d" "i64_range (token_deadline now d)"
  using assms by (auto simp: token_deadline_def checked_i64_def i64_range_def i64_min_def i64_max_def)

section \<open>The life of a delegation token\<close>

text \<open>
  A token is created at \<open>born\<close> under the configured ceiling and then renewed and
  expired at later clock readings, any number of times and in any order.
\<close>

inductive token_life :: "int \<Rightarrow> int \<Rightarrow> int \<Rightarrow> int \<Rightarrow> bool" for born :: int and ceiling :: int where
  token_created: "\<lbrakk>i64_range born; create_token_deadlines born requested ceiling period = TokenCreate limit expiry\<rbrakk>
     \<Longrightarrow> token_life born ceiling limit expiry"
| token_renewed: "\<lbrakk>token_life born ceiling limit expiry; i64_range now;
     renew_token_expiry now requested period expiry limit = TokenRenew expiry'\<rbrakk>
     \<Longrightarrow> token_life born ceiling limit expiry'"
| token_shortened: "\<lbrakk>token_life born ceiling limit expiry; i64_range now;
     expire_token_deadline now requested expiry limit = ExpireUpdate expiry'\<rbrakk>
     \<Longrightarrow> token_life born ceiling limit expiry'"

inductive_cases token_life_cases: "token_life born ceiling limit expiry"

lemma renewed_expiry:
  assumes "renew_token_expiry now requested period expiry limit = TokenRenew expiry'" "i64_range now"
  shows "now \<le> expiry'" "expiry' \<le> limit" "now \<le> expiry" "now \<le> limit"
  using assms token_deadline_bounds(1)[of now "bounded_period requested period"]
  by (auto simp: renew_token_expiry_def bounded_period_def split: if_splits)

lemma shortened_expiry:
  assumes "expire_token_deadline now requested expiry limit = ExpireUpdate expiry'" "i64_range now"
  shows "now \<le> expiry'" "expiry' \<le> limit" "now \<le> expiry" "now \<le> limit"
  using assms token_deadline_bounds(1)[of now requested]
  by (auto simp: expire_token_deadline_def split: if_splits)

lemma created_deadlines:
  assumes "create_token_deadlines now requested ceiling period = TokenCreate limit expiry" "i64_range now"
  shows "expiry \<le> limit" "limit \<le> now + ceiling"
proof -
  have "ceiling > 0" "limit = token_deadline now (bounded_period requested ceiling)" "expiry \<le> limit"
    using assms(1) by (auto simp: create_token_deadlines_def Let_def split: if_splits)
  moreover from this have "0 \<le> bounded_period requested ceiling" "bounded_period requested ceiling \<le> ceiling"
    by (auto simp: bounded_period_def)
  ultimately show "expiry \<le> limit" "limit \<le> now + ceiling"
    using token_deadline_bounds(2)[of now "bounded_period requested ceiling"] assms(2) by auto
qed

lemma token_life_bounds: "token_life born ceiling limit expiry \<Longrightarrow> expiry \<le> limit \<and> limit \<le> born + ceiling"
proof (induction rule: token_life.induct)
  case (token_created requested period limit expiry)
  then show ?case using created_deadlines[OF token_created(2,1)] by simp
next
  case (token_renewed limit expiry now requested period expiry')
  then show ?case using renewed_expiry(2)[OF token_renewed(3,2)] by simp
next
  case (token_shortened limit expiry now requested expiry')
  then show ?case using shortened_expiry(2)[OF token_shortened(3,2)] by simp
qed



end
