(* ===== verification/Spec2Isabelle.thy ===== *)
theory Spec2Isabelle
  imports Election_Safety Quorum_Replication Leader_Epoch Engine_Safety Acl_Authorizer Sasl_Session
begin

text \<open>
  A verification development for the krabka broker, a Kafka-compatible broker and
  controller written in Rust. Paths below are relative to \<open>src/crates/\<close>.

  \<^bold>\<open>The program.\<close> A cluster of controllers agrees on a metadata log with KRaft. The
  core of that protocol, \<open>kraft-core\<close>, is a state machine without input or output: an
  event goes in, a new state and a list of actions come out. The engine in
  \<open>raft/src/kraft/controller\<close> runs the actions of the core against a disk, timers and
  peers, keeps the quorum-state file and the metadata snapshots, and sends a snapshot to
  a follower that has fallen behind. Each partition log keeps a history of leader epochs
  (\<open>log/src/leader_epoch_checkpoint.rs\<close>). Requests are authenticated over sessions with
  a deadline, and authorized against access-control entries (\<open>authz\<close>), by the broker and
  by a gateway alike. The crate \<open>verified\<close> holds the decision kernels all of them call.

  \<^bold>\<open>How the theories follow the code.\<close>
  \<^item> \<open>Prelude\<close>, \<open>Text_Format\<close>: machine integers (\<open>u16\<close>, \<open>u32\<close>, \<open>u64\<close> are words,
    \<open>i32\<close> and \<open>i64\<close> are \<open>int\<close> with their ranges), saturating arithmetic, \<open>BTreeMap\<close> as
    a key-sorted association list, and the printing, parsing and splitting of text that
    the code takes from the standard library.
  \<^item> \<open>Consensus_Kernels\<close>: \<open>verified/src/consensus\<close> and \<open>verified/src/vote.rs\<close>. The
    one-pass watermark kernel is proved equal to the majority-th largest log end.
  \<^item> \<open>Quorum_Types\<close>, \<open>Quorum_Machine\<close>: the types and every event handler, membership
    and shutdown operation of \<open>kraft-core\<close>, composed in \<open>on_event\<close>. A Rust panic is
    \<open>None\<close>. \<open>Simulation_Support\<close>: the message and timer helpers of its simulations.
  \<^item> \<open>Quorum_Discipline\<close>, \<open>Quorum_Elections\<close>, \<open>Quorum_Invariant\<close>,
    \<open>Quorum_Replication\<close>: what one event may do. A vote is persisted before it is
    granted, a vote of an epoch does not change, every role fits the durable state, the
    high watermark grows and stands on a majority, and the core never panics.
  \<^item> \<open>Election_Safety\<close>: a cluster of machines over a network that loses, repeats and
    reorders messages, with crashes between any two actions. At most one replica becomes
    leader of an epoch, and a leader holds durable votes of a majority.
  \<^item> \<open>Quorum_State_File\<close>, \<open>Checkpoint_Store\<close>, \<open>Snapshot_Fetch\<close>: the files of
    \<open>raft/src/kraft/controller\<close> and the transfer of a snapshot with the kernels of
    \<open>verified\<close>: round trips, retention, and a transfer that ends with exactly the file.
  \<^item> \<open>Controller_Engine\<close>, \<open>Engine_Safety\<close>: the executor of the core's actions, the
    timers, the Vote, BeginQuorumEpoch and EndQuorumEpoch requests with their wire checks,
    graceful shutdown and restart. A granted vote survives a crash, a broadcast vote
    request arrives as sent, and a voter always waits on the timer of its role; the
    theory also shows three places where the engine stops short of its contract.
  \<^item> \<open>Leader_Epoch\<close>: the leader-epoch history with its file and its failing writes.
  \<^item> \<open>Host_Address\<close>, \<open>Acl_Matching\<close>, \<open>Acl_Cache\<close>, \<open>Acl_Authorizer\<close>: the crate
    \<open>authz\<close> with the kernels of \<open>verified/src/authz\<close>. Addresses are words of 32 or 128
    bits, a string is the list of its bytes. The indexed lookup is exact, the decision
    is the precedence rule over all stored entries, and broker and gateway agree.
  \<^item> \<open>Sasl_Session\<close>: request admission, session expiry, bearer-token sessions and the
    deadlines of delegation tokens (\<open>verified/src/authz\<close>, \<open>oauth\<close>, \<open>jwks\<close>,
    \<open>delegation_token\<close>).

  \<^bold>\<open>Interfaces.\<close> The voter set of the crate \<open>krabka-voters\<close> is the record \<open>voter_ops\<close>
  with the laws of the locale \<open>voter_contract\<close>; \<open>Simulation_Support\<close> interprets it on
  the list of identifiers the simulations build voter sets from. The contract of a source
  of access-control entries is the locale \<open>acl_source_contract\<close>, interpreted on the
  indexed snapshot of \<open>Acl_Cache\<close>. Code of other crates is a parameter: the textual form
  of UUIDs, the metadata image, the type of resource types, the work on log records that
  the engine delegates. The clock, the results of file operations and the random jitter
  are inputs.

  \<^bold>\<open>Bounds.\<close> No model uses fuel: loops are structural recursions or carry a termination
  proof. Where the code saturates (epochs at \<open>u32::MAX\<close>, clock sums at \<open>i64::MAX\<close>) the
  definitions do, and the theorems name the boundary they need.

  \<^bold>\<open>Not modelled.\<close> Of the controller engine: the append, apply and truncation of metadata
  records, reconfiguration and the admission of mutations, because they work on the
  metadata image and the record types of crates outside this repository. Of the partition
  log: segments, indexes, compaction and recovery, which are byte layouts over files and
  record batches of an outside crate. The request handlers, coordinators, replication
  and network loop of \<open>broker\<close> are asynchronous code over sockets, channels and generated
  protocol types. Remote storage, restore, object stores, audit delivery, telemetry, the
  command lines, macros, benches and tests are input and output, build-time or test code.
\<close>

end
